(* ===== verification/Core_Prelude.thy ===== *)
theory Core_Prelude
  imports Main "HOL-Library.Multiset" "HOL-Library.Signed_Division"
begin

text \<open>
  The vocabulary every component shares.
  \<^item> Go's \<open>int64\<close> and \<open>int32\<close> values are HOL integers, with the wrap-around of
    two's complement arithmetic written out by \<open>i64\<close> and \<open>i32\<close> at every operation
    that can leave the range, and Go's truncated division as \<open>quot64\<close>.
  \<^item> A stateful, fallible routine is a function from the state to a result or an error
    and the new state; \<open>bindP\<close> is the \<open>if err != nil { return err }\<close> of the
    sources, \<open>catchP\<close> inspects the error instead.
  \<^item> \<open>preserves\<close> and \<open>ensures\<close> are the two judgements invariants are proved with;
    their rules form the collections \<open>preserve_rules\<close> and \<open>ensure_rules\<close>.
\<close>

named_theorems preserve_rules \<open>rules that derive the preservation of a state predicate\<close>
named_theorems ensure_rules \<open>rules that derive a property of the value a routine returns\<close>
named_theorems i64_simps \<open>identities for wrapped arithmetic\<close>
named_theorems prog_simps \<open>unfolding of the control operators\<close>

section \<open>Machine integers\<close>

type_synonym int64 = int
type_synonym int32 = int

definition i64 :: "int \<Rightarrow> int64" where
  "i64 x = (x + 2 ^ 63) mod 2 ^ 64 - 2 ^ 63"

definition i32 :: "int \<Rightarrow> int32" where
  "i32 x = (x + 2 ^ 31) mod 2 ^ 32 - 2 ^ 31"

definition in64 :: "int \<Rightarrow> bool" where
  "in64 x \<longleftrightarrow> - (2 ^ 63) \<le> x \<and> x < 2 ^ 63"

definition in32 :: "int \<Rightarrow> bool" where
  "in32 x \<longleftrightarrow> - (2 ^ 31) \<le> x \<and> x < 2 ^ 31"

text \<open>Go's \<open>/\<close> on \<open>int64\<close> truncates towards zero; only the quotient of the least
  value by \<open>-1\<close> leaves the range. A zero divisor panics; every divisor of the modelled
  code is a nonzero constant or guarded to be positive.\<close>

definition quot64 :: "int64 \<Rightarrow> int64 \<Rightarrow> int64" where
  "quot64 a b = i64 (a sdiv b)"

definition rem64 :: "int64 \<Rightarrow> int64 \<Rightarrow> int64" where
  "rem64 a b = a smod b"

lemma i64_id [simp, i64_simps]: "in64 x \<Longrightarrow> i64 x = x"
  by (simp add: i64_def in64_def)

lemma i32_id [simp]: "in32 x \<Longrightarrow> i32 x = x"
  by (simp add: i32_def in32_def)

lemma in64_i64 [simp]: "in64 (i64 x)"
proof -
  have "0 \<le> (x + 2 ^ 63) mod 2 ^ 64" "(x + 2 ^ 63) mod 2 ^ 64 < (2::int) ^ 64"
    by (rule pos_mod_sign, simp) (rule pos_mod_bound, simp)
  then show ?thesis by (simp add: in64_def i64_def)
qed

lemma in32_in64: "in32 x \<Longrightarrow> in64 x"
  by (simp add: in32_def in64_def)

lemma i64_eq_iff: "i64 x = i64 y \<longleftrightarrow> x mod 2 ^ 64 = y mod 2 ^ 64"
proof -
  have "i64 x = i64 y \<longleftrightarrow> (x + 2 ^ 63) mod 2 ^ 64 = (y + 2 ^ 63) mod 2 ^ 64"
    by (simp add: i64_def)
  also have "\<dots> \<longleftrightarrow> x mod 2 ^ 64 = y mod 2 ^ 64"
    by (simp add: mod_eq_dvd_iff)
  finally show ?thesis .
qed

lemma i64_mod: "i64 x mod 2 ^ 64 = x mod 2 ^ 64"
proof -
  have "i64 (i64 x) = i64 x" by simp
  then show ?thesis by (simp only: i64_eq_iff)
qed

lemma i64_add_left [simp, i64_simps]: "i64 (i64 x + y) = i64 (x + y)"
  unfolding i64_eq_iff by (metis i64_mod mod_add_left_eq)

lemma i64_add_right [simp, i64_simps]: "i64 (x + i64 y) = i64 (x + y)"
  unfolding i64_eq_iff by (metis i64_mod mod_add_right_eq)

lemma i64_diff_left [simp, i64_simps]: "i64 (i64 x - y) = i64 (x - y)"
  unfolding i64_eq_iff by (metis i64_mod mod_diff_left_eq)

lemma i64_diff_right [simp, i64_simps]: "i64 (x - i64 y) = i64 (x - y)"
  unfolding i64_eq_iff by (metis i64_mod mod_diff_right_eq)

lemma int_div_le_dividend: "0 \<le> a \<Longrightarrow> 0 < b \<Longrightarrow> a div b \<le> (a::int)"
  using zdiv_mono2 [of a 1 b] by simp

lemma sdiv_nonneg: "0 \<le> a \<Longrightarrow> 0 < b \<Longrightarrow> a sdiv b = a div (b::int)"
  by (cases "a = 0") (simp_all add: signed_divide_int_def)

lemma smod_nonneg: "0 \<le> a \<Longrightarrow> 0 < b \<Longrightarrow> a smod b = a mod (b::int)"
  by (cases "a = 0") (simp_all add: signed_modulo_int_def sdiv_nonneg)

lemma abs_sdiv_le: "\<bar>a sdiv b\<bar> \<le> \<bar>a::int\<bar>"
proof -
  have "\<bar>a\<bar> div \<bar>b\<bar> \<le> \<bar>a\<bar>"
    by (cases "b = 0") (simp_all add: int_div_le_dividend)
  moreover have "0 \<le> \<bar>a\<bar> div \<bar>b\<bar>"
    by (cases "b = 0") (simp_all add: pos_imp_zdiv_nonneg_iff)
  ultimately show ?thesis
    by (auto simp: signed_divide_int_def abs_mult sgn_if)
qed

lemma in64_sdiv: "in64 a \<Longrightarrow> 0 < b \<Longrightarrow> in64 (a sdiv b)"
proof -
  assume a: "in64 a" and b: "0 < b"
  show ?thesis
  proof (cases "0 \<le> a")
    case True
    then have "0 \<le> a sdiv b" "a sdiv b \<le> a"
      using b by (simp_all add: sdiv_nonneg pos_imp_zdiv_nonneg_iff int_div_le_dividend)
    with a True show ?thesis by (auto simp: in64_def)
  next
    case False
    then have "a sdiv b = - (\<bar>a\<bar> div b)"
      using b by (simp add: signed_divide_int_def)
    moreover have "0 \<le> \<bar>a\<bar> div b" using b by (simp add: pos_imp_zdiv_nonneg_iff)
    ultimately show ?thesis
      using a False abs_sdiv_le [of a b] by (auto simp: in64_def)
  qed
qed

lemma quot64_sdiv: "in64 a \<Longrightarrow> 0 < b \<Longrightarrow> quot64 a b = a sdiv b"
  by (simp add: quot64_def in64_sdiv)

lemma quot64_nonneg: "in64 a \<Longrightarrow> 0 \<le> a \<Longrightarrow> 0 < b \<Longrightarrow> quot64 a b = a div b"
  by (simp add: quot64_sdiv sdiv_nonneg)

lemma rem64_nonneg: "0 \<le> a \<Longrightarrow> 0 < b \<Longrightarrow> rem64 a b = a mod b"
  by (simp add: rem64_def smod_nonneg)

section \<open>Routines with state and errors\<close>

type_synonym ('s, 'e, 'a) prog = "'s \<Rightarrow> ('e + 'a) \<times> 's"

definition retP :: "'a \<Rightarrow> ('s, 'e, 'a) prog" where
  "retP x s = (Inr x, s)"

definition throwP :: "'e \<Rightarrow> ('s, 'e, 'a) prog" where
  "throwP err s = (Inl err, s)"

definition bindP :: "('s, 'e, 'a) prog \<Rightarrow> ('a \<Rightarrow> ('s, 'e, 'b) prog) \<Rightarrow> ('s, 'e, 'b) prog" where
  "bindP m f s = (case m s of (Inl err, s') \<Rightarrow> (Inl err, s') | (Inr x, s') \<Rightarrow> f x s')"

definition catchP :: "('s, 'e, 'a) prog \<Rightarrow> ('e \<Rightarrow> ('s, 'd, 'a) prog) \<Rightarrow> ('s, 'd, 'a) prog" where
  "catchP m h s = (case m s of (Inl err, s') \<Rightarrow> h err s' | (Inr x, s') \<Rightarrow> (Inr x, s'))"

definition mapErr :: "('e \<Rightarrow> 'd) \<Rightarrow> ('s, 'e, 'a) prog \<Rightarrow> ('s, 'd, 'a) prog" where
  "mapErr g m s = (case m s of (Inl err, s') \<Rightarrow> (Inl (g err), s') | (Inr x, s') \<Rightarrow> (Inr x, s'))"

definition liftE :: "'e + 'a \<Rightarrow> ('s, 'e, 'a) prog" where
  "liftE r s = (r, s)"

definition getsP :: "('s \<Rightarrow> 'a) \<Rightarrow> ('s, 'e, 'a) prog" where
  "getsP f s = (Inr (f s), s)"

definition guardP :: "bool \<Rightarrow> 'e \<Rightarrow> ('s, 'e, unit) prog" where
  "guardP b err = (if b then retP () else throwP err)"

lemmas prog_defs = retP_def throwP_def liftE_def getsP_def guardP_def mapErr_def

lemma bindP_ret [simp, prog_simps]: "bindP (retP x) f = f x"
  by (rule ext) (simp add: bindP_def retP_def)

lemma bindP_throw [simp, prog_simps]: "bindP (throwP err) f = throwP err"
  by (rule ext) (simp add: bindP_def throwP_def)

lemma bindP_guard [simp, prog_simps]:
  "bindP (guardP b err) f = (if b then f () else throwP err)"
  by (simp add: guardP_def)

lemma bindP_assoc: "bindP (bindP m f) g = bindP m (\<lambda>x. bindP (f x) g)"
  by (rule ext) (simp add: bindP_def split: prod.splits sum.splits)

lemma bindP_InrE:
  assumes "bindP m f s = (Inr y, t)"
  obtains x u where "m s = (Inr x, u)" and "f x u = (Inr y, t)"
  using assms by (auto simp: bindP_def split: prod.splits sum.splits)

lemma catchP_InrE:
  assumes "catchP m h s = (Inr y, t)"
  obtains "m s = (Inr y, t)" | err u where "m s = (Inl err, u)" and "h err u = (Inr y, t)"
  using assms by (auto simp: catchP_def split: prod.splits sum.splits)

lemma mapErr_Inr [simp]: "mapErr g m s = (Inr y, t) \<longleftrightarrow> m s = (Inr y, t)"
  by (auto simp: mapErr_def split: prod.splits sum.splits)

lemma retP_eq [simp]: "retP x s = (r, t) \<longleftrightarrow> r = Inr x \<and> t = s"
  by (auto simp: retP_def)

lemma throwP_eq [simp]: "throwP err s = (r, t) \<longleftrightarrow> r = Inl err \<and> t = s"
  by (auto simp: throwP_def)

lemma liftE_eq [simp]: "liftE q s = (r, t) \<longleftrightarrow> r = q \<and> t = s"
  by (auto simp: liftE_def)

lemma getsP_eq [simp]: "getsP f s = (r, t) \<longleftrightarrow> r = Inr (f s) \<and> t = s"
  by (auto simp: getsP_def)

lemma guardP_Inr [simp]: "guardP b err s = (Inr u, t) \<longleftrightarrow> b \<and> t = s"
  by (simp add: guardP_def)

subsection \<open>Preservation of a state predicate\<close>

text \<open>\<open>preserves R m\<close>: whatever \<open>m\<close> returns, an error included, the states before and
  after are related by the reflexive and transitive \<open>R\<close>. A one-state invariant \<open>I\<close>
  is the relation \<open>\<lambda>s t. I s \<longrightarrow> I t\<close>.\<close>

definition preserves :: "('s \<Rightarrow> 's \<Rightarrow> bool) \<Rightarrow> ('s, 'e, 'a) prog \<Rightarrow> bool" where
  "preserves R m \<longleftrightarrow> (\<forall>s. R s (snd (m s)))"

definition frame_rel :: "('s \<Rightarrow> 's \<Rightarrow> bool) \<Rightarrow> bool" where
  "frame_rel R \<longleftrightarrow> (\<forall>s. R s s) \<and> (\<forall>s t u. R s t \<longrightarrow> R t u \<longrightarrow> R s u)"

lemma frame_rel_invariant [simp, intro]: "frame_rel (\<lambda>s t. I s \<longrightarrow> I t)"
  by (simp add: frame_rel_def)

lemma frame_rel_eq [simp, intro]: "frame_rel (\<lambda>s t. f t = f s)"
  by (simp add: frame_rel_def)

lemma preservesD: "preserves R m \<Longrightarrow> m s = (r, t) \<Longrightarrow> R s t"
  by (metis preserves_def snd_conv)

lemma preserves_ret [preserve_rules]: "frame_rel R \<Longrightarrow> preserves R (retP x)"
  by (simp add: preserves_def frame_rel_def retP_def)

lemma preserves_throw [preserve_rules]: "frame_rel R \<Longrightarrow> preserves R (throwP err)"
  by (simp add: preserves_def frame_rel_def throwP_def)

lemma preserves_lift [preserve_rules]: "frame_rel R \<Longrightarrow> preserves R (liftE r)"
  by (simp add: preserves_def frame_rel_def liftE_def)

lemma preserves_gets [preserve_rules]: "frame_rel R \<Longrightarrow> preserves R (getsP f)"
  by (simp add: preserves_def frame_rel_def getsP_def)

lemma preserves_guard [preserve_rules]: "frame_rel R \<Longrightarrow> preserves R (guardP b err)"
  by (simp add: guardP_def preserves_ret preserves_throw)

lemma preserves_bind [preserve_rules]:
  assumes "frame_rel R" and "preserves R m" and "\<And>x. preserves R (f x)"
  shows "preserves R (bindP m f)"
  unfolding preserves_def
proof
  fix s
  obtain r u where m: "m s = (r, u)" by fastforce
  with assms(2) have 1: "R s u" by (rule preservesD)
  show "R s (snd (bindP m f s))"
  proof (cases r)
    case (Inl err)
    with m 1 show ?thesis by (simp add: bindP_def)
  next
    case (Inr x)
    have "R u (snd (f x u))" using assms(3) by (simp add: preserves_def)
    with assms(1) 1 have "R s (snd (f x u))" unfolding frame_rel_def by blast
    with m Inr show ?thesis by (simp add: bindP_def)
  qed
qed

lemma preserves_catch [preserve_rules]:
  assumes "frame_rel R" and "preserves R m" and "\<And>x. preserves R (h x)"
  shows "preserves R (catchP m h)"
  unfolding preserves_def
proof
  fix s
  obtain r u where m: "m s = (r, u)" by fastforce
  with assms(2) have 1: "R s u" by (rule preservesD)
  show "R s (snd (catchP m h s))"
  proof (cases r)
    case (Inr x)
    with m 1 show ?thesis by (simp add: catchP_def)
  next
    case (Inl err)
    have "R u (snd (h err u))" using assms(3) by (simp add: preserves_def)
    with assms(1) 1 have "R s (snd (h err u))" unfolding frame_rel_def by blast
    with m Inl show ?thesis by (simp add: catchP_def)
  qed
qed

lemma preserves_mapErr [preserve_rules]: "preserves R m \<Longrightarrow> preserves R (mapErr g m)"
  by (simp add: preserves_def mapErr_def split: prod.splits sum.splits)
     (metis snd_conv)

lemma preserves_if [preserve_rules]:
  "(b \<Longrightarrow> preserves R m) \<Longrightarrow> (\<not> b \<Longrightarrow> preserves R n) \<Longrightarrow> preserves R (if b then m else n)"
  by simp

lemma preserves_case_option [preserve_rules]:
  "(x = None \<Longrightarrow> preserves R m) \<Longrightarrow> (\<And>y. x = Some y \<Longrightarrow> preserves R (f y)) \<Longrightarrow>
   preserves R (case x of None \<Rightarrow> m | Some y \<Rightarrow> f y)"
  by (cases x) simp_all

end
