(* ===== verification/Go_Strings.thy ===== *)
theory Go_Strings
  imports Core_Prelude
begin

text \<open>
  What the program uses of Go's \<open>strings\<close>, \<open>unicode/utf8\<close>, \<open>strconv\<close> and
  \<open>time\<close> packages. A Go string is a sequence of bytes, which is HOL's \<open>string\<close>
  (a list of 8-bit characters). \<open>trimSpace\<close> recognises the UTF-8 encodings of every
  Unicode white space character, \<open>runeCount\<close> and \<open>validUTF8\<close> decode as
  \<open>utf8.DecodeRune\<close> does, and \<open>toLower\<close> maps ASCII letters; the case tables of
  non-ASCII characters are its parameter \<open>uni\<close>. The lemmas show that trimming is
  idempotent and that dates print and parse back.
\<close>

section \<open>White space\<close>

abbreviation byte :: "char \<Rightarrow> nat" where
  "byte c \<equiv> of_char c"

definition space1 :: "nat \<Rightarrow> bool" where
  "space1 a \<longleftrightarrow> (9 \<le> a \<and> a \<le> 13) \<or> a = 32"

definition space2 :: "nat \<Rightarrow> nat \<Rightarrow> bool" where
  "space2 a b \<longleftrightarrow> a = 194 \<and> (b = 133 \<or> b = 160)"

definition space3 :: "nat \<Rightarrow> nat \<Rightarrow> nat \<Rightarrow> bool" where
  "space3 a b c \<longleftrightarrow> (a = 225 \<and> b = 154 \<and> c = 128)
     \<or> (a = 226 \<and> b = 128 \<and> (128 \<le> c \<and> c \<le> 138 \<or> c = 168 \<or> c = 169 \<or> c = 175))
     \<or> (a = 226 \<and> b = 129 \<and> c = 159)
     \<or> (a = 227 \<and> b = 128 \<and> c = 128)"

text \<open>The number of bytes of the white space character a string starts with, 0 if none;
  \<open>spaceLenR\<close> reads a reversed string.\<close>

definition spaceLen :: "string \<Rightarrow> nat" where
  "spaceLen s = (case s of [] \<Rightarrow> 0 | a # s1 \<Rightarrow> if space1 (byte a) then 1 else
     (case s1 of [] \<Rightarrow> 0 | b # s2 \<Rightarrow> if space2 (byte a) (byte b) then 2 else
       (case s2 of [] \<Rightarrow> 0 | c # s3 \<Rightarrow> if space3 (byte a) (byte b) (byte c) then 3 else 0)))"

definition spaceLenR :: "string \<Rightarrow> nat" where
  "spaceLenR s = (case s of [] \<Rightarrow> 0 | a # s1 \<Rightarrow> if space1 (byte a) then 1 else
     (case s1 of [] \<Rightarrow> 0 | b # s2 \<Rightarrow> if space2 (byte b) (byte a) then 2 else
       (case s2 of [] \<Rightarrow> 0 | c # s3 \<Rightarrow> if space3 (byte c) (byte b) (byte a) then 3 else 0)))"

function stripWhile :: "(string \<Rightarrow> nat) \<Rightarrow> string \<Rightarrow> string" where
  "stripWhile f s = (if s = [] \<or> f s = 0 then s else stripWhile f (drop (f s) s))"
  by pat_completeness auto
termination by (relation "measure (\<lambda>(f, s). length s)") (auto simp: length_greater_0_conv)

declare stripWhile.simps [simp del]

definition trimSpace :: "string \<Rightarrow> string" where
  "trimSpace s = rev (stripWhile spaceLenR (rev (stripWhile spaceLen s)))"

definition blank :: "string \<Rightarrow> bool" where
  "blank s \<longleftrightarrow> trimSpace s = []"

lemma stripWhile_Nil [simp]: "stripWhile f [] = []"
  by (simp add: stripWhile.simps)

lemma stripWhile_id: "f s = 0 \<Longrightarrow> stripWhile f s = s"
  by (simp add: stripWhile.simps)

lemma stripWhile_stops: "stripWhile f s = [] \<or> f (stripWhile f s) = 0"
  by (induction f s rule: stripWhile.induct) (metis stripWhile.simps)

lemma stripWhile_suffix: "\<exists>p. s = p @ stripWhile f s"
proof (induction f s rule: stripWhile.induct)
  case (1 f s)
  show ?case
  proof (cases "s = [] \<or> f s = 0")
    case True
    then show ?thesis by (auto simp: stripWhile_id)
  next
    case False
    with "1" obtain p where "drop (f s) s = p @ stripWhile f (drop (f s) s)" by blast
    then have "s = (take (f s) s @ p) @ stripWhile f s"
      using False by (metis append.assoc append_take_drop_id stripWhile.simps)
    then show ?thesis by blast
  qed
qed

lemma stripWhile_idem: "stripWhile f (stripWhile f s) = stripWhile f s"
  using stripWhile_stops [of f s] by (auto simp: stripWhile_id)

lemma spaceLen_append: "spaceLen (t @ w) = 0 \<Longrightarrow> spaceLen t = 0"
  by (auto simp: spaceLen_def split: list.splits if_splits)

lemma trimSpace_idem [simp]: "trimSpace (trimSpace s) = trimSpace s"
proof -
  define u where "u = stripWhile spaceLen s"
  define t where "t = trimSpace s"
  have t: "rev t = stripWhile spaceLenR (rev u)" by (simp add: t_def u_def trimSpace_def)
  obtain p where "rev u = p @ rev t" using stripWhile_suffix t by metis
  then have u: "u = t @ rev p" by (metis rev_append rev_rev_ident)
  have "stripWhile spaceLen t = t"
  proof (cases "u = []")
    case True
    with u show ?thesis by simp
  next
    case False
    then have "spaceLen u = 0" using stripWhile_stops [of spaceLen s] by (simp add: u_def)
    with u have "spaceLen t = 0" by (metis spaceLen_append)
    then show ?thesis by (rule stripWhile_id)
  qed
  then have "trimSpace t = rev (stripWhile spaceLenR (rev t))" by (simp add: trimSpace_def)
  also have "\<dots> = t" by (simp add: t stripWhile_idem) (metis rev_swap t)
  finally show ?thesis by (simp add: t_def)
qed

lemma trimSpace_Nil [simp]: "trimSpace [] = []"
  by (simp add: trimSpace_def)

lemma blank_trim [simp]: "blank (trimSpace s) \<longleftrightarrow> blank s"
  by (simp add: blank_def)

lemma blank_Nil [simp]: "blank []"
  by (simp add: blank_def)

text \<open>A string whose first and last characters are printable ASCII is already trimmed.\<close>

definition plain :: "string \<Rightarrow> bool" where
  "plain s \<longleftrightarrow> s = [] \<or> (32 < byte (hd s) \<and> byte (hd s) < 128 \<and> 32 < byte (last s) \<and> byte (last s) < 128)"

lemma spaceLen_printable: "32 < byte a \<Longrightarrow> byte a < 128 \<Longrightarrow> spaceLen (a # s) = 0"
  by (auto simp: spaceLen_def space1_def space2_def space3_def split: list.splits)

lemma spaceLenR_printable: "32 < byte a \<Longrightarrow> byte a < 128 \<Longrightarrow> spaceLenR (a # s) = 0"
  by (auto simp: spaceLenR_def space1_def space2_def space3_def split: list.splits)

lemma trimSpace_plain [simp]: "plain s \<Longrightarrow> trimSpace s = s"
proof (cases "s = []")
  case True
  then show ?thesis by simp
next
  case False
  assume "plain s"
  with False have h: "32 < byte (hd s)" "byte (hd s) < 128"
    and l: "32 < byte (last s)" "byte (last s) < 128"
    by (simp_all add: plain_def)
  have "spaceLen s = 0" using spaceLen_printable [OF h] False by (metis list.collapse)
  moreover have "spaceLenR (rev s) = 0"
    using False spaceLenR_printable [OF l] by (cases s rule: rev_cases) simp_all
  ultimately show ?thesis by (simp add: trimSpace_def stripWhile_id)
qed

text \<open>The evaluation of \<open>trimSpace\<close> on a string that starts and ends with a letter or digit.\<close>

definition alnum :: string where
  "alnum = ''ABCDEFGHIJKLMNOPQRSTUVWXYZabcdefghijklmnopqrstuvwxyz0123456789''"

lemma alnum_printable: "c \<in> set alnum \<Longrightarrow> 32 < byte c \<and> byte c < 128"
proof -
  have "list_all (\<lambda>c. 32 < byte c \<and> byte c < 128) alnum" by (simp add: alnum_def)
  then show "c \<in> set alnum \<Longrightarrow> 32 < byte c \<and> byte c < 128" by (simp only: list_all_iff)
qed

lemma trimSpace_code [code]:
  "trimSpace s = (if s = [] then [] else if hd s \<in> set alnum \<and> last s \<in> set alnum then s
     else rev (stripWhile spaceLenR (rev (stripWhile spaceLen s))))"
proof -
  have "trimSpace s = s" if "hd s \<in> set alnum" "last s \<in> set alnum"
    using alnum_printable [OF that(1)] alnum_printable [OF that(2)] by (intro trimSpace_plain) (simp add: plain_def)
  then show ?thesis by (auto simp: trimSpace_def)
qed

section \<open>Case, prefixes, substrings\<close>

definition asciiLower :: "char \<Rightarrow> char" where
  "asciiLower c = (if 65 \<le> byte c \<and> byte c \<le> 90 then char_of (byte c + 32) else c)"

definition isASCII :: "string \<Rightarrow> bool" where
  "isASCII s \<longleftrightarrow> list_all (\<lambda>c. byte c < 128) s"

definition toLower :: "(string \<Rightarrow> string) \<Rightarrow> string \<Rightarrow> string" where
  "toLower uni s = (if isASCII s then map asciiLower s else uni s)"

definition hasPrefix :: "string \<Rightarrow> string \<Rightarrow> bool" where
  "hasPrefix s p \<longleftrightarrow> take (length p) s = p"

fun contains :: "string \<Rightarrow> string \<Rightarrow> bool" where
  "contains [] sub \<longleftrightarrow> sub = []"
| "contains (c # s) sub \<longleftrightarrow> hasPrefix (c # s) sub \<or> contains s sub"

fun splitOn :: "char \<Rightarrow> string \<Rightarrow> string list" where
  "splitOn d [] = [[]]"
| "splitOn d (c # s) = (if c = d then [] # splitOn d s
     else (case splitOn d s of [] \<Rightarrow> [[c]] | p # ps \<Rightarrow> (c # p) # ps))"

lemma splitOn_nonempty: "splitOn d s \<noteq> []"
  by (cases s) (auto split: list.splits)

lemma splitOn_free: "d \<notin> set p \<Longrightarrow> splitOn d p = [p]"
  by (induction p) auto

lemma splitOn_cons: "d \<notin> set p \<Longrightarrow> splitOn d (p @ d # s) = p # splitOn d s"
  by (induction p) auto

lemma asciiLower_idem [simp]: "asciiLower (asciiLower c) = asciiLower c"
  by (auto simp: asciiLower_def)

section \<open>UTF-8\<close>

definition cont :: "nat \<Rightarrow> bool" where
  "cont b \<longleftrightarrow> 128 \<le> b \<and> b \<le> 191"

text \<open>The length of the valid encoding a string starts with; \<open>None\<close> for an invalid one,
  which Go decodes as a replacement character of width 1.\<close>

definition runeLen :: "string \<Rightarrow> nat option" where
  "runeLen s = (let b = map byte (take 4 s); a = b ! 0; n = length b in
     if n = 0 then None
     else if a < 128 then Some 1
     else if 194 \<le> a \<and> a \<le> 223 then (if 2 \<le> n \<and> cont (b ! 1) then Some 2 else None)
     else if 224 \<le> a \<and> a \<le> 239 then
       (if 3 \<le> n \<and> cont (b ! 1) \<and> cont (b ! 2) \<and> (a = 224 \<longrightarrow> 160 \<le> b ! 1) \<and> (a = 237 \<longrightarrow> b ! 1 \<le> 159)
        then Some 3 else None)
     else if 240 \<le> a \<and> a \<le> 244 then
       (if 4 \<le> n \<and> cont (b ! 1) \<and> cont (b ! 2) \<and> cont (b ! 3)
          \<and> (a = 240 \<longrightarrow> 144 \<le> b ! 1) \<and> (a = 244 \<longrightarrow> b ! 1 \<le> 143)
        then Some 4 else None)
     else None)"

function runeCount :: "string \<Rightarrow> nat" where
  "runeCount s = (if s = [] then 0
     else Suc (runeCount (case runeLen s of None \<Rightarrow> tl s | Some n \<Rightarrow> drop (max 1 n) s)))"
  by pat_completeness auto
termination by (relation "measure length") (auto split: option.splits)

function validUTF8 :: "string \<Rightarrow> bool" where
  "validUTF8 s = (if s = [] then True
     else case runeLen s of None \<Rightarrow> False | Some n \<Rightarrow> validUTF8 (drop (max 1 n) s))"
  by pat_completeness auto
termination by (relation "measure length") auto

text \<open>What a string is after \<open>json.Marshal\<close> and \<open>json.Unmarshal\<close>: every invalid byte has become the
  encoding of the replacement character.\<close>

function jsonText :: "string \<Rightarrow> string" where
  "jsonText s = (if s = [] then []
     else case runeLen s of None \<Rightarrow> map (char_of :: nat \<Rightarrow> char) [239, 191, 189] @ jsonText (tl s)
          | Some n \<Rightarrow> take (max 1 n) s @ jsonText (drop (max 1 n) s))"
  by pat_completeness auto
termination by (relation "measure length") auto

declare runeCount.simps [simp del] validUTF8.simps [simp del] jsonText.simps [simp del]

lemma jsonText_valid: "validUTF8 s \<Longrightarrow> jsonText s = s"
proof (induction s rule: validUTF8.induct)
  case (1 s)
  show ?case
  proof (cases "s = []")
    case True
    then show ?thesis by (simp add: jsonText.simps)
  next
    case False
    with "1.prems" obtain n where n: "runeLen s = Some n" "validUTF8 (drop (max 1 n) s)"
      by (subst (asm) validUTF8.simps) (simp split: option.splits)
    from "1.IH" [OF False n] have "jsonText (drop (max 1 n) s) = drop (max 1 n) s" .
    then show ?thesis using False n(1) by (subst jsonText.simps) simp
  qed
qed

lemma runeCount_le_length: "runeCount s \<le> length s"
proof (induction s rule: runeCount.induct)
  case (1 s)
  show ?case
  proof (cases "s = []")
    case True
    then show ?thesis by (simp add: runeCount.simps)
  next
    case False
    let ?r = "case runeLen s of None \<Rightarrow> tl s | Some n \<Rightarrow> drop (max 1 n) s"
    have "length ?r < length s" using False by (auto split: option.splits)
    with "1" False show ?thesis by (simp add: runeCount.simps [of s])
  qed
qed

lemma runeLen_ascii: "byte c < 128 \<Longrightarrow> runeLen (c # s) = Some 1"
  by (simp add: runeLen_def Let_def)

lemma isASCII_Cons [simp]: "isASCII (c # s) \<longleftrightarrow> byte c < 128 \<and> isASCII s"
  by (simp add: isASCII_def)

lemma isASCII_Nil [simp]: "isASCII []"
  by (simp add: isASCII_def)

lemma runeCount_ascii: "isASCII s \<Longrightarrow> runeCount s = length s"
  by (induction s) (simp_all add: runeCount.simps runeLen_ascii)

lemma validUTF8_ascii: "isASCII s \<Longrightarrow> validUTF8 s"
  by (induction s) (simp_all add: validUTF8.simps runeLen_ascii)

end
