(* ===== verification/Go_Dates.thy ===== *)
theory Go_Dates
  imports Go_Strings
begin

text \<open>
  Decimal numbers and calendar dates: \<open>strconv\<close>'s unsigned decimal printing and
  reading, and \<open>time.Parse\<close>, \<open>Time.Format\<close> at the layout \<open>2006-01-02\<close>, the
  only one the program parses. A \<open>*time.Time\<close> that holds a date is an optional
  \<open>date\<close> (midnight UTC). A point in time is a number of nanoseconds.
\<close>

section \<open>Decimal numbers\<close>

definition digit :: "nat \<Rightarrow> char" where
  "digit n = char_of (48 + n)"

definition isDigit :: "char \<Rightarrow> bool" where
  "isDigit c \<longleftrightarrow> 48 \<le> byte c \<and> byte c \<le> 57"

definition digitVal :: "char \<Rightarrow> nat" where
  "digitVal c = byte c - 48"

fun itoa :: "nat \<Rightarrow> string" where
  "itoa n = (if n < 10 then [digit n] else itoa (n div 10) @ [digit (n mod 10)])"

declare itoa.simps [simp del]

definition decVal :: "string \<Rightarrow> nat" where
  "decVal s = foldl (\<lambda>acc c. 10 * acc + digitVal c) 0 s"

lemma byte_digit [simp]: "n < 10 \<Longrightarrow> byte (digit n) = 48 + n"
  by (simp add: digit_def)

lemma isDigit_digit [simp]: "n < 10 \<Longrightarrow> isDigit (digit n)"
  by (simp add: isDigit_def)

lemma digitVal_digit [simp]: "n < 10 \<Longrightarrow> digitVal (digit n) = n"
  by (simp add: digitVal_def)

lemma itoa_digits: "list_all isDigit (itoa n)"
  by (induction n rule: itoa.induct) (simp add: itoa.simps)

lemma itoa_nonempty [simp]: "itoa n \<noteq> []"
  by (subst itoa.simps) simp

lemma decVal_itoa [simp]: "decVal (itoa n) = n"
proof (induction n rule: itoa.induct)
  case (1 n)
  then show ?case by (cases "n < 10") (simp_all add: decVal_def itoa.simps [of n])
qed

lemma isDigit_not: "isDigit c \<Longrightarrow> c \<noteq> CHR ''$''" "isDigit c \<Longrightarrow> c \<noteq> CHR '',''" "isDigit c \<Longrightarrow> c \<noteq> CHR ''-''"
  by (auto simp: isDigit_def)

section \<open>Dates\<close>

record date =
  d_year :: nat
  d_month :: nat
  d_day :: nat

type_synonym time = int
type_synonym duration = int

definition isLeap :: "nat \<Rightarrow> bool" where
  "isLeap y \<longleftrightarrow> y mod 4 = 0 \<and> (y mod 100 \<noteq> 0 \<or> y mod 400 = 0)"

definition daysIn :: "nat \<Rightarrow> nat \<Rightarrow> nat" where
  "daysIn y m = (if m = 2 then if isLeap y then 29 else 28
     else if m \<in> {4, 6, 9, 11} then 30 else 31)"

definition valid_date :: "date \<Rightarrow> bool" where
  "valid_date d \<longleftrightarrow> d_year d < 10000 \<and> 1 \<le> d_month d \<and> d_month d \<le> 12
     \<and> 1 \<le> d_day d \<and> d_day d \<le> daysIn (d_year d) (d_month d)"

text \<open>\<open>Time.IsZero\<close> on a date: January 1 of year 1.\<close>

definition date_is_zero :: "date \<Rightarrow> bool" where
  "date_is_zero d \<longleftrightarrow> d = \<lparr>d_year = 1, d_month = 1, d_day = 1\<rparr>"

definition pad2 :: "nat \<Rightarrow> string" where
  "pad2 n = [digit (n div 10 mod 10), digit (n mod 10)]"

definition pad4 :: "nat \<Rightarrow> string" where
  "pad4 n = [digit (n div 1000 mod 10), digit (n div 100 mod 10), digit (n div 10 mod 10), digit (n mod 10)]"

definition format_date :: "date \<Rightarrow> string" where
  "format_date d = (if d_year d < 10000 then pad4 (d_year d) else itoa (d_year d))
     @ CHR ''-'' # pad2 (d_month d) @ CHR ''-'' # pad2 (d_day d)"

definition parse_date :: "string \<Rightarrow> date option" where
  "parse_date s =
     (if length s = 10 \<and> list_all isDigit (take 4 s) \<and> s ! 4 = CHR ''-''
         \<and> list_all isDigit (take 2 (drop 5 s)) \<and> s ! 7 = CHR ''-'' \<and> list_all isDigit (drop 8 s)
      then let d = \<lparr>d_year = decVal (take 4 s), d_month = decVal (take 2 (drop 5 s)),
                    d_day = decVal (drop 8 s)\<rparr>
           in if valid_date d then Some d else None
      else None)"

lemma decVal_pad2: "n < 100 \<Longrightarrow> decVal (pad2 n) = n"
  by (simp add: decVal_def pad2_def)

lemma decVal_pad4: "n < 10000 \<Longrightarrow> decVal (pad4 n) = n"
proof -
  assume n: "n < 10000"
  define a b where "a = n div 10" and "b = a div 10"
  have d: "n div 100 = b" "n div 1000 = b div 10"
    using div_mult2_eq [of n 10 10] div_mult2_eq [of n 100 10] by (simp_all add: a_def b_def)
  have "b div 10 mod 10 = b div 10" using n d(2) by simp
  then have "decVal (pad4 n) = 10 * (10 * (10 * (b div 10) + b mod 10) + a mod 10) + n mod 10"
    by (simp add: decVal_def pad4_def d a_def [symmetric])
  then show ?thesis by (simp add: a_def b_def)
qed

lemma daysIn_le: "daysIn y m \<le> 31"
  by (simp add: daysIn_def)

lemma parse_format_date: "valid_date d \<Longrightarrow> parse_date (format_date d) = Some d"
proof -
  assume v: "valid_date d"
  then have y: "d_year d < 10000" and m: "d_month d < 100" and n: "d_day d < 100"
    using daysIn_le [of "d_year d" "d_month d"] by (auto simp: valid_date_def)
  have s: "format_date d = pad4 (d_year d) @ CHR ''-'' # pad2 (d_month d) @ CHR ''-'' # pad2 (d_day d)"
    using y by (simp add: format_date_def)
  have len: "length (pad4 a) = 4" "length (pad2 b) = 2" for a b by (simp_all add: pad4_def pad2_def)
  have dig: "list_all isDigit (pad4 a)" "list_all isDigit (pad2 b)" for a b
    by (simp_all add: pad4_def pad2_def)
  have t: "take 4 (format_date d) = pad4 (d_year d)" "take 2 (drop 5 (format_date d)) = pad2 (d_month d)"
    "drop 8 (format_date d) = pad2 (d_day d)" "length (format_date d) = 10"
    "format_date d ! 4 = CHR ''-''" "format_date d ! 7 = CHR ''-''"
    by (simp_all add: s len nth_append)
  have "\<lparr>d_year = d_year d, d_month = d_month d, d_day = d_day d\<rparr> = d" by simp
  then show ?thesis
    using v by (simp only: parse_date_def Let_def t dig decVal_pad4 [OF y] decVal_pad2 [OF m] decVal_pad2 [OF n]) simp
qed

lemma parse_date_valid: "parse_date s = Some d \<Longrightarrow> valid_date d"
  by (auto simp: parse_date_def Let_def split: if_splits)

lemma plain_format_date: "valid_date d \<Longrightarrow> plain (format_date d)"
proof -
  assume "valid_date d"
  then have "format_date d = pad4 (d_year d) @ CHR ''-'' # pad2 (d_month d) @ CHR ''-'' # pad2 (d_day d)"
    by (simp add: format_date_def valid_date_def)
  moreover have "a mod 10 < 80" for a :: nat
    using pos_mod_bound [of 10 "int a"] by presburger
  ultimately show ?thesis by (simp add: plain_def pad4_def pad2_def)
qed

lemma format_date_nonempty [simp]: "format_date d \<noteq> []"
  by (simp add: format_date_def)

end
