(* ===== verification/Float64.thy ===== *)
theory Float64
  imports Core_Prelude Complex_Main "HOL-Library.Log_Nat"
begin

text \<open>
  Go's \<open>float64\<close>: IEEE 754 binary64 with round to nearest, ties to even. A value is
  a not-a-number, an infinity or a rational; the two zeros are one value, since no modelled
  code divides by a zero. Each arithmetic operation is the exact rational result rounded by
  \<open>rnd64\<close>. The lemmas give what the callers need of rounding: it is monotone
  (\<open>fl_mono\<close>) and exact on integers up to \<open>2 ^ 53\<close> (\<open>fl_int\<close>).
\<close>

datatype float64 = NaN | PInf | NInf | Fin rat

definition ilog2 :: "rat \<Rightarrow> int" where
  "ilog2 x = (if 1 \<le> x then bitlen \<lfloor>x\<rfloor> - 1 else - bitlen (\<lceil>1 / x\<rceil> - 1))"

definition ulp :: "rat \<Rightarrow> rat" where
  "ulp x = 2 powi (if x = 0 then - 1074 else max (ilog2 \<bar>x\<bar> - 52) (- 1074))"

definition rne :: "rat \<Rightarrow> int" where
  "rne x = (let n = \<lfloor>x\<rfloor>; d = x - of_int n
     in if d < 1 / 2 then n else if 1 / 2 < d then n + 1 else if even n then n else n + 1)"

definition fl :: "rat \<Rightarrow> rat" where
  "fl x = of_int (rne (x / ulp x)) * ulp x"

definition rnd64 :: "rat \<Rightarrow> float64" where
  "rnd64 x = (let y = fl x
     in if 2 ^ 1024 \<le> y then PInf else if y \<le> - (2 ^ 1024) then NInf else Fin y)"

fun fneg :: "float64 \<Rightarrow> float64" where
  "fneg NaN = NaN"
| "fneg PInf = NInf"
| "fneg NInf = PInf"
| "fneg (Fin x) = Fin (- x)"

fun fadd :: "float64 \<Rightarrow> float64 \<Rightarrow> float64" where
  "fadd (Fin x) (Fin y) = rnd64 (x + y)"
| "fadd NaN _ = NaN"
| "fadd _ NaN = NaN"
| "fadd PInf NInf = NaN"
| "fadd NInf PInf = NaN"
| "fadd PInf _ = PInf"
| "fadd _ PInf = PInf"
| "fadd NInf _ = NInf"
| "fadd _ NInf = NInf"

definition fsub :: "float64 \<Rightarrow> float64 \<Rightarrow> float64" where
  "fsub x y = fadd x (fneg y)"

definition finf :: "rat \<Rightarrow> float64" where
  "finf x = (if x = 0 then NaN else if 0 < x then PInf else NInf)"

fun fmul :: "float64 \<Rightarrow> float64 \<Rightarrow> float64" where
  "fmul (Fin x) (Fin y) = rnd64 (x * y)"
| "fmul NaN _ = NaN"
| "fmul _ NaN = NaN"
| "fmul PInf (Fin y) = finf y"
| "fmul NInf (Fin y) = finf (- y)"
| "fmul (Fin x) PInf = finf x"
| "fmul (Fin x) NInf = finf (- x)"
| "fmul PInf PInf = PInf"
| "fmul NInf NInf = PInf"
| "fmul _ _ = NInf"

fun fdiv :: "float64 \<Rightarrow> float64 \<Rightarrow> float64" where
  "fdiv (Fin x) (Fin y) = (if y = 0 then finf x else rnd64 (x / y))"
| "fdiv NaN _ = NaN"
| "fdiv _ NaN = NaN"
| "fdiv PInf (Fin y) = (if 0 \<le> y then PInf else NInf)"
| "fdiv NInf (Fin y) = (if 0 \<le> y then NInf else PInf)"
| "fdiv (Fin _) _ = Fin 0"
| "fdiv _ _ = NaN"

definition fofint :: "int \<Rightarrow> float64" where
  "fofint n = rnd64 (of_int n)"

text \<open>Comparisons with a \<open>NaN\<close> are false.\<close>

fun fless :: "float64 \<Rightarrow> float64 \<Rightarrow> bool" where
  "fless (Fin x) (Fin y) \<longleftrightarrow> x < y"
| "fless NInf (Fin _) \<longleftrightarrow> True"
| "fless NInf PInf \<longleftrightarrow> True"
| "fless (Fin _) PInf \<longleftrightarrow> True"
| "fless _ _ \<longleftrightarrow> False"

definition fle :: "float64 \<Rightarrow> float64 \<Rightarrow> bool" where
  "fle x y \<longleftrightarrow> fless x y \<or> (x = y \<and> x \<noteq> NaN)"

section \<open>The binary exponent\<close>

lemma bitlen_pos_bounds:
  assumes "0 < n"
  shows "(2::rat) powi (bitlen n - 1) \<le> of_int n" and "of_int n < (2::rat) powi bitlen n"
    and "1 \<le> bitlen n"
proof -
  have b: "2 ^ nat (bitlen n - 1) \<le> n \<and> n < 2 ^ nat (bitlen n)"
    using assms by (rule bitlen_bounds)
  show 1: "1 \<le> bitlen n" using assms bitlen_nonneg [of n] bitlen_eq_zero_iff [of n] by linarith
  from b have "of_int (2 ^ nat (bitlen n - 1)) \<le> (of_int n :: rat)"
    by (simp only: of_int_le_iff)
  with 1 show "(2::rat) powi (bitlen n - 1) \<le> of_int n"
    by (simp add: power_int_def)
  from b have "(of_int n :: rat) < of_int (2 ^ nat (bitlen n))"
    by (simp only: of_int_less_iff)
  with 1 show "of_int n < (2::rat) powi bitlen n"
    by (simp add: power_int_def)
qed

lemma ilog2_bounds:
  assumes "0 < x"
  shows "2 powi ilog2 x \<le> x" and "x < 2 powi (ilog2 x + 1)"
proof -
  have "2 powi ilog2 x \<le> x \<and> x < 2 powi (ilog2 x + 1)"
  proof (cases "1 \<le> x")
    case True
    then have n: "0 < \<lfloor>x\<rfloor>" by simp
    have "of_int \<lfloor>x\<rfloor> \<le> x" by simp
    with bitlen_pos_bounds(1) [OF n] have l: "2 powi (bitlen \<lfloor>x\<rfloor> - 1) \<le> x" by linarith
    have k: "1 \<le> bitlen \<lfloor>x\<rfloor>" using n by (rule bitlen_pos_bounds)
    have "\<lfloor>x\<rfloor> < 2 ^ nat (bitlen \<lfloor>x\<rfloor>)" using bitlen_bounds [OF n] by simp
    then have "\<lfloor>x\<rfloor> + 1 \<le> 2 ^ nat (bitlen \<lfloor>x\<rfloor>)" by simp
    then have "(of_int (\<lfloor>x\<rfloor> + 1) :: rat) \<le> of_int (2 ^ nat (bitlen \<lfloor>x\<rfloor>))"
      by (simp only: of_int_le_iff)
    moreover have "x < of_int (\<lfloor>x\<rfloor> + 1)" by linarith
    ultimately have "x < 2 powi bitlen \<lfloor>x\<rfloor>" using k by (simp add: power_int_def)
    with l True show ?thesis by (simp add: ilog2_def)
  next
    case False
    define m where "m = \<lceil>1 / x\<rceil> - 1"
    from False assms have "1 < 1 / x" by simp
    then have m: "0 < m" by (simp add: m_def less_ceiling_iff)
    have "1 / x \<le> of_int (m + 1)" by (simp add: m_def le_of_int_ceiling)
    moreover have "(of_int (m + 1) :: rat) \<le> of_int (2 ^ nat (bitlen m))"
      using bitlen_bounds [OF m] by (simp only: of_int_le_iff) linarith
    ultimately have "1 / x \<le> 2 powi bitlen m"
      using bitlen_pos_bounds(3) [OF m] by (simp add: power_int_def)
    then have l: "2 powi (- bitlen m) \<le> x"
      using assms by (simp add: power_int_minus field_simps)
    have "of_int m < 1 / x" unfolding m_def by linarith
    with bitlen_pos_bounds(1) [OF m] have "2 powi (bitlen m - 1) < 1 / x" by linarith
    then have "x < inverse (2 powi (bitlen m - 1))"
      using assms by (simp add: field_simps)
    then have "x < 2 powi (- bitlen m + 1)"
      by (simp add: power_int_minus [symmetric])
    with l False show ?thesis by (simp add: ilog2_def m_def)
  qed
  then show "2 powi ilog2 x \<le> x" and "x < 2 powi (ilog2 x + 1)" by simp_all
qed

lemma powi2_mono: "j \<le> k \<Longrightarrow> (2::rat) powi j \<le> 2 powi k"
  by (simp add: power_int_increasing)

lemma powi2_strict: "(2::rat) powi j < 2 powi k \<longleftrightarrow> j < k"
  by (metis linorder_not_less one_less_numeral_iff order.strict_iff_not power_int_strict_increasing
      powi2_mono semiring_norm(76))

lemma ilog2_mono: "0 < x \<Longrightarrow> x \<le> y \<Longrightarrow> ilog2 x \<le> ilog2 y"
proof -
  assume x: "0 < x" and xy: "x \<le> y"
  have "(2::rat) powi ilog2 x < 2 powi (ilog2 y + 1)"
    using ilog2_bounds(1) [OF x] ilog2_bounds(2) [of y] x xy by linarith
  then show ?thesis by (simp add: powi2_strict)
qed

lemma ulp_pos [simp]: "0 < ulp x"
  by (simp add: ulp_def)

section \<open>Rounding\<close>

lemma rne_int [simp]: "rne (of_int n) = n"
  by (simp add: rne_def)

lemma rne_bounds: "rne x = \<lfloor>x\<rfloor> \<or> rne x = \<lfloor>x\<rfloor> + 1"
  by (simp add: rne_def Let_def)

lemma rne_mono: "x \<le> y \<Longrightarrow> rne x \<le> rne y"
proof (cases "\<lfloor>x\<rfloor> = \<lfloor>y\<rfloor>")
  case True
  moreover assume "x \<le> y"
  ultimately show ?thesis by (simp add: rne_def Let_def)
next
  case False
  assume "x \<le> y"
  then have "\<lfloor>x\<rfloor> \<le> \<lfloor>y\<rfloor>" by (rule floor_mono)
  with False have "\<lfloor>x\<rfloor> + 1 \<le> \<lfloor>y\<rfloor>" by simp
  with rne_bounds [of x] rne_bounds [of y] show ?thesis by linarith
qed

lemma rne_minus: "rne (- x) = - rne x"
proof -
  define n d where "n = \<lfloor>x\<rfloor>" and "d = x - of_int n"
  have d: "0 \<le> d" "d < 1" by (simp_all add: d_def n_def) linarith
  have x: "x = of_int n + d" by (simp add: d_def)
  show ?thesis
  proof (cases "d = 0")
    case True
    then show ?thesis using rne_int [of n] rne_int [of "- n"] by (simp add: x)
  next
    case False
    with d have "\<lfloor>- x\<rfloor> = - n - 1" by (simp add: floor_unique x)
    moreover have "- x - of_int (- n - 1) = 1 - d" by (simp add: x)
    ultimately have "rne (- x) = (if 1 - d < 1 / 2 then - n - 1 else if 1 / 2 < 1 - d then - n
        else if even (- n - 1) then - n - 1 else - n)"
      by (simp only: rne_def Let_def) simp
    moreover have "rne x = (if d < 1 / 2 then n else if 1 / 2 < d then n + 1
        else if even n then n else n + 1)"
      by (simp only: rne_def Let_def n_def [symmetric] d_def [symmetric])
    ultimately show ?thesis by auto
  qed
qed

lemma fl_minus: "fl (- x) = - fl x"
  by (simp add: fl_def ulp_def rne_minus)

lemma fl_0 [simp]: "fl 0 = 0"
  using rne_int [of 0] by (simp add: fl_def)

lemma fl_le_grid: "x \<le> of_int m * ulp x \<Longrightarrow> fl x \<le> of_int m * ulp x"
proof -
  assume "x \<le> of_int m * ulp x"
  then have "x / ulp x \<le> of_int m" by (simp add: pos_divide_le_eq)
  from rne_mono [OF this] have "rne (x / ulp x) \<le> m" by simp
  then show ?thesis by (simp add: fl_def)
qed

lemma fl_ge_grid: "of_int m * ulp x \<le> x \<Longrightarrow> of_int m * ulp x \<le> fl x"
proof -
  assume "of_int m * ulp x \<le> x"
  then have "of_int m \<le> x / ulp x" by (simp add: pos_le_divide_eq)
  from rne_mono [OF this] have "m \<le> rne (x / ulp x)" by simp
  then show ?thesis by (simp add: fl_def)
qed

text \<open>A power of two at or above the unit in the last place is a multiple of it.\<close>

lemma powi2_grid:
  assumes "k \<le> j"
  obtains m :: int where "(2::rat) powi j = of_int m * 2 powi k"
proof
  show "(2::rat) powi j = of_int (2 ^ nat (j - k)) * 2 powi k"
    using assms by (simp add: power_int_add [symmetric] power_int_def [of 2 "j - k", symmetric]
        flip: power_int_of_nat)
qed

lemma fl_mono_pos:
  assumes x: "0 < x" and xy: "x \<le> y"
  shows "fl x \<le> fl y"
proof -
  define ex ey where "ex = max (ilog2 x - 52) (- 1074)" and "ey = max (ilog2 y - 52) (- 1074)"
  have ux: "ulp x = 2 powi ex" and uy: "ulp y = 2 powi ey"
    using x xy by (simp_all add: ulp_def ex_def ey_def)
  have "ilog2 x \<le> ilog2 y" using x xy by (rule ilog2_mono)
  then consider (same) "ex = ey" | (apart) "ex < ey" "ilog2 x < ilog2 y"
    unfolding ex_def ey_def by linarith
  then show ?thesis
  proof cases
    case same
    have "x / ulp x \<le> y / ulp y" using same xy by (simp add: ux uy divide_right_mono)
    from rne_mono [OF this] show ?thesis using same by (simp add: fl_def ux uy)
  next
    case apart
    have kx: "ex \<le> ilog2 y" and ky: "ey \<le> ilog2 y" using apart by (auto simp: ex_def ey_def)
    obtain m where m: "(2::rat) powi ilog2 y = of_int m * ulp x"
      using powi2_grid [OF kx] unfolding ux by blast
    obtain n where n: "(2::rat) powi ilog2 y = of_int n * ulp y"
      using powi2_grid [OF ky] unfolding uy by blast
    have "(2::rat) powi (ilog2 x + 1) \<le> 2 powi ilog2 y"
      using apart by (intro powi2_mono) simp
    then have "x \<le> of_int m * ulp x" using ilog2_bounds(2) [OF x] m by linarith
    then have "fl x \<le> 2 powi ilog2 y" using m by (simp add: fl_le_grid)
    moreover have "of_int n * ulp y \<le> y" using ilog2_bounds(1) [of y] x xy n by linarith
    then have "2 powi ilog2 y \<le> fl y" using n by (simp add: fl_ge_grid)
    ultimately show ?thesis by linarith
  qed
qed

lemma fl_nonneg: "0 \<le> x \<Longrightarrow> 0 \<le> fl x"
  using fl_ge_grid [of 0 x] by simp

lemma fl_mono: "x \<le> y \<Longrightarrow> fl x \<le> fl y"
proof -
  assume xy: "x \<le> y"
  consider "0 < x" | "x \<le> 0" "0 \<le> y" | "y < 0" by linarith
  then show ?thesis
  proof cases
    case 1
    then show ?thesis using xy by (rule fl_mono_pos)
  next
    case 2
    have "0 \<le> fl (- x)" using 2 by (simp add: fl_nonneg)
    then show ?thesis using 2 fl_nonneg [of y] by (simp add: fl_minus)
  next
    case 3
    then have "fl (- y) \<le> fl (- x)" using xy by (intro fl_mono_pos) simp_all
    then show ?thesis by (simp add: fl_minus)
  qed
qed

section \<open>Integers are exact\<close>

lemma fl_nat_exact:
  assumes "0 < n" and "n < 2 ^ 53"
  shows "fl (of_int n) = of_int n"
proof -
  let ?x = "of_int n :: rat"
  have x: "0 < ?x" using assms by simp
  have "(of_int n :: rat) < of_int (2 ^ 53)" using assms(2) by (simp only: of_int_less_iff)
  then have "?x < 2 powi 53" by (simp add: power_int_def)
  with ilog2_bounds(1) [OF x] have "(2::rat) powi ilog2 ?x < 2 powi 53" by linarith
  then have "ilog2 ?x < 53" by (simp only: powi2_strict)
  then have "max (ilog2 ?x - 52) (- 1074) \<le> 0" by simp
  then obtain m where "(2::rat) powi 0 = of_int m * 2 powi (max (ilog2 ?x - 52) (- 1074))"
    by (rule powi2_grid)
  moreover have u: "ulp ?x = 2 powi (max (ilog2 ?x - 52) (- 1074))" using x by (simp add: ulp_def)
  ultimately have m: "1 = of_int m * ulp ?x" by simp
  then have "?x / ulp ?x = of_int (n * m)"
    by (metis mult.assoc mult.right_neutral nonzero_mult_div_cancel_right of_int_mult
        order_less_irrefl ulp_pos)
  then have "fl ?x = of_int (n * m) * ulp ?x" by (simp only: fl_def rne_int)
  also have "\<dots> = ?x * (of_int m * ulp ?x)" by (simp add: mult.assoc)
  also have "\<dots> = ?x" by (simp add: m [symmetric])
  finally show ?thesis .
qed

lemma fl_int: "\<bar>n\<bar> < 2 ^ 53 \<Longrightarrow> fl (of_int n) = of_int n"
proof -
  assume a: "\<bar>n\<bar> < 2 ^ 53"
  consider "0 < n" | "n = 0" | "0 < - n" by linarith
  then show ?thesis
  proof cases
    case 1
    then show ?thesis using a by (intro fl_nat_exact) simp_all
  next
    case 2
    then show ?thesis by simp
  next
    case 3
    then have "fl (of_int (- n)) = of_int (- n)" using a by (intro fl_nat_exact) simp_all
    then show ?thesis by (simp add: fl_minus)
  qed
qed

lemma fl_between:
  assumes "of_int a \<le> x" and "x \<le> of_int b" and "\<bar>a\<bar> < 2 ^ 53" and "\<bar>b\<bar> < 2 ^ 53"
  shows "of_int a \<le> fl x" and "fl x \<le> of_int b"
  using fl_mono [OF assms(1)] fl_mono [OF assms(2)] fl_int [OF assms(3)] fl_int [OF assms(4)]
  by linarith+

lemma rnd64_between:
  assumes "of_int a \<le> x" and "x \<le> of_int b" and "\<bar>a\<bar> < 2 ^ 53" and "\<bar>b\<bar> < 2 ^ 53"
  shows "rnd64 x = Fin (fl x)"
proof -
  have p: "(2::rat) ^ 53 < 2 ^ 1024" by (rule power_strict_increasing) simp_all
  have "(of_int b :: rat) < of_int (2 ^ 53)" using assms(4) by (simp only: of_int_less_iff abs_less_iff)
  then have "fl x < 2 ^ 1024" using fl_between(2) [OF assms] p by simp
  moreover have "(of_int (- (2 ^ 53)) :: rat) < of_int a"
    using assms(3) by (simp only: of_int_less_iff abs_less_iff) linarith
  then have "- (2 ^ 1024) < fl x" using fl_between(1) [OF assms] p by simp
  ultimately show ?thesis by (simp add: rnd64_def Let_def)
qed

lemma rnd64_int: "\<bar>n\<bar> < 2 ^ 53 \<Longrightarrow> rnd64 (of_int n) = Fin (of_int n)"
  using rnd64_between [of n "of_int n" n] by (simp add: fl_int)

lemma fofint_exact [simp]: "\<bar>n\<bar> < 2 ^ 53 \<Longrightarrow> fofint n = Fin (of_int n)"
  by (simp add: fofint_def rnd64_int)

lemma fadd_int:
  "\<bar>m + n\<bar> < 2 ^ 53 \<Longrightarrow> fadd (Fin (of_int m)) (Fin (of_int n)) = Fin (of_int (m + n))"
  using rnd64_int [of "m + n"] by simp

lemma fmul_int:
  "\<bar>m * n\<bar> < 2 ^ 53 \<Longrightarrow> fmul (Fin (of_int m)) (Fin (of_int n)) = Fin (of_int (m * n))"
  using rnd64_int [of "m * n"] by simp

section \<open>Conversion to an integer\<close>

text \<open>\<open>math.Round\<close> rounds half away from zero. The conversion \<open>int64(f)\<close> of a value
  out of range (a \<open>NaN\<close> and the infinities included) depends on the platform in Go: it
  is the parameter \<open>conv\<close> of the definition.\<close>

definition round_away :: "rat \<Rightarrow> int" where
  "round_away x = (if 0 \<le> x then \<lfloor>x + 1 / 2\<rfloor> else - \<lfloor>- x + 1 / 2\<rfloor>)"

definition int64_of_round :: "(float64 \<Rightarrow> int64) \<Rightarrow> float64 \<Rightarrow> int64" where
  "int64_of_round conv f =
     (case f of Fin x \<Rightarrow> if in64 (round_away x) then round_away x else conv f | _ \<Rightarrow> conv f)"

lemma round_away_nonneg: "0 \<le> x \<Longrightarrow> 0 \<le> round_away x"
  by (simp add: round_away_def)

lemma round_away_near: "\<bar>of_int (round_away x) - x\<bar> \<le> 1 / 2"
proof (cases "0 \<le> x")
  case True
  have "of_int \<lfloor>x + 1 / 2\<rfloor> \<le> x + 1 / 2" "x + 1 / 2 < of_int \<lfloor>x + 1 / 2\<rfloor> + 1"
    by linarith+
  then have "\<bar>of_int \<lfloor>x + 1 / 2\<rfloor> - x\<bar> \<le> 1 / 2" by linarith
  with True show ?thesis by (simp only: round_away_def if_True)
next
  case False
  have "of_int \<lfloor>- x + 1 / 2\<rfloor> \<le> - x + 1 / 2" "- x + 1 / 2 < of_int \<lfloor>- x + 1 / 2\<rfloor> + 1"
    by linarith+
  then have "\<bar>of_int (- \<lfloor>- x + 1 / 2\<rfloor>) - x\<bar> \<le> 1 / 2" unfolding of_int_minus by linarith
  with False show ?thesis by (simp only: round_away_def if_False)
qed

end
