(* ===== verification/Domain_Model.thy ===== *)
theory Domain_Model
  imports Go_Dates Float64
begin

text \<open>
  The data model of \<open>internal/domain\<close> and the application errors of
  \<open>internal/platform/apperror\<close>. Every Go struct is a record with the same fields (a
  prefix keeps the field names apart), every pointer an option. Go's enumerations are string
  types whose constants do not exhaust them, so they are strings here too; \<open>DisabledAt\<close>
  and the other instants are numbers of nanoseconds, dates are \<open>date\<close> values.
\<close>

section \<open>Errors\<close>

text \<open>Errors of the database driver: no row, a server error with its SQLSTATE code and message,
  the end of the request's context, and any other failure.\<close>

datatype ctx_error = Canceled | DeadlineExceeded

datatype db_error = ErrNoRows | PgError string string | DbCtx ctx_error | DbOther string

datatype go_error =
    ErrUnauthenticated
  | ErrForbidden
  | ErrNotFound
  | ErrConflict
  | ErrInvalidArgument
  | ErrDisabledUser
  | ErrPasswordChangeRequired
  | LimitError duration
  | CtxError ctx_error
  | DbError db_error
  | OtherError string

section \<open>Users and families\<close>

type_synonym ID = string
type_synonym UserRole = string
type_synonym FamilyType = string
type_synonym FamilyRole = string
type_synonym EmploymentStatus = string
type_synonym HousingType = string
type_synonym LoanType = string
type_synonym AffordabilityRating = string

abbreviation UserRoleAdmin :: UserRole where "UserRoleAdmin \<equiv> ''admin''"
abbreviation UserRoleUser :: UserRole where "UserRoleUser \<equiv> ''user''"

record User =
  us_ID :: ID
  us_Email :: string
  us_DisplayName :: string
  us_Role :: UserRole
  us_PasswordHash :: string
  us_MustChangePassword :: bool
  us_DisabledAt :: "time option"
  us_CreatedAt :: time
  us_UpdatedAt :: time

abbreviation FamilyTypeSingle :: FamilyType where "FamilyTypeSingle \<equiv> ''single''"
abbreviation FamilyTypeCouple :: FamilyType where "FamilyTypeCouple \<equiv> ''couple''"
abbreviation FamilyTypeFamily :: FamilyType where "FamilyTypeFamily \<equiv> ''family''"
abbreviation FamilyTypeSharedHousehold :: FamilyType where "FamilyTypeSharedHousehold \<equiv> ''shared_household''"

abbreviation FamilyRoleOwner :: FamilyRole where "FamilyRoleOwner \<equiv> ''owner''"
abbreviation FamilyRoleAdmin :: FamilyRole where "FamilyRoleAdmin \<equiv> ''admin''"
abbreviation FamilyRoleMember :: FamilyRole where "FamilyRoleMember \<equiv> ''member''"
abbreviation FamilyRoleViewer :: FamilyRole where "FamilyRoleViewer \<equiv> ''viewer''"

record Family =
  fa_ID :: ID
  fa_Name :: string
  fa_Type :: FamilyType
  fa_CreatedAt :: time
  fa_UpdatedAt :: time

section \<open>People\<close>

abbreviation EmploymentFullTime :: EmploymentStatus where "EmploymentFullTime \<equiv> ''full_time_employee''"
abbreviation EmploymentPartTime :: EmploymentStatus where "EmploymentPartTime \<equiv> ''part_time_employee''"
abbreviation EmploymentSelfEmployed :: EmploymentStatus where "EmploymentSelfEmployed \<equiv> ''self_employed''"
abbreviation EmploymentStudent :: EmploymentStatus where "EmploymentStudent \<equiv> ''student''"
abbreviation EmploymentFullTimeNSF :: EmploymentStatus where "EmploymentFullTimeNSF \<equiv> ''full_time_nsf''"
abbreviation EmploymentUnemployed :: EmploymentStatus where "EmploymentUnemployed \<equiv> ''unemployed''"
abbreviation EmploymentFutureEmployee :: EmploymentStatus where "EmploymentFutureEmployee \<equiv> ''future_employee''"
abbreviation EmploymentOther :: EmploymentStatus where "EmploymentOther \<equiv> ''other''"

record PersonProfile =
  pp_ID :: ID
  pp_FamilyID :: ID
  pp_LinkedUserID :: ID
  pp_Name :: string
  pp_Age :: int
  pp_RelationshipLabel :: string
  pp_EmploymentStatus :: EmploymentStatus
  pp_GrossMonthlyIncomeCents :: int64
  pp_ExpectedFutureIncomeCents :: int64
  pp_ExpectedIncomeStartDate :: "date option"
  pp_GraduationDate :: "date option"
  pp_ORDDate :: "date option"
  pp_CashSavingsCents :: int64
  pp_CPFOACents :: int64
  pp_CPFSACents :: int64
  pp_CPFMACents :: int64
  pp_MonthlyExpensesCents :: int64
  pp_CreatedAt :: time
  pp_UpdatedAt :: time

record PersonIncomeHistoryEntry =
  ih_PersonID :: ID
  ih_PersonName :: string
  ih_GrossMonthlyIncomeCents :: int64
  ih_ExpectedFutureIncomeCents :: int64
  ih_RecordedAt :: time

section \<open>Housing\<close>

abbreviation HousingTypeBTO :: HousingType where "HousingTypeBTO \<equiv> ''bto''"
abbreviation HousingTypeResaleHDB :: HousingType where "HousingTypeResaleHDB \<equiv> ''resale_hdb''"
abbreviation HousingTypeExecutive :: HousingType where "HousingTypeExecutive \<equiv> ''executive_condo''"
abbreviation HousingTypePrivate :: HousingType where "HousingTypePrivate \<equiv> ''private_condo''"
abbreviation HousingTypeLanded :: HousingType where "HousingTypeLanded \<equiv> ''landed''"
abbreviation HousingTypeOther :: HousingType where "HousingTypeOther \<equiv> ''other''"

abbreviation LoanTypeHDB :: LoanType where "LoanTypeHDB \<equiv> ''hdb''"
abbreviation LoanTypeBank :: LoanType where "LoanTypeBank \<equiv> ''bank''"
abbreviation LoanTypeCash :: LoanType where "LoanTypeCash \<equiv> ''cash''"

record HousingDIAIncomeOverride =
  dia_PersonID :: ID
  dia_ProjectedIncomeCents :: int64

record HousingEvaluationSummary =
  es_Score :: "float64 option"
  es_Total :: int32
  es_Completed :: int32
  es_NotApplicable :: int32
  es_Rated :: int32
  es_Weighted :: bool

record HousingOption =
  ho_Notes :: string
  ho_Evaluation :: "HousingEvaluationSummary option"
  ho_ID :: ID
  ho_FamilyID :: ID
  ho_GroupID :: ID
  ho_Name :: string
  ho_Type :: HousingType
  ho_Location :: string
  ho_UnitType :: string
  ho_PurchasePriceCents :: int64
  ho_GrantAmountCents :: int64
  ho_LoanType :: LoanType
  ho_LoanAmountCents :: int64
  ho_InterestRateBps :: int64
  ho_LoanTenureMonths :: int
  ho_DownpaymentPercentBps :: int64
  ho_RenovationBudgetCents :: int64
  ho_FurnitureBudgetCents :: int64
  ho_LegalFeesCents :: int64
  ho_BuyerStampDutyCents :: int64
  ho_MonthlyMaintenanceCents :: int64
  ho_VisibleOnDashboard :: bool
  ho_ExpectedKeyCollectionDate :: "date option"
  ho_DIAIncomeOverrides :: "HousingDIAIncomeOverride list"
  ho_CreatedAt :: time
  ho_UpdatedAt :: time

record HousingGroup =
  hg_ID :: ID
  hg_FamilyID :: ID
  hg_Name :: string
  hg_CreatedAt :: time
  hg_UpdatedAt :: time

abbreviation AffordabilityComfortable :: AffordabilityRating where "AffordabilityComfortable \<equiv> ''comfortable''"
abbreviation AffordabilityManageable :: AffordabilityRating where "AffordabilityManageable \<equiv> ''manageable''"
abbreviation AffordabilityTight :: AffordabilityRating where "AffordabilityTight \<equiv> ''tight''"
abbreviation AffordabilityRisky :: AffordabilityRating where "AffordabilityRisky \<equiv> ''risky''"
abbreviation AffordabilityNotRecommended :: AffordabilityRating where "AffordabilityNotRecommended \<equiv> ''not_recommended''"

record HousingCriterion =
  hc_ID :: ID
  hc_FamilyID :: ID
  hc_Name :: string
  hc_Description :: string
  hc_DisplayOrder :: int32
  hc_Weight :: "float64 option"

record HousingAnswer =
  ha_HousingID :: ID
  ha_CriterionID :: ID
  ha_State :: string
  ha_Rating :: "int32 option"
  ha_Notes :: string

end
