(* ===== verification/Auth_Limit.thy ===== *)
theory Auth_Limit
  imports Domain_Model "HOL-Library.AList"
begin

text \<open>
  \<open>internal/authlimit/limiter.go\<close>: the fixed-window limiter of authentication attempts and
  the bounded set of password slots. The Go map from key hashes to buckets is an association
  list with distinct keys, the slot channel is the number of tokens in it; the mutex of
  \<open>allow\<close> and the channel make every operation one atomic step. SHA-256 is a parameter.
  The locale \<open>window_limiter\<close> states what a client may rely on and proves the bound on
  admitted attempts from it; the limiter is its interpretation.
\<close>

section \<open>State and operations\<close>

record Config =
  cf_IPLimit :: int64
  cf_AccountLimit :: int64
  cf_Window :: duration
  cf_MaxConcurrent :: int64
  cf_MaxEntries :: int64

record bucket =
  bk_count :: int64
  bk_until :: time

record Limiter =
  li_buckets :: "(string \<times> bucket) list"
  li_nextCleanup :: time
  li_cfg :: Config
  li_slots :: nat

definition applyDefaults :: "Config \<Rightarrow> Config" where
  "applyDefaults cfg =
     (let cfg = (if cf_IPLimit cfg \<le> 0 then cfg\<lparr>cf_IPLimit := 30\<rparr> else cfg);
          cfg = (if cf_AccountLimit cfg \<le> 0 then cfg\<lparr>cf_AccountLimit := 5\<rparr> else cfg);
          cfg = (if cf_Window cfg \<le> 0 then cfg\<lparr>cf_Window := 60 * 10 ^ 9\<rparr> else cfg);
          cfg = (if cf_MaxConcurrent cfg \<le> 0 then cfg\<lparr>cf_MaxConcurrent := 2\<rparr> else cfg)
      in if cf_MaxEntries cfg \<le> 0 then cfg\<lparr>cf_MaxEntries := 20000\<rparr> else cfg)"

text \<open>The zero \<open>time.Time\<close> is the origin of the time scale.\<close>

definition New :: "Config \<Rightarrow> Limiter" where
  "New cfg = \<lparr>li_buckets = [], li_nextCleanup = 0, li_cfg = applyDefaults cfg, li_slots = 0\<rparr>"

text \<open>\<open>Time.Sub\<close> saturates at the least and the greatest \<open>Duration\<close>.\<close>

definition timeSub :: "time \<Rightarrow> time \<Rightarrow> duration" where
  "timeSub a b = max (- (2 ^ 63)) (min (2 ^ 63 - 1) (a - b))"

definition cleanup :: "Limiter \<Rightarrow> time \<Rightarrow> Limiter" where
  "cleanup l now =
     (if li_nextCleanup l \<le> now
      then l\<lparr>li_buckets := filter (\<lambda>(k, b). now < bk_until b) (li_buckets l),
             li_nextCleanup := now + cf_Window (li_cfg l)\<rparr>
      else l)"

definition allowHash :: "Limiter \<Rightarrow> string \<Rightarrow> int64 \<Rightarrow> time \<Rightarrow> duration \<times> Limiter" where
  "allowHash l0 keyHash limit now =
     (let l = cleanup l0 now;
          found = map_of (li_buckets l) keyHash;
          open = (case found of None \<Rightarrow> False | Some b \<Rightarrow> now < bk_until b)
      in if \<not> open \<and> found = None \<and> cf_MaxEntries (li_cfg l) \<le> int (length (li_buckets l))
         then (timeSub (li_nextCleanup l) now, l)
         else let b = (if open then the found else \<lparr>bk_count = 0, bk_until = now + cf_Window (li_cfg l)\<rparr>)
              in if limit \<le> bk_count b then (timeSub (bk_until b) now, l)
                 else (0, l\<lparr>li_buckets := AList.update keyHash (b\<lparr>bk_count := i64 (bk_count b + 1)\<rparr>) (li_buckets l)\<rparr>))"

definition allow :: "(string \<Rightarrow> string) \<Rightarrow> Limiter \<Rightarrow> string \<Rightarrow> int64 \<Rightarrow> time \<Rightarrow> duration \<times> Limiter" where
  "allow sha l key limit now = allowHash l (sha key) limit now"

definition ipKey :: "string \<Rightarrow> string" where
  "ipKey ip = ''ip:'' @ ip"

definition accountKey :: "(string \<Rightarrow> string) \<Rightarrow> string \<Rightarrow> string" where
  "accountKey uni account = ''account:'' @ toLower uni (trimSpace account)"

definition AllowIP :: "(string \<Rightarrow> string) \<Rightarrow> Limiter \<Rightarrow> string \<Rightarrow> time \<Rightarrow> duration \<times> Limiter" where
  "AllowIP sha l ip now = allow sha l (ipKey ip) (cf_IPLimit (li_cfg l)) now"

definition AllowAccount ::
    "(string \<Rightarrow> string) \<Rightarrow> (string \<Rightarrow> string) \<Rightarrow> Limiter \<Rightarrow> string \<Rightarrow> time \<Rightarrow> duration \<times> Limiter" where
  "AllowAccount sha uni l account now = allow sha l (accountKey uni account) (cf_AccountLimit (li_cfg l)) now"

text \<open>The send on the slot channel succeeds while the channel has room; the returned function
  receives one token.\<close>

definition Acquire :: "Limiter \<Rightarrow> ctx_error option \<Rightarrow> (go_error + unit) \<times> Limiter" where
  "Acquire l ctxErr =
     (case ctxErr of
        Some err \<Rightarrow> (Inl (CtxError err), l)
      | None \<Rightarrow> if int (li_slots l) < cf_MaxConcurrent (li_cfg l) then (Inr (), l\<lparr>li_slots := li_slots l + 1\<rparr>)
                else (Inl (LimitError (10 ^ 9)), l))"

definition releaseSlot :: "Limiter \<Rightarrow> Limiter" where
  "releaseSlot l = l\<lparr>li_slots := li_slots l - 1\<rparr>"

section \<open>Well-formed limiters\<close>

definition wf_config :: "Config \<Rightarrow> bool" where
  "wf_config cfg \<longleftrightarrow> 0 < cf_IPLimit cfg \<and> 0 < cf_AccountLimit cfg \<and> 0 < cf_Window cfg \<and> 0 < cf_MaxConcurrent cfg
     \<and> 0 < cf_MaxEntries cfg \<and> in64 (cf_IPLimit cfg) \<and> in64 (cf_AccountLimit cfg) \<and> in64 (cf_Window cfg)
     \<and> in64 (cf_MaxConcurrent cfg) \<and> in64 (cf_MaxEntries cfg)"

text \<open>\<open>now\<close> is a time at which the limiter has last been used.\<close>

definition limiter_inv :: "int64 \<Rightarrow> time \<Rightarrow> Limiter \<Rightarrow> bool" where
  "limiter_inv cap now l \<longleftrightarrow> wf_config (li_cfg l) \<and> distinct (map fst (li_buckets l))
     \<and> int (length (li_buckets l)) \<le> cf_MaxEntries (li_cfg l)
     \<and> (\<forall>(k, b) \<in> set (li_buckets l). 1 \<le> bk_count b \<and> bk_count b \<le> cap \<and> bk_until b \<le> now + cf_Window (li_cfg l))
     \<and> li_nextCleanup l \<le> now + cf_Window (li_cfg l) \<and> int (li_slots l) \<le> cf_MaxConcurrent (li_cfg l)"

lemma applyDefaults_wf:
  assumes "in64 (cf_IPLimit cfg)" "in64 (cf_AccountLimit cfg)" "in64 (cf_Window cfg)"
    "in64 (cf_MaxConcurrent cfg)" "in64 (cf_MaxEntries cfg)"
  shows "wf_config (applyDefaults cfg)"
  using assms by (auto simp: applyDefaults_def wf_config_def Let_def in64_def)

lemma cleanup_cfg [simp]:
  "li_cfg (cleanup l now) = li_cfg l" "li_slots (cleanup l now) = li_slots l"
  by (simp_all add: cleanup_def)

lemma cleanup_lookup:
  assumes "distinct (map fst (li_buckets l))"
  shows "map_of (li_buckets (cleanup l now)) k =
    (case map_of (li_buckets l) k of None \<Rightarrow> None
     | Some b \<Rightarrow> if li_nextCleanup l \<le> now \<and> bk_until b \<le> now then None else Some b)"
proof -
  have "map_of (filter (\<lambda>(k, b). P b) xs) k = (case map_of xs k of None \<Rightarrow> None | Some b \<Rightarrow> if P b then Some b else None)"
    if "distinct (map fst xs)" for P and xs :: "(string \<times> bucket) list"
    using that by (induction xs) (auto split: option.splits dest: map_of_SomeD simp: image_iff)
  note * = this [OF assms]
  show ?thesis by (simp add: cleanup_def * not_less split: option.splits)
qed

lemma cleanup_inv:
  assumes "limiter_inv cap t l" and "t \<le> now"
  shows "limiter_inv cap now (cleanup l now)"
proof -
  have "length (filter P (li_buckets l)) \<le> length (li_buckets l)" for P by simp
  then have "int (length (filter P (li_buckets l))) \<le> cf_MaxEntries (li_cfg l)" for P
    using assms(1) unfolding limiter_inv_def by (meson of_nat_le_iff order_trans)
  moreover have "distinct (map fst (filter P (li_buckets l)))" for P
    using assms(1) unfolding limiter_inv_def by (simp add: distinct_map_filter)
  ultimately show ?thesis
    using assms by (fastforce simp: limiter_inv_def cleanup_def wf_config_def)
qed

lemma cleanup_next: "wf_config (li_cfg l) \<Longrightarrow> now < li_nextCleanup (cleanup l now)"
  by (simp add: cleanup_def wf_config_def)

lemma timeSub_pos: "b < a \<Longrightarrow> 0 < timeSub a b"
  by (simp add: timeSub_def)

lemma timeSub_exact: "in64 (a - b) \<Longrightarrow> timeSub a b = a - b"
  by (simp add: timeSub_def in64_def)

lemma limiter_inv_lookup:
  assumes "limiter_inv cap t l" and "map_of (li_buckets l) k = Some b"
  shows "1 \<le> bk_count b" "bk_count b \<le> cap" "bk_until b \<le> t + cf_Window (li_cfg l)"
  using assms map_of_SomeD [OF assms(2)] unfolding limiter_inv_def by blast+

text \<open>The behaviour of one attempt, case by case: \<open>active\<close> is a bucket whose window is open.\<close>

definition active :: "Limiter \<Rightarrow> time \<Rightarrow> string \<Rightarrow> bool" where
  "active l now k \<longleftrightarrow> (case map_of (li_buckets l) k of None \<Rightarrow> False | Some b \<Rightarrow> now < bk_until b)"

lemma cleanup_active:
  assumes "distinct (map fst (li_buckets l))" and "map_of (li_buckets l) k = Some b" and "now < bk_until b"
  shows "map_of (li_buckets (cleanup l now)) k = Some b"
  using assms by (simp add: cleanup_lookup)

lemma allowHash_active:
  assumes "distinct (map fst (li_buckets l))" and "map_of (li_buckets l) k = Some b" and "now < bk_until b"
  shows "allowHash l k limit now =
    (if limit \<le> bk_count b then (timeSub (bk_until b) now, cleanup l now)
     else (0, (cleanup l now)\<lparr>li_buckets := AList.update k (b\<lparr>bk_count := i64 (bk_count b + 1)\<rparr>) (li_buckets (cleanup l now))\<rparr>))"
  using assms cleanup_active [OF assms] by (simp add: allowHash_def Let_def)

lemma allowHash_fresh:
  assumes "distinct (map fst (li_buckets l))" and "\<not> active l now k" and "0 < limit"
  shows "allowHash l k limit now =
    (if map_of (li_buckets (cleanup l now)) k = None \<and> cf_MaxEntries (li_cfg l) \<le> int (length (li_buckets (cleanup l now)))
     then (timeSub (li_nextCleanup (cleanup l now)) now, cleanup l now)
     else (0, (cleanup l now)\<lparr>li_buckets := AList.update k \<lparr>bk_count = 1, bk_until = now + cf_Window (li_cfg l)\<rparr>
                (li_buckets (cleanup l now))\<rparr>))"
proof -
  have "\<not> (case map_of (li_buckets (cleanup l now)) k of None \<Rightarrow> False | Some b \<Rightarrow> now < bk_until b)"
    using assms(2) by (auto simp: active_def cleanup_lookup [OF assms(1)] split: option.splits if_splits)
  moreover have "i64 1 = 1" by (simp add: in64_def)
  ultimately show ?thesis using assms(3) by (simp add: allowHash_def Let_def)
qed

lemma update_inv:
  assumes "limiter_inv cap now l" and "1 \<le> bk_count b" "bk_count b \<le> cap" "bk_until b \<le> now + cf_Window (li_cfg l)"
    and room: "map_of (li_buckets l) k = None \<Longrightarrow> int (length (li_buckets l)) < cf_MaxEntries (li_cfg l)"
  shows "limiter_inv cap now (l\<lparr>li_buckets := AList.update k b (li_buckets l)\<rparr>)"
proof -
  have d: "distinct (map fst (li_buckets l))" using assms(1) by (simp add: limiter_inv_def)
  have len: "length (AList.update k b xs) = (if map_of xs k = None then length xs + 1 else length xs)"
    for xs :: "(string \<times> bucket) list"
    by (induction xs) (auto split: if_splits)
  have "set (AList.update k b xs) \<subseteq> insert (k, b) (set xs)" for xs :: "(string \<times> bucket) list"
    by (induction xs) auto
  then have "\<forall>(k', b') \<in> set (AList.update k b (li_buckets l)). 1 \<le> bk_count b' \<and> bk_count b' \<le> cap
     \<and> bk_until b' \<le> now + cf_Window (li_cfg l)"
    using assms(1-4) unfolding limiter_inv_def by blast
  moreover have "int (length (AList.update k b (li_buckets l))) \<le> cf_MaxEntries (li_cfg l)"
    using assms(1) room by (auto simp: len limiter_inv_def)
  ultimately show ?thesis
    using assms(1) d by (simp add: limiter_inv_def AList.distinct_update)
qed

lemma allowHash_inv:
  assumes inv: "limiter_inv cap t l" and "t \<le> now" "0 < limit" "limit \<le> cap" "in64 limit"
  shows "limiter_inv cap now (snd (allowHash l k limit now))"
proof -
  note c = cleanup_inv [OF assms(1,2)]
  have d: "distinct (map fst (li_buckets l))" and w: "wf_config (li_cfg l)"
    using inv by (simp_all add: limiter_inv_def)
  show ?thesis
  proof (cases "active l now k")
    case True
    then obtain b where b: "map_of (li_buckets l) k = Some b" "now < bk_until b"
      by (auto simp: active_def split: option.splits)
    note cb = limiter_inv_lookup [OF c cleanup_active [OF d b]]
    have "bk_count b < limit \<Longrightarrow> i64 (bk_count b + 1) = bk_count b + 1"
      using cb(1) assms(5) by (intro i64_id) (simp add: in64_def)
    then show ?thesis
      using c cb assms(4) by (auto simp: allowHash_active [OF d b] cleanup_active [OF d b] intro!: update_inv)
  next
    case False
    then show ?thesis
      using c assms(3,4) by (auto simp: allowHash_fresh [OF d] intro!: update_inv)
  qed
qed

text \<open>What one attempt leaves of the other buckets, and of its own when it is refused.\<close>

lemma allowHash_lookup:
  assumes d: "distinct (map fst (li_buckets l))" and w: "wf_config (li_cfg l)" and "0 < limit"
    and r: "allowHash l k limit now = (r, l')" and "r \<noteq> 0 \<or> k \<noteq> k'"
  shows "map_of (li_buckets l') k' = map_of (li_buckets l) k' \<or> (map_of (li_buckets l') k' = None \<and> \<not> active l now k')"
proof -
  have cl: "map_of (li_buckets (cleanup l now)) k' = map_of (li_buckets l) k'
      \<or> (map_of (li_buckets (cleanup l now)) k' = None \<and> \<not> active l now k')"
    by (auto simp: cleanup_lookup [OF d] active_def split: option.splits)
  show ?thesis
  proof (cases "active l now k")
    case True
    then obtain b where b: "map_of (li_buckets l) k = Some b" "now < bk_until b"
      by (auto simp: active_def split: option.splits)
    with r assms(5) cl show ?thesis
      by (auto simp: allowHash_active [OF d b] AList.update_conv split: if_splits)
  next
    case False
    with r assms(5) cl show ?thesis
      by (auto simp: allowHash_fresh [OF d False assms(3)] AList.update_conv split: if_splits)
  qed
qed

lemma allowHash_zero_iff:
  assumes inv: "limiter_inv cap t l" and "t \<le> now" "0 < limit"
  shows "0 \<le> fst (allowHash l k limit now)"
    and "fst (allowHash l k limit now) = 0 \<longleftrightarrow>
      (if active l now k then bk_count (the (map_of (li_buckets l) k)) < limit
       else map_of (li_buckets (cleanup l now)) k \<noteq> None \<or> int (length (li_buckets (cleanup l now))) < cf_MaxEntries (li_cfg l))"
proof -
  have d: "distinct (map fst (li_buckets l))" and w: "wf_config (li_cfg l)"
    using inv by (simp_all add: limiter_inv_def)
  note pos = timeSub_pos [OF cleanup_next [OF w, of now]]
  have "0 \<le> fst (allowHash l k limit now) \<and> (fst (allowHash l k limit now) = 0 \<longleftrightarrow>
      (if active l now k then bk_count (the (map_of (li_buckets l) k)) < limit
       else map_of (li_buckets (cleanup l now)) k \<noteq> None \<or> int (length (li_buckets (cleanup l now))) < cf_MaxEntries (li_cfg l)))"
  proof (cases "active l now k")
    case True
    then obtain b where b: "map_of (li_buckets l) k = Some b" "now < bk_until b"
      by (auto simp: active_def split: option.splits)
    from True timeSub_pos [OF b(2)] b(1) show ?thesis by (auto simp: allowHash_active [OF d b])
  next
    case False
    with pos show ?thesis by (auto simp: allowHash_fresh [OF d False assms(3)])
  qed
  then show "0 \<le> fst (allowHash l k limit now)"
    and "fst (allowHash l k limit now) = 0 \<longleftrightarrow>
      (if active l now k then bk_count (the (map_of (li_buckets l) k)) < limit
       else map_of (li_buckets (cleanup l now)) k \<noteq> None \<or> int (length (li_buckets (cleanup l now))) < cf_MaxEntries (li_cfg l))"
    by simp_all
qed

section \<open>The contract of a window limiter\<close>

text \<open>A run of attempts at given times, with the attempts it admits and the final state.\<close>

fun runAttempts :: "('s \<Rightarrow> time \<Rightarrow> 'a \<Rightarrow> duration \<times> 's) \<Rightarrow> 's \<Rightarrow> (time \<times> 'a) list \<Rightarrow> 'a list \<times> 's" where
  "runAttempts admit s [] = ([], s)"
| "runAttempts admit s ((now, a) # rest) =
     (let (d, s') = admit s now a; (admitted, s'') = runAttempts admit s' rest
      in (if d = 0 then a # admitted else admitted, s''))"

lemma runAttempts_append:
  "runAttempts admit s (xs @ ys) =
     (fst (runAttempts admit s xs) @ fst (runAttempts admit (snd (runAttempts admit s xs)) ys),
      snd (runAttempts admit (snd (runAttempts admit s xs)) ys))"
proof (induction xs arbitrary: s)
  case (Cons x xs)
  then show ?case by (cases x) (simp add: split_beta Let_def)
qed simp

text \<open>\<open>bucketOf s k\<close> is the number of attempts admitted in the window of \<open>k\<close> and the end of
  that window; \<open>ok t s\<close> is the invariant of a state last used at time \<open>t\<close>.\<close>

locale window_limiter =
  fixes admit :: "'s \<Rightarrow> time \<Rightarrow> 'a \<Rightarrow> duration \<times> 's"
    and keyOf :: "'a \<Rightarrow> 'k"
    and limitOf :: "'a \<Rightarrow> int"
    and bucketOf :: "'s \<Rightarrow> 'k \<Rightarrow> (int \<times> time) option"
    and window :: duration
    and ok :: "time \<Rightarrow> 's \<Rightarrow> bool"
  assumes ok_admit: "ok t s \<Longrightarrow> t \<le> now \<Longrightarrow> ok now (snd (admit s now a))"
    and used_nonneg: "ok t s \<Longrightarrow> bucketOf s k = Some (n, u) \<Longrightarrow> 0 \<le> n"
    and limit_pos: "0 < limitOf a"
    and admitted_open: "ok t s \<Longrightarrow> t \<le> now \<Longrightarrow> bucketOf s (keyOf a) = Some (n, u) \<Longrightarrow> now < u \<Longrightarrow>
      admit s now a = (0, s') \<Longrightarrow> n < limitOf a \<and> bucketOf s' (keyOf a) = Some (n + 1, u)"
    and admitted_fresh: "ok t s \<Longrightarrow> t \<le> now \<Longrightarrow> (\<And>n u. bucketOf s (keyOf a) = Some (n, u) \<Longrightarrow> u \<le> now) \<Longrightarrow>
      admit s now a = (0, s') \<Longrightarrow> bucketOf s' (keyOf a) = Some (1, now + window)"
    and frame: "ok t s \<Longrightarrow> t \<le> now \<Longrightarrow> admit s now a = (d, s') \<Longrightarrow> d \<noteq> 0 \<or> keyOf a \<noteq> k \<Longrightarrow>
      bucketOf s' k = bucketOf s k \<or> (bucketOf s' k = None \<and> (\<forall>n u. bucketOf s k = Some (n, u) \<longrightarrow> u \<le> now))"
begin

definition hits :: "'k \<Rightarrow> 'a list \<Rightarrow> int" where
  "hits k xs = int (length (filter (\<lambda>a. keyOf a = k) xs))"

lemma hits_simps [simp]: "hits k [] = 0" "hits k (a # xs) = (if keyOf a = k then 1 else 0) + hits k xs"
  "hits k (xs @ ys) = hits k xs + hits k ys"
  by (simp_all add: hits_def)

lemma open_window:
  assumes "ok t s" and "sorted (map fst xs)" and "\<forall>(now, a) \<in> set xs. t \<le> now \<and> now < u \<and> (keyOf a = k \<longrightarrow> limitOf a \<le> L)"
    and "bucketOf s k = Some (n, u)"
  shows "\<exists>n'. bucketOf (snd (runAttempts admit s xs)) k = Some (n', u)
    \<and> hits k (fst (runAttempts admit s xs)) = n' - n \<and> (n < n' \<longrightarrow> n' \<le> L)"
  using assms
proof (induction xs arbitrary: t s n)
  case Nil
  then show ?case by simp
next
  case (Cons x xs)
  obtain now a where x: "x = (now, a)" by fastforce
  obtain d s' where ad: "admit s now a = (d, s')" by fastforce
  have ok': "ok now s'" using ok_admit [OF Cons.prems(1), of now a] Cons.prems(3) ad x by auto
  have rest: "sorted (map fst xs)" "\<forall>(m, a) \<in> set xs. now \<le> m \<and> m < u \<and> (keyOf a = k \<longrightarrow> limitOf a \<le> L)"
    using Cons.prems(2,3) x by auto
  show ?case
  proof (cases "d = 0 \<and> keyOf a = k")
    case True
    then have st: "n < limitOf a \<and> bucketOf s' k = Some (n + 1, u)"
      using admitted_open [OF Cons.prems(1), of now a n u s'] Cons.prems(3,4) ad x by auto
    from Cons.IH [OF ok' rest, of "n + 1"] st True Cons.prems(3) show ?thesis
      by (force simp: x ad split_beta Let_def)
  next
    case False
    then have "bucketOf s' k = Some (n, u)"
      using frame [OF Cons.prems(1) _ ad, of k] Cons.prems(3,4) x by auto
    from Cons.IH [OF ok' rest this] False show ?thesis
      by (auto simp: x ad split_beta Let_def)
  qed
qed

lemma fresh_window:
  assumes "ok t s" and "sorted (map fst xs)" and "0 < L"
    and "\<forall>(now, a) \<in> set xs. t \<le> now \<and> t0 \<le> now \<and> now < t0 + window \<and> (keyOf a = k \<longrightarrow> limitOf a \<le> L)"
    and "\<forall>n u. bucketOf s k = Some (n, u) \<longrightarrow> u \<le> t0"
  shows "hits k (fst (runAttempts admit s xs)) \<le> L"
  using assms
proof (induction xs arbitrary: t s)
  case Nil
  then show ?case by simp
next
  case (Cons x xs)
  obtain now a where x: "x = (now, a)" by fastforce
  obtain d s' where ad: "admit s now a = (d, s')" by fastforce
  have now: "t \<le> now" "t0 \<le> now" using Cons.prems(4) x by auto
  have ok': "ok now s'" using ok_admit [OF Cons.prems(1) now(1), of a] ad by simp
  have rest: "sorted (map fst xs)"
    "\<forall>(m, a) \<in> set xs. now \<le> m \<and> t0 \<le> m \<and> m < t0 + window \<and> (keyOf a = k \<longrightarrow> limitOf a \<le> L)"
    using Cons.prems(2,4) x by auto
  show ?case
  proof (cases "d = 0 \<and> keyOf a = k")
    case True
    have "bucketOf s' k = Some (1, now + window)"
      using admitted_fresh [OF Cons.prems(1) now(1), of a s'] Cons.prems(5) now True ad by force
    moreover have "\<forall>(m, a) \<in> set xs. now \<le> m \<and> m < now + window \<and> (keyOf a = k \<longrightarrow> limitOf a \<le> L)"
      using rest(2) now by force
    ultimately obtain n' where "hits k (fst (runAttempts admit s' xs)) = n' - 1" "1 < n' \<longrightarrow> n' \<le> L"
      using open_window [OF ok' rest(1), of "now + window" k L 1] by blast
    with True Cons.prems(3) show ?thesis by (cases "1 < n'") (simp_all add: x ad split_beta Let_def)
  next
    case False
    then have "\<forall>n u. bucketOf s' k = Some (n, u) \<longrightarrow> u \<le> t0"
      using frame [OF Cons.prems(1) now(1) ad, of k] Cons.prems(5) by auto
    from Cons.IH [OF ok' rest(1) Cons.prems(3) rest(2) this] False show ?thesis
      by (auto simp: x ad split_beta Let_def)
  qed
qed

lemma runAttempts_ok:
  assumes "ok t s" and "sorted (map fst xs)" and "\<forall>(now, a) \<in> set xs. t \<le> now"
  shows "\<exists>t'. ok t' (snd (runAttempts admit s xs)) \<and> t \<le> t' \<and> (\<forall>b. t \<le> b \<longrightarrow> (\<forall>(now, a) \<in> set xs. now \<le> b) \<longrightarrow> t' \<le> b)"
  using assms
proof (induction xs arbitrary: t s)
  case Nil
  then show ?case by auto
next
  case (Cons x xs)
  obtain now a where x: "x = (now, a)" by fastforce
  have ok': "ok now (snd (admit s now a))" using ok_admit [OF Cons.prems(1), of now a] Cons.prems(3) x by auto
  have "sorted (map fst xs)" "\<forall>(m, a) \<in> set xs. now \<le> m" using Cons.prems(2) x by auto
  from Cons.IH [OF ok' this] Cons.prems(3) show ?case by (force simp: x split_beta Let_def)
qed

text \<open>In any interval as long as the window at most twice the limit is admitted per key.\<close>

lemma sliding_bound:
  assumes s: "ok t s" and xs: "sorted (map fst xs)" and L: "0 < L"
    and all: "\<forall>(now, a) \<in> set xs. t \<le> now \<and> t0 \<le> now \<and> now < t0 + window \<and> (keyOf a = k \<longrightarrow> limitOf a \<le> L)"
  shows "hits k (fst (runAttempts admit s xs)) \<le> 2 * L"
proof (cases "bucketOf s k")
  case None
  with fresh_window [OF s xs L all] L show ?thesis by simp
next
  case (Some nu)
  then obtain n u where b: "bucketOf s k = Some (n, u)" by (cases nu) simp
  let ?ys = "takeWhile (\<lambda>(now, a). now < u) xs" and ?zs = "dropWhile (\<lambda>(now, a). now < u) xs"
  let ?s = "snd (runAttempts admit s ?ys)"
  have split: "?ys @ ?zs = xs" by simp
  have "sorted (map fst (?ys @ ?zs))" using xs by (simp only: split)
  then have sorted: "sorted (map fst ?ys)" "sorted (map fst ?zs)" and le: "\<forall>y\<in>set ?ys. \<forall>z\<in>set ?zs. fst y \<le> fst z"
    unfolding map_append sorted_append by simp_all
  have yu: "now < u" if "(now, a) \<in> set ?ys" for now a using set_takeWhileD [OF that] by simp
  have ysub: "set ?ys \<subseteq> set xs" and zsub: "set ?zs \<subseteq> set xs"
    by (auto dest: set_takeWhileD set_dropWhileD)
  have "\<forall>(now, a) \<in> set ?ys. t \<le> now \<and> now < u \<and> (keyOf a = k \<longrightarrow> limitOf a \<le> L)"
    using all ysub yu by fast
  from open_window [OF s sorted(1) this b] obtain n' where
    n': "bucketOf ?s k = Some (n', u)" "hits k (fst (runAttempts admit s ?ys)) = n' - n" "n < n' \<longrightarrow> n' \<le> L"
    by blast
  have first: "hits k (fst (runAttempts admit s ?ys)) \<le> L" using n' used_nonneg [OF s b] L by linarith
  have "\<forall>(now, a) \<in> set ?ys. t \<le> now" using all ysub by fast
  from runAttempts_ok [OF s sorted(1) this] obtain t' where
    t': "ok t' ?s" "t \<le> t'" "\<And>b. t \<le> b \<Longrightarrow> \<forall>(now, a) \<in> set ?ys. now \<le> b \<Longrightarrow> t' \<le> b" by blast
  have zu: "u \<le> now" if "(now, a) \<in> set ?zs" for now a
  proof -
    from that obtain z zs where z: "?zs = z # zs" by (cases ?zs) simp_all
    then have "u \<le> fst z" using hd_dropWhile [of "\<lambda>(now, a). now < u" xs] by (force simp: not_less)
    moreover have "fst z \<le> now" using that sorted(2) unfolding z by auto
    ultimately show ?thesis by simp
  qed
  have zt: "t' \<le> now" if "(now, a) \<in> set ?zs" for now a
  proof (rule t'(3))
    show "t \<le> now" using all zsub that by fast
    show "\<forall>(m, b) \<in> set ?ys. m \<le> now" using le that by (metis (no_types, lifting) case_prodI2 fst_conv)
  qed
  have "\<forall>(now, a) \<in> set ?zs. t' \<le> now \<and> max t0 u \<le> now \<and> now < max t0 u + window \<and> (keyOf a = k \<longrightarrow> limitOf a \<le> L)"
    using all zsub zu zt by fastforce
  from fresh_window [OF t'(1) sorted(2) L this] n'(1)
  have "hits k (fst (runAttempts admit ?s ?zs)) \<le> L" by simp
  with first show ?thesis
    using runAttempts_append [of admit s ?ys ?zs] by simp
qed

end

section \<open>The limiter keeps the contract\<close>

datatype attempt = IPAttempt string | AccountAttempt string

fun attemptKey :: "(string \<Rightarrow> string) \<Rightarrow> attempt \<Rightarrow> string" where
  "attemptKey uni (IPAttempt ip) = ipKey ip"
| "attemptKey uni (AccountAttempt account) = accountKey uni account"

fun attemptLimit :: "Config \<Rightarrow> attempt \<Rightarrow> int64" where
  "attemptLimit cfg (IPAttempt ip) = cf_IPLimit cfg"
| "attemptLimit cfg (AccountAttempt account) = cf_AccountLimit cfg"

fun admitAttempt :: "(string \<Rightarrow> string) \<Rightarrow> (string \<Rightarrow> string) \<Rightarrow> Limiter \<Rightarrow> time \<Rightarrow> attempt \<Rightarrow> duration \<times> Limiter" where
  "admitAttempt sha uni l now (IPAttempt ip) = AllowIP sha l ip now"
| "admitAttempt sha uni l now (AccountAttempt account) = AllowAccount sha uni l account now"

lemma admitAttempt_hash:
  "admitAttempt sha uni l now a = allowHash l (sha (attemptKey uni a)) (attemptLimit (li_cfg l) a) now"
  by (cases a) (simp_all add: AllowIP_def AllowAccount_def allow_def)

lemma attempt_keys_disjoint:
  "attemptKey uni a = attemptKey uni b \<Longrightarrow> attemptLimit cfg a = attemptLimit cfg b"
  by (cases a; cases b) (simp_all add: ipKey_def accountKey_def)

text \<open>The configuration never changes; the invariant of a limiter with configuration \<open>cfg\<close>.\<close>

definition maxLimit :: "Config \<Rightarrow> int64" where
  "maxLimit cfg = max (cf_IPLimit cfg) (cf_AccountLimit cfg)"

definition limiter_ok :: "Config \<Rightarrow> time \<Rightarrow> Limiter \<Rightarrow> bool" where
  "limiter_ok cfg t l \<longleftrightarrow> limiter_inv (maxLimit cfg) t l \<and> li_cfg l = cfg"

definition countAndEnd :: "Limiter \<Rightarrow> string \<Rightarrow> (int \<times> time) option" where
  "countAndEnd l k = map_option (\<lambda>b. (bk_count b, bk_until b)) (map_of (li_buckets l) k)"

lemma allowHash_cfg [simp]:
  "li_cfg (snd (allowHash l k limit now)) = li_cfg l" "li_slots (snd (allowHash l k limit now)) = li_slots l"
  by (simp_all add: allowHash_def Let_def)

lemma limiter_okD:
  assumes "limiter_ok cfg t l"
  shows "limiter_inv (maxLimit cfg) t l" "li_cfg l = cfg" "wf_config cfg" "distinct (map fst (li_buckets l))"
  using assms by (auto simp: limiter_ok_def limiter_inv_def)

lemma attemptLimit_wf:
  assumes "wf_config cfg"
  shows "0 < attemptLimit cfg a" "attemptLimit cfg a \<le> maxLimit cfg" "in64 (attemptLimit cfg a)"
  using assms by (cases a; simp add: wf_config_def maxLimit_def)+

lemma admitAttempt_ok:
  assumes "limiter_ok cfg t l" and "t \<le> now"
  shows "limiter_ok cfg now (snd (admitAttempt sha uni l now a))"
  using allowHash_inv [OF limiter_okD(1) [OF assms(1)] assms(2) attemptLimit_wf [OF limiter_okD(3) [OF assms(1)]]] assms(1)
    limiter_okD(2) [OF assms(1)]
  by (simp add: limiter_ok_def admitAttempt_hash)

lemma admitAttempt_open:
  assumes ok: "limiter_ok cfg t l" and "t \<le> now" and b: "countAndEnd l (sha (attemptKey uni a)) = Some (n, u)" "now < u"
    and r: "admitAttempt sha uni l now a = (0, l')"
  shows "n < attemptLimit cfg a \<and> countAndEnd l' (sha (attemptKey uni a)) = Some (n + 1, u)"
proof -
  from b obtain bk where bk: "map_of (li_buckets l) (sha (attemptKey uni a)) = Some bk" "now < bk_until bk"
    "n = bk_count bk" "u = bk_until bk" by (auto simp: countAndEnd_def)
  note ah = allowHash_active [OF limiter_okD(4) [OF ok] bk(1,2)]
  have lt: "n < attemptLimit cfg a"
    using r timeSub_pos [OF bk(2)] limiter_okD(2) [OF ok] bk(3)
    by (auto simp: admitAttempt_hash ah split: if_splits)
  have "1 \<le> n" using limiter_inv_lookup(1) [OF limiter_okD(1) [OF ok] bk(1)] bk(3) by simp
  with lt have "i64 (n + 1) = n + 1"
    using attemptLimit_wf(3) [OF limiter_okD(3) [OF ok], of a] by (intro i64_id) (simp add: in64_def)
  with lt r bk show ?thesis
    using limiter_okD(2) [OF ok]
    by (auto simp: admitAttempt_hash ah countAndEnd_def AList.update_conv split: if_splits)
qed

lemma admitAttempt_fresh:
  assumes ok: "limiter_ok cfg t l" and "t \<le> now"
    and old: "\<And>n u. countAndEnd l (sha (attemptKey uni a)) = Some (n, u) \<Longrightarrow> u \<le> now"
    and r: "admitAttempt sha uni l now a = (0, l')"
  shows "countAndEnd l' (sha (attemptKey uni a)) = Some (1, now + cf_Window cfg)"
proof -
  have "\<not> active l now (sha (attemptKey uni a))"
    using old by (fastforce simp: active_def countAndEnd_def split: option.splits)
  note ah = allowHash_fresh [OF limiter_okD(4) [OF ok] this attemptLimit_wf(1) [OF limiter_okD(3) [OF ok]]]
  from r timeSub_pos [OF cleanup_next [of l now]] limiter_okD(2,3) [OF ok] show ?thesis
    by (auto simp: admitAttempt_hash ah countAndEnd_def AList.update_conv split: if_splits)
qed

lemma admitAttempt_frame:
  assumes ok: "limiter_ok cfg t l" and "t \<le> now" and r: "admitAttempt sha uni l now a = (d, l')"
    and "d \<noteq> 0 \<or> sha (attemptKey uni a) \<noteq> k"
  shows "countAndEnd l' k = countAndEnd l k
     \<or> (countAndEnd l' k = None \<and> (\<forall>n u. countAndEnd l k = Some (n, u) \<longrightarrow> u \<le> now))"
proof -
  have "map_of (li_buckets l') k = map_of (li_buckets l) k \<or> (map_of (li_buckets l') k = None \<and> \<not> active l now k)"
    using allowHash_lookup [OF limiter_okD(4) [OF ok], of "attemptLimit cfg a" "sha (attemptKey uni a)" now d l' k]
      r assms(4) attemptLimit_wf(1) [OF limiter_okD(3) [OF ok]] limiter_okD(2,3) [OF ok]
    by (simp add: admitAttempt_hash)
  then show ?thesis by (auto simp: countAndEnd_def active_def)
qed

text \<open>With a well-formed configuration the limiter is a window limiter keyed by hashes; the
  limits of an ill-formed one are never used, so they are replaced by 1 in the interpretation.\<close>

interpretation lim: window_limiter "admitAttempt sha uni" "\<lambda>a. sha (attemptKey uni a)"
  "\<lambda>a. max 1 (attemptLimit cfg a)" countAndEnd "cf_Window cfg" "limiter_ok cfg"
  for sha uni :: "string \<Rightarrow> string" and cfg
proof unfold_locales
  show "limiter_ok cfg now (snd (admitAttempt sha uni s now a))" if "limiter_ok cfg t s" "t \<le> now" for t s now a
    using that by (rule admitAttempt_ok)
  show "0 \<le> n" if "limiter_ok cfg t s" "countAndEnd s k = Some (n, u)" for t s k n u
    using that limiter_inv_lookup(1) [OF limiter_okD(1) [OF that(1)], of k] by (force simp: countAndEnd_def)
  show "0 < max 1 (attemptLimit cfg a)" for a by simp
  show "n < max 1 (attemptLimit cfg a) \<and> countAndEnd s' (sha (attemptKey uni a)) = Some (n + 1, u)"
    if "limiter_ok cfg t s" "t \<le> now" "countAndEnd s (sha (attemptKey uni a)) = Some (n, u)" "now < u"
      "admitAttempt sha uni s now a = (0, s')" for t s now a n u s'
    using admitAttempt_open [OF that] by auto
  show "countAndEnd s' (sha (attemptKey uni a)) = Some (1, now + cf_Window cfg)"
    if "limiter_ok cfg t s" "t \<le> now" "\<And>n u. countAndEnd s (sha (attemptKey uni a)) = Some (n, u) \<Longrightarrow> u \<le> now"
      "admitAttempt sha uni s now a = (0, s')" for t s now a s'
    using that by (rule admitAttempt_fresh)
  show "countAndEnd s' k = countAndEnd s k
     \<or> (countAndEnd s' k = None \<and> (\<forall>n u. countAndEnd s k = Some (n, u) \<longrightarrow> u \<le> now))"
    if "limiter_ok cfg t s" "t \<le> now" "admitAttempt sha uni s now a = (d, s')" "d \<noteq> 0 \<or> sha (attemptKey uni a) \<noteq> k"
    for t s now a d s' k
    using that by (rule admitAttempt_frame)
qed

section \<open>The limiter as a state machine\<close>

text \<open>The state of the process: the limiter, the last reading of its monotonic clock, and the
  number of password jobs that hold a slot. Requests interleave at these atomic steps.\<close>

inductive limiter_step :: "(string \<Rightarrow> string) \<Rightarrow> (string \<Rightarrow> string) \<Rightarrow> Limiter \<times> time \<times> nat \<Rightarrow> Limiter \<times> time \<times> nat \<Rightarrow> bool"
  for sha uni where
  attempt: "t \<le> now \<Longrightarrow> limiter_step sha uni (l, t, jobs) (snd (admitAttempt sha uni l now a), now, jobs)"
| acquire: "Acquire l c = (Inr (), l') \<Longrightarrow> limiter_step sha uni (l, t, jobs) (l', t, Suc jobs)"
| refuse: "Acquire l c = (Inl err, l') \<Longrightarrow> limiter_step sha uni (l, t, jobs) (l', t, jobs)"
| release: "limiter_step sha uni (l, t, Suc jobs) (releaseSlot l, t, jobs)"

inductive reachable :: "(string \<Rightarrow> string) \<Rightarrow> (string \<Rightarrow> string) \<Rightarrow> Config \<Rightarrow> Limiter \<times> time \<times> nat \<Rightarrow> bool"
  for sha uni cfg where
  start: "0 \<le> t \<Longrightarrow> reachable sha uni cfg (New cfg, t, 0)"
| step: "reachable sha uni cfg x \<Longrightarrow> limiter_step sha uni x y \<Longrightarrow> reachable sha uni cfg y"

inductive_cases limiter_step_refusedE: "limiter_step sha uni (l, t, jobs) (l', t', jobs)"

lemma Acquire_inv:
  assumes "limiter_ok cfg t l" and "Acquire l c = (r, l')"
  shows "limiter_ok cfg t l'" and "li_slots l' = (if isl r then li_slots l else Suc (li_slots l))"
  using assms by (auto simp: Acquire_def limiter_ok_def limiter_inv_def split: option.splits if_splits)

lemma reachable_inv:
  assumes "reachable sha uni cfg x" and "wf_config (applyDefaults cfg)"
  shows "limiter_ok (applyDefaults cfg) (fst (snd x)) (fst x) \<and> li_slots (fst x) = snd (snd x)"
  using assms
proof (induction rule: reachable.induct)
  case (start t)
  then show ?case by (simp add: limiter_ok_def limiter_inv_def New_def wf_config_def)
next
  case (step x y)
  then have ih: "limiter_ok (applyDefaults cfg) (fst (snd x)) (fst x)" "li_slots (fst x) = snd (snd x)" by simp_all
  from step.hyps(2) show ?case
  proof (cases rule: limiter_step.cases)
    case (attempt t now l jobs a)
    then show ?thesis using ih admitAttempt_ok [of "applyDefaults cfg" t l now sha uni a] by (simp add: admitAttempt_hash)
  next
    case (acquire l c l' t jobs)
    then show ?thesis using ih Acquire_inv [of "applyDefaults cfg" t l c "Inr ()" l'] by simp
  next
    case (refuse l c err l' t jobs)
    then show ?thesis using ih Acquire_inv [of "applyDefaults cfg" t l c "Inl err" l'] by simp
  next
    case (release l t jobs)
    then show ?thesis using ih by (auto simp: limiter_ok_def limiter_inv_def releaseSlot_def)
  qed
qed

section \<open>Properties\<close>

text \<open>
  Property C8: in every reachable state, whatever the interleaving of attempts, acquisitions and
  releases, at most \<open>MaxEntries\<close> buckets are stored, one per key, each with a count between 1
  and its largest limit and an end at most one window away, and the slots in use are exactly the
  running password jobs, at most \<open>MaxConcurrent\<close>.
\<close>

theorem limiter_reachable_invariant:
  assumes "reachable sha uni cfg (l, now, jobs)" and "wf_config (applyDefaults cfg)"
  shows "li_cfg l = applyDefaults cfg \<and> distinct (map fst (li_buckets l))
    \<and> int (length (li_buckets l)) \<le> cf_MaxEntries (li_cfg l)
    \<and> (\<forall>(k, b) \<in> set (li_buckets l). 1 \<le> bk_count b \<and> bk_count b \<le> max (cf_IPLimit (li_cfg l)) (cf_AccountLimit (li_cfg l))
          \<and> bk_until b \<le> now + cf_Window (li_cfg l))
    \<and> li_slots l = jobs \<and> int jobs \<le> cf_MaxConcurrent (li_cfg l)"
  using reachable_inv [OF assms]
  by (auto simp: limiter_ok_def limiter_inv_def maxLimit_def)

definition example_config :: Config where
  "example_config = \<lparr>cf_IPLimit = 0, cf_AccountLimit = 2, cf_Window = 60 * 10 ^ 9, cf_MaxConcurrent = 1, cf_MaxEntries = 0\<rparr>"

lemma example_config_wf: "wf_config (applyDefaults example_config)"
  by (rule applyDefaults_wf) (simp_all add: example_config_def in64_def)

lemma example_reachable:
  "reachable id id example_config (snd (admitAttempt id id (New example_config) 7 (AccountAttempt '' Ann'')), 7, 0)"
  by (rule reachable.step [OF reachable.start [of 0] limiter_step.attempt]) simp_all

lemma example_first:
  "admitAttempt id id (New example_config) 7 (AccountAttempt '' Ann'') =
     (0, \<lparr>li_buckets = [(''account:ann'', \<lparr>bk_count = 1, bk_until = 60000000007\<rparr>)], li_nextCleanup = 60000000007,
          li_cfg = applyDefaults example_config, li_slots = 0\<rparr>)"
  by code_simp

theorem limiter_reachable_invariant_witness:
  "int (length [(''account:ann'', \<lparr>bk_count = 1, bk_until = 60000000007\<rparr>)]) \<le> cf_MaxEntries (applyDefaults example_config)"
  using limiter_reachable_invariant [OF example_reachable example_config_wf]
  by (simp add: example_first del: admitAttempt.simps)

text \<open>
  Property C9: brute force is bounded. From any state of the limiter, over any sequence of
  attempts whose times fall into an interval no longer than the window, at most twice the limit
  of the attempts with a given key is admitted, when no other key of the sequence has its hash.
\<close>

theorem admitted_attempts_bounded:
  assumes "limiter_ok cfg t l" and "sorted (map fst xs)"
    and "\<forall>(now, a) \<in> set xs. t \<le> now \<and> t0 \<le> now \<and> now < t0 + cf_Window cfg"
    and collision_free: "\<forall>(now, b) \<in> set xs. sha (attemptKey uni b) = sha (attemptKey uni a) \<longrightarrow> attemptKey uni b = attemptKey uni a"
  shows "int (length (filter (\<lambda>b. sha (attemptKey uni b) = sha (attemptKey uni a)) (fst (runAttempts (admitAttempt sha uni) l xs))))
    \<le> 2 * attemptLimit cfg a"
proof -
  have pos: "0 < attemptLimit cfg b" for b using attemptLimit_wf(1) [OF limiter_okD(3) [OF assms(1)]] .
  have "\<forall>(now, b) \<in> set xs. t \<le> now \<and> t0 \<le> now \<and> now < t0 + cf_Window cfg
     \<and> (sha (attemptKey uni b) = sha (attemptKey uni a) \<longrightarrow> max 1 (attemptLimit cfg b) \<le> attemptLimit cfg a)"
  proof (intro ballI, clarify)
    fix now b assume b: "(now, b) \<in> set xs"
    have "max 1 (attemptLimit cfg b) \<le> attemptLimit cfg a" if "sha (attemptKey uni b) = sha (attemptKey uni a)"
      using collision_free b that pos [of a] attempt_keys_disjoint [of uni b a cfg] by force
    with assms(3) b show "t \<le> now \<and> t0 \<le> now \<and> now < t0 + cf_Window cfg
     \<and> (sha (attemptKey uni b) = sha (attemptKey uni a) \<longrightarrow> max 1 (attemptLimit cfg b) \<le> attemptLimit cfg a)"
      by fast
  qed
  from lim.sliding_bound [OF assms(1,2) pos [of a] this] show ?thesis by (simp add: lim.hits_def)
qed

definition example_attempts :: "(time \<times> attempt) list" where
  "example_attempts = [(7, AccountAttempt '' Ann''), (8, AccountAttempt ''ann''), (9, AccountAttempt ''ANN''),
     (10, IPAttempt ''192.0.2.1'')]"

theorem admitted_attempts_bounded_witness:
  "fst (runAttempts (admitAttempt id id) (New example_config) example_attempts) =
     [AccountAttempt '' Ann'', AccountAttempt ''ann'', IPAttempt ''192.0.2.1'']
   \<and> int (length (filter (\<lambda>b. attemptKey id b = ''account:ann'') (fst (runAttempts (admitAttempt id id) (New example_config) example_attempts))))
      \<le> 2 * 2"
proof -
  have ok: "limiter_ok (applyDefaults example_config) 0 (New example_config)"
    using reachable_inv [OF reachable.start [of 0 id id] example_config_wf] by simp
  have run: "fst (runAttempts (admitAttempt id id) (New example_config) example_attempts) =
     [AccountAttempt '' Ann'', AccountAttempt ''ann'', IPAttempt ''192.0.2.1'']"
    by code_simp
  have w: "cf_Window (applyDefaults example_config) = 60000000000" "cf_AccountLimit (applyDefaults example_config) = 2"
    "attemptKey id (AccountAttempt ''ann'') = ''account:ann''"
    by code_simp+
  have "sorted (map fst example_attempts)" "\<forall>(now, a) \<in> set example_attempts. 0 \<le> now \<and> 0 \<le> now \<and> now < 0 + cf_Window (applyDefaults example_config)"
    by (simp_all only: w) (simp_all add: example_attempts_def)
  from admitted_attempts_bounded [OF ok this, where sha = id and uni = id and a = "AccountAttempt ''ann''"] run w
  show ?thesis by simp
qed

text \<open>
  Property C10: an exhausted bucket stays blocked until its window ends and no longer. While the
  window is open and the count has reached the limit every attempt is refused with the exact
  remaining time and changes no bucket whose window is open; at the end of the window an attempt
  with the key is admitted again.
\<close>

theorem exhausted_bucket_blocks_until_window_end:
  assumes "limiter_inv cap t l" and "t \<le> now" and "now < bk_until b"
    and "map_of (li_buckets l) k = Some b" and "0 < limit" and "limit \<le> bk_count b"
    and "allowHash l k limit now = (retry, l')"
  shows "retry = bk_until b - now \<and> 0 < retry
    \<and> (\<forall>k' b'. map_of (li_buckets l) k' = Some b' \<longrightarrow> now < bk_until b' \<longrightarrow> map_of (li_buckets l') k' = Some b')
    \<and> fst (allowHash l' k limit (bk_until b)) = 0"
proof -
  have d: "distinct (map fst (li_buckets l))" and w: "wf_config (li_cfg l)"
    using assms(1) by (simp_all add: limiter_inv_def)
  note ah = allowHash_active [OF d assms(4,3)]
  from assms(6,7) have r: "retry = timeSub (bk_until b) now" and l': "l' = cleanup l now" by (simp_all add: ah)
  have "bk_until b - now \<le> cf_Window (li_cfg l)"
    using limiter_inv_lookup(3) [OF assms(1,4)] assms(2) by simp
  with assms(3) w r have 1: "retry = bk_until b - now" by (simp add: timeSub_exact in64_def wf_config_def)
  have inv': "limiter_inv cap now l'" unfolding l' using cleanup_inv [OF assms(1,2)] .
  have look: "map_of (li_buckets l') k' = Some b'" if "map_of (li_buckets l) k' = Some b'" "now < bk_until b'" for k' b'
    unfolding l' using cleanup_active [OF d that] .
  have "\<not> active l' (bk_until b) k" using look [OF assms(4,3)] by (simp add: active_def)
  moreover have "map_of (li_buckets (cleanup l' (bk_until b))) k \<noteq> None
     \<or> int (length (li_buckets (cleanup l' (bk_until b)))) < cf_MaxEntries (li_cfg l')"
  proof (cases "li_nextCleanup l' \<le> bk_until b")
    case True
    have "(k, b) \<in> set (li_buckets l')" using look [OF assms(4,3)] by (rule map_of_SomeD)
    then have "length (filter (\<lambda>(k, b'). bk_until b < bk_until b') (li_buckets l')) < length (li_buckets l')"
      by (intro length_filter_less) auto
    with True inv' show ?thesis by (simp add: cleanup_def limiter_inv_def)
  next
    case False
    then show ?thesis using look [OF assms(4,3)] by (simp add: cleanup_def)
  qed
  ultimately have "fst (allowHash l' k limit (bk_until b)) = 0"
    using allowHash_zero_iff(2) [OF inv' less_imp_le [OF assms(3)] assms(5), of k] by simp
  with 1 look assms(3) show ?thesis by simp
qed

theorem exhausted_bucket_blocks_until_window_end_witness:
  "allowHash \<lparr>li_buckets = [(''k'', \<lparr>bk_count = 2, bk_until = 60000000007\<rparr>)], li_nextCleanup = 60000000007,
      li_cfg = applyDefaults example_config, li_slots = 0\<rparr> ''k'' 2 100 =
     (59999999907, \<lparr>li_buckets = [(''k'', \<lparr>bk_count = 2, bk_until = 60000000007\<rparr>)], li_nextCleanup = 60000000007,
      li_cfg = applyDefaults example_config, li_slots = 0\<rparr>)"
proof -
  define l where "l = \<lparr>li_buckets = [(''k'', \<lparr>bk_count = 2, bk_until = 60000000007\<rparr>)], li_nextCleanup = 60000000007,
      li_cfg = applyDefaults example_config, li_slots = 0\<rparr>"
  have w: "cf_Window (applyDefaults example_config) = 60000000000" "0 < cf_MaxEntries (applyDefaults example_config)"
    by code_simp+
  have inv: "limiter_inv 2 10 l"
    using example_config_wf w by (simp add: limiter_inv_def l_def wf_config_def)
  obtain retry l' where r: "allowHash l ''k'' 2 100 = (retry, l')" by fastforce
  have "retry = 59999999907"
    using exhausted_bucket_blocks_until_window_end [OF inv _ _ _ _ _ r, of "\<lparr>bk_count = 2, bk_until = 60000000007\<rparr>"]
    by (simp add: l_def)
  moreover have "l' = l" using r by (auto simp: allowHash_def l_def cleanup_def Let_def)
  ultimately show ?thesis using r by (simp add: l_def)
qed

end
