(* ===== verification/Security.thy ===== *)
theory Security
  imports Domain_Model
begin

text \<open>
  \<open>internal/platform/security\<close>: password hashing in the PHC text format and session tokens.
  Argon2id (\<open>golang.org/x/crypto\<close>), SHA-256 and the random source are parameters; base64,
  \<open>fmt.Sprintf\<close>/\<open>Sscanf\<close> at the formats used and \<open>strings.Split\<close> are modelled, so
  the lemmas show that what \<open>HashPassword\<close> prints \<open>VerifyPassword\<close> reads back.
\<close>

section \<open>Base64 without padding\<close>

text \<open>\<open>url\<close> selects \<open>base64.RawURLEncoding\<close>, otherwise \<open>base64.RawStdEncoding\<close>.\<close>

definition b64char :: "bool \<Rightarrow> nat \<Rightarrow> char" where
  "b64char url n =
     (if n < 26 then char_of (65 + n) else if n < 52 then char_of (97 + (n - 26))
      else if n < 62 then char_of (48 + (n - 52))
      else if n = 62 then (if url then CHR ''-'' else CHR ''+'')
      else (if url then CHR ''_'' else CHR ''/''))"

definition b64val :: "bool \<Rightarrow> char \<Rightarrow> nat option" where
  "b64val url c =
     (let b = byte c in
      if 65 \<le> b \<and> b \<le> 90 then Some (b - 65) else if 97 \<le> b \<and> b \<le> 122 then Some (b - 97 + 26)
      else if 48 \<le> b \<and> b \<le> 57 then Some (b - 48 + 52)
      else if c = (if url then CHR ''-'' else CHR ''+'') then Some 62
      else if c = (if url then CHR ''_'' else CHR ''/'') then Some 63 else None)"

fun sextets :: "nat list \<Rightarrow> nat list" where
  "sextets (a # b # c # r) = (a div 4) # (a mod 4 * 16 + b div 16) # (b mod 16 * 4 + c div 64) # (c mod 64) # sextets r"
| "sextets [a, b] = [a div 4, a mod 4 * 16 + b div 16, b mod 16 * 4]"
| "sextets [a] = [a div 4, a mod 4 * 16]"
| "sextets [] = []"

fun octets :: "nat list \<Rightarrow> nat list option" where
  "octets (w # x # y # z # r) =
     map_option (\<lambda>bs. (w * 4 + x div 16) # (x mod 16 * 16 + y div 4) # (y mod 4 * 64 + z) # bs) (octets r)"
| "octets [w, x, y] = Some [w * 4 + x div 16, x mod 16 * 16 + y div 4]"
| "octets [w, x] = Some [w * 4 + x div 16]"
| "octets [w] = None"
| "octets [] = Some []"

definition EncodeToString :: "bool \<Rightarrow> string \<Rightarrow> string" where
  "EncodeToString url s = map (b64char url) (sextets (map of_char s))"

text \<open>The decoder skips line breaks, ignores the unused bits of the last character and rejects
  every other character and a dangling one.\<close>

definition DecodeString :: "bool \<Rightarrow> string \<Rightarrow> go_error + string" where
  "DecodeString url s =
     (case those (map (b64val url) (filter (\<lambda>c. byte c \<noteq> 10 \<and> byte c \<noteq> 13) s)) of
        None \<Rightarrow> Inl (OtherError ''illegal base64 data'')
      | Some vs \<Rightarrow> (case octets vs of None \<Rightarrow> Inl (OtherError ''illegal base64 data'')
                    | Some bs \<Rightarrow> Inr (map char_of bs)))"

section \<open>Scanning\<close>

definition newline :: char where
  "newline = char_of (10 :: nat)"

definition scanLit :: "string \<Rightarrow> string \<Rightarrow> string option" where
  "scanLit lit s = (if take (length lit) s = lit then Some (drop (length lit) s) else None)"

text \<open>\<open>Sscanf\<close> skips spaces before a number; a line break is an error.\<close>

definition skipSpace :: "string \<Rightarrow> string option" where
  "skipSpace s =
     (let r = stripWhile (\<lambda>s. if s \<noteq> [] \<and> hd s = newline then 0 else spaceLen s) s
      in if r \<noteq> [] \<and> hd r = newline then None else Some r)"

definition scanDigits :: "string \<Rightarrow> (nat \<times> string) option" where
  "scanDigits s = (let ds = takeWhile isDigit s in if ds = [] then None else Some (decVal ds, dropWhile isDigit s))"

definition scanUint :: "nat \<Rightarrow> string \<Rightarrow> (nat \<times> string) option" where
  "scanUint bits s = Option.bind (skipSpace s) (\<lambda>s. Option.bind (scanDigits s) (\<lambda>(n, r).
     if n < 2 ^ bits then Some (n, r) else None))"

definition scanInt :: "string \<Rightarrow> (int \<times> string) option" where
  "scanInt s = Option.bind (skipSpace s) (\<lambda>s.
     case s of [] \<Rightarrow> None
     | c # s' \<Rightarrow> let neg = (c = CHR ''-'') in
         Option.bind (scanDigits (if neg \<or> c = CHR ''+'' then s' else s)) (\<lambda>(n, r).
           let v = (if neg then - int n else int n) in if in64 v then Some (v, r) else None))"

definition scanVersion :: "string \<Rightarrow> int option" where
  "scanVersion s = Option.bind (scanLit ''v='' s) (\<lambda>s. map_option fst (scanInt s))"

definition scanParams :: "string \<Rightarrow> (nat \<times> nat \<times> nat) option" where
  "scanParams s =
     Option.bind (scanLit ''m='' s) (\<lambda>s. Option.bind (scanUint 32 s) (\<lambda>(m, s).
     Option.bind (scanLit '',t='' s) (\<lambda>s. Option.bind (scanUint 32 s) (\<lambda>(t, s).
     Option.bind (scanLit '',p='' s) (\<lambda>s. Option.bind (scanUint 8 s) (\<lambda>(p, s). Some (m, t, p)))))))"

section \<open>Password hashes\<close>

record Argon2Params =
  ap_MemoryKB :: nat
  ap_Iterations :: nat
  ap_Parallelism :: nat
  ap_SaltLength :: nat
  ap_KeyLength :: nat

definition DefaultArgon2Params :: Argon2Params where
  "DefaultArgon2Params = \<lparr>ap_MemoryKB = 64 * 1024, ap_Iterations = 3, ap_Parallelism = 2, ap_SaltLength = 16, ap_KeyLength = 32\<rparr>"

text \<open>\<open>argon2.IDKey\<close>: password, salt, iterations, memory, parallelism, key length.\<close>

type_synonym idkey = "string \<Rightarrow> string \<Rightarrow> nat \<Rightarrow> nat \<Rightarrow> nat \<Rightarrow> nat \<Rightarrow> string"

definition argonText :: "Argon2Params \<Rightarrow> string \<Rightarrow> string \<Rightarrow> string" where
  "argonText params salt key =
     ''$argon2id$v=19$m='' @ itoa (ap_MemoryKB params) @ '',t='' @ itoa (ap_Iterations params) @ '',p='' @ itoa (ap_Parallelism params)
       @ ''$'' @ EncodeToString False salt @ ''$'' @ EncodeToString False key"

definition HashPassword :: "idkey \<Rightarrow> (nat \<Rightarrow> go_error + string) \<Rightarrow> string \<Rightarrow> Argon2Params \<Rightarrow> go_error + string" where
  "HashPassword idkey randRead password params =
     (if trimSpace password = [] then Inl (OtherError ''password is required'')
      else let params = (if ap_MemoryKB params = 0 then DefaultArgon2Params else params)
           in case randRead (ap_SaltLength params) of
                Inl err \<Rightarrow> Inl err
              | Inr salt \<Rightarrow>
                  let key = idkey password salt (ap_Iterations params) (ap_MemoryKB params) (ap_Parallelism params) (ap_KeyLength params)
                  in Inr (argonText params salt key))"

definition argon2Version :: int where
  "argon2Version = 19"

definition decodeArgon2idHash :: "string \<Rightarrow> go_error + (Argon2Params \<times> string \<times> string)" where
  "decodeArgon2idHash encodedHash =
     (let parts = splitOn (CHR ''$'') encodedHash in
      if length parts \<noteq> 6 \<or> parts ! 1 \<noteq> ''argon2id'' then Inl (OtherError ''invalid argon2id hash'')
      else case scanVersion (parts ! 2) of
        None \<Rightarrow> Inl (OtherError ''unsupported argon2id version'')
      | Some version \<Rightarrow>
          if version \<noteq> argon2Version then Inl (OtherError ''unsupported argon2id version'')
          else case scanParams (parts ! 3) of
            None \<Rightarrow> Inl (OtherError ''invalid argon2id parameters'')
          | Some (m, t, p) \<Rightarrow>
              (case DecodeString False (parts ! 4) of
                 Inl err \<Rightarrow> Inl err
               | Inr salt \<Rightarrow>
                   (case DecodeString False (parts ! 5) of
                      Inl err \<Rightarrow> Inl err
                    | Inr key \<Rightarrow>
                        Inr (\<lparr>ap_MemoryKB = m, ap_Iterations = t, ap_Parallelism = p,
                              ap_SaltLength = length salt mod 2 ^ 32, ap_KeyLength = length key mod 2 ^ 32\<rparr>, salt, key))))"

definition VerifyPassword :: "idkey \<Rightarrow> string \<Rightarrow> string \<Rightarrow> go_error + bool" where
  "VerifyPassword idkey password encodedHash =
     (case decodeArgon2idHash encodedHash of
        Inl err \<Rightarrow> Inl err
      | Inr (params, salt, expectedKey) \<Rightarrow>
          let actualKey = idkey password salt (ap_Iterations params) (ap_MemoryKB params) (ap_Parallelism params)
                (length expectedKey mod 2 ^ 32)
          in Inr (actualKey = expectedKey))"

section \<open>Tokens\<close>

definition NewSessionToken :: "(nat \<Rightarrow> go_error + string) \<Rightarrow> int64 \<Rightarrow> go_error + string" where
  "NewSessionToken randRead byteLength =
     (let byteLength = (if byteLength < 32 then 32 else byteLength)
      in case randRead (nat byteLength) of Inl err \<Rightarrow> Inl err | Inr buffer \<Rightarrow> Inr (EncodeToString True buffer))"

definition HashToken :: "(string \<Rightarrow> string) \<Rightarrow> string \<Rightarrow> string" where
  "HashToken sha token = EncodeToString True (sha token)"

section \<open>Lemmas\<close>

lemma b64val_char [simp]: "n < 64 \<Longrightarrow> b64val url (b64char url n) = Some n"
  by (auto simp: b64val_def b64char_def Let_def split: if_splits)

lemma b64char_byte: "n < 64 \<Longrightarrow> byte (b64char url n) \<noteq> 10 \<and> byte (b64char url n) \<noteq> 13 \<and> b64char url n \<noteq> CHR ''$''"
proof -
  assume "n < 64"
  then have "byte (b64char url n) \<noteq> 10 \<and> byte (b64char url n) \<noteq> 13 \<and> byte (b64char url n) \<noteq> 36"
    by (auto simp: b64char_def split: if_splits)
  then show ?thesis by fastforce
qed

lemma sextet_bounds:
  fixes a b :: nat
  assumes "a < 256" and "b < 256"
  shows "a div 4 < 64" and "a mod 4 * 16 + b div 16 < 64" and "a mod 16 * 4 + b div 64 < 64" and "a mod 64 < 64"
    and "a mod 4 * 16 < 64" and "a mod 16 * 4 < 64"
  using assms by simp_all

lemma octet_joins:
  fixes a b c :: nat
  assumes "a < 256" and "b < 256" and "c < 256"
  shows "a div 4 * 4 + (a mod 4 * 16 + b div 16) div 16 = a"
    and "(a mod 4 * 16 + b div 16) mod 16 * 16 + (b mod 16 * 4 + c div 64) div 4 = b"
    and "(b mod 16 * 4 + c div 64) mod 4 * 64 + c mod 64 = c"
    and "a div 4 * 4 + a mod 4 * 16 div 16 = a"
    and "(a mod 4 * 16 + b div 16) mod 16 * 16 + b mod 16 * 4 div 4 = b"
proof -
  have q: "b div 16 < 16" "c div 64 < 4" using assms by auto
  then have j: "(a mod 4 * 16 + b div 16) div 16 = a mod 4" "(a mod 4 * 16 + b div 16) mod 16 = b div 16"
    "(b mod 16 * 4 + c div 64) div 4 = b mod 16" "(b mod 16 * 4 + c div 64) mod 4 = c div 64"
    by simp_all
  show "a div 4 * 4 + (a mod 4 * 16 + b div 16) div 16 = a"
    and "(a mod 4 * 16 + b div 16) mod 16 * 16 + (b mod 16 * 4 + c div 64) div 4 = b"
    and "(b mod 16 * 4 + c div 64) mod 4 * 64 + c mod 64 = c"
    and "a div 4 * 4 + a mod 4 * 16 div 16 = a"
    and "(a mod 4 * 16 + b div 16) mod 16 * 16 + b mod 16 * 4 div 4 = b"
    by (simp_all only: j div_mult_mod_eq) simp_all
qed

lemma octets_sextets: "list_all (\<lambda>n. n < 256) bs \<Longrightarrow> octets (sextets bs) = Some bs"
proof (induction bs rule: sextets.induct)
  case (1 a b c r)
  then have "a < 256" "b < 256" "c < 256" "octets (sextets r) = Some r" by simp_all
  then show ?case by (simp only: sextets.simps octets.simps octet_joins [of a b c] option.map)
next
  case (2 a b)
  then have "a < 256" "b < 256" by simp_all
  then show ?case by (simp only: sextets.simps octets.simps octet_joins [of a b b])
qed simp_all

lemma sextets_less: "list_all (\<lambda>n. n < 256) bs \<Longrightarrow> list_all (\<lambda>n. n < 64) (sextets bs)"
proof (induction bs rule: sextets.induct)
  case (1 a b c r)
  then have "a < 256" "b < 256" "c < 256" "list_all (\<lambda>n. n < 64) (sextets r)" by simp_all
  then show ?case using sextet_bounds [of a b] sextet_bounds [of b c] sextet_bounds [of c c] by simp
next
  case (2 a b)
  then show ?case using sextet_bounds [of a b] sextet_bounds [of b b] by simp
next
  case (3 a)
  then show ?case using sextet_bounds [of a a] by simp
qed simp

lemma those_b64: "list_all (\<lambda>n. n < 64) vs \<Longrightarrow> those (map (b64val url) (map (b64char url) vs)) = Some vs"
  by (induction vs) simp_all

lemma b64_filter: "list_all (\<lambda>n. n < 64) vs \<Longrightarrow>
    filter (\<lambda>c. byte c \<noteq> 10 \<and> byte c \<noteq> 13) (map (b64char url) vs) = map (b64char url) vs"
  using b64char_byte by (induction vs) auto

lemma bytes_less [simp]: "list_all (\<lambda>n. n < 256) (map of_char s :: nat list)"
  by (induction s) (simp_all add: of_char_def)

lemma DecodeString_Encode [simp]: "DecodeString url (EncodeToString url s) = Inr s"
proof -
  have vs: "list_all (\<lambda>n. n < 64) (sextets (map of_char s))" by (rule sextets_less) simp
  have "map char_of (map of_char s :: nat list) = s" by (induction s) simp_all
  then show ?thesis
    by (simp only: DecodeString_def EncodeToString_def b64_filter [OF vs] those_b64 [OF vs] option.case
        octets_sextets [OF bytes_less])
qed

lemma EncodeToString_free: "CHR ''$'' \<notin> set (EncodeToString url s)"
  using sextets_less [OF bytes_less, of s] b64char_byte by (fastforce simp: EncodeToString_def list_all_iff)

lemma length_sextets: "length (sextets bs) = (4 * length bs + 2) div 3"
  by (induction bs rule: sextets.induct) auto

lemma scanDigits_itoa:
  "s = [] \<or> \<not> isDigit (hd s) \<Longrightarrow> scanDigits (itoa n @ s) = Some (n, s)"
proof -
  assume s: "s = [] \<or> \<not> isDigit (hd s)"
  have "takeWhile isDigit (itoa n @ s) = itoa n" "dropWhile isDigit (itoa n @ s) = s"
    using itoa_digits [of n] s by (cases s; simp add: takeWhile_append dropWhile_append list_all_iff)+
  then show ?thesis by (simp add: scanDigits_def)
qed

lemma skipSpace_digit: "s \<noteq> [] \<Longrightarrow> isDigit (hd s) \<Longrightarrow> skipSpace s = Some s"
  by (cases s) (auto simp: skipSpace_def stripWhile.simps newline_def isDigit_def spaceLen_printable)

lemma itoa_hd: "isDigit (hd (itoa n))"
  using itoa_digits [of n] by (cases "itoa n") simp_all

lemma scanUint_itoa:
  "n < 2 ^ bits \<Longrightarrow> s = [] \<or> \<not> isDigit (hd s) \<Longrightarrow> scanUint bits (itoa n @ s) = Some (n, s)"
  using skipSpace_digit [of "itoa n @ s"] itoa_hd [of n] by (simp add: scanUint_def scanDigits_itoa)

lemma scanLit_append [simp]: "scanLit p (p @ s) = Some s"
  by (simp add: scanLit_def)

lemma scanLit_comma [simp]: "scanLit (c # p) (c # p @ s) = Some s"
  by (simp add: scanLit_def)

lemma scanParams_text:
  assumes "m < 2 ^ 32" "t < 2 ^ 32" "p < 2 ^ 8"
  shows "scanParams (''m='' @ itoa m @ '',t='' @ itoa t @ '',p='' @ itoa p) = Some (m, t, p)"
proof -
  have "scanUint 8 (itoa p) = Some (p, [])" using scanUint_itoa [of p 8 "[]"] assms by simp
  moreover have "scanUint 32 (itoa t @ '',p='' @ itoa p) = Some (t, '',p='' @ itoa p)"
    using assms by (intro scanUint_itoa) (simp_all add: isDigit_def)
  moreover have "scanUint 32 (itoa m @ '',t='' @ itoa t @ '',p='' @ itoa p) = Some (m, '',t='' @ itoa t @ '',p='' @ itoa p)"
    using assms by (intro scanUint_itoa) (simp_all add: isDigit_def)
  ultimately show ?thesis by (simp only: scanParams_def scanLit_append bind.simps prod.case)
qed

lemma scanVersion_19: "scanVersion ''v=19'' = Some 19"
  by code_simp

definition params_ok :: "Argon2Params \<Rightarrow> bool" where
  "params_ok params \<longleftrightarrow> ap_MemoryKB params < 2 ^ 32 \<and> ap_Iterations params < 2 ^ 32 \<and> ap_Parallelism params < 2 ^ 8
     \<and> ap_SaltLength params < 2 ^ 32 \<and> ap_KeyLength params < 2 ^ 32"

lemma argonText_parts:
  "splitOn (CHR ''$'') (argonText params salt key) =
     [[], ''argon2id'', ''v=19'', ''m='' @ itoa (ap_MemoryKB params) @ '',t='' @ itoa (ap_Iterations params) @ '',p='' @ itoa (ap_Parallelism params),
      EncodeToString False salt, EncodeToString False key]"
proof -
  let ?ps = "''m='' @ itoa (ap_MemoryKB params) @ '',t='' @ itoa (ap_Iterations params) @ '',p='' @ itoa (ap_Parallelism params)"
  have "CHR ''$'' \<notin> set (itoa n)" for n using itoa_digits [of n] isDigit_not(1) by (fastforce simp: list_all_iff)
  then have "CHR ''$'' \<notin> set ?ps" by simp
  note ps = splitOn_cons [OF this]
  have "argonText params salt key =
     [] @ CHR ''$'' # ''argon2id'' @ CHR ''$'' # ''v=19'' @ CHR ''$'' # ?ps @ CHR ''$'' # EncodeToString False salt
        @ CHR ''$'' # EncodeToString False key"
    by (simp add: argonText_def)
  moreover have "splitOn (CHR ''$'') ([] @ CHR ''$'' # s) = [] # splitOn (CHR ''$'') s"
    "splitOn (CHR ''$'') (''argon2id'' @ CHR ''$'' # s) = ''argon2id'' # splitOn (CHR ''$'') s"
    "splitOn (CHR ''$'') (''v=19'' @ CHR ''$'' # s) = ''v=19'' # splitOn (CHR ''$'') s" for s
    by (rule splitOn_cons; simp)+
  ultimately show ?thesis
    by (simp only: ps splitOn_cons [OF EncodeToString_free] splitOn_free [OF EncodeToString_free])
qed

lemma decode_argonText:
  assumes "params_ok params" and "length salt = ap_SaltLength params" and "length key = ap_KeyLength params"
  shows "decodeArgon2idHash (argonText params salt key) = Inr (params, salt, key)"
  using assms
  by (simp add: decodeArgon2idHash_def argonText_parts scanVersion_19 argon2Version_def params_ok_def Let_def
      scanParams_text [simplified])

section \<open>Properties\<close>


text \<open>A stand-in for Argon2id with keys of the requested length, for the example.\<close>

definition example_idkey :: idkey where
  "example_idkey pw salt t m p n = take n (pw @ replicate n (CHR ''.''))"


text \<open>
  A session token carries at least 32 random bytes, whatever length is asked for:
  it is a URL-safe text from which exactly the random buffer is decoded, so distinct buffers give
  distinct tokens.
\<close>

theorem session_token_carries_random_bytes:
  assumes "\<And>n. \<exists>buf. randRead n = Inr buf \<and> length buf = n"
  shows "\<exists>token buf. NewSessionToken randRead n = Inr token \<and> randRead (nat (max 32 n)) = Inr buf \<and> 32 \<le> length buf
    \<and> DecodeString True token = Inr buf \<and> 43 \<le> length token"
proof -
  obtain buf where buf: "randRead (nat (max 32 n)) = Inr buf" "length buf = nat (max 32 n)" using assms by blast
  then have "32 \<le> length buf" by simp
  moreover from this have "43 \<le> length (EncodeToString True buf)" by (simp add: EncodeToString_def length_sextets)
  moreover have "(if n < 32 then 32 else n) = max 32 n" by simp
  ultimately show ?thesis using buf by (simp add: NewSessionToken_def Let_def)
qed

theorem session_token_carries_random_bytes_witness:
  "\<exists>token. NewSessionToken (\<lambda>n. Inr (replicate n (CHR ''r''))) 0 = Inr token \<and> DecodeString True token = Inr (replicate 32 (CHR ''r''))"
proof -
  have "\<exists>buf. Inr (replicate n (CHR ''r'')) = Inr buf \<and> length buf = n" for n by simp
  from session_token_carries_random_bytes [of "\<lambda>n. Inr (replicate n (CHR ''r''))" 0, OF this]
  obtain token buf where *: "NewSessionToken (\<lambda>n. Inr (replicate n (CHR ''r''))) 0 = Inr token"
    "(Inr (replicate (nat (max 32 0)) (CHR ''r'')) :: go_error + string) = Inr buf" "DecodeString True token = Inr buf"
    by (elim exE conjE)
  have "nat (max 32 0) = 32" by simp
  with *(2) have "buf = replicate 32 (CHR ''r'')" by (simp only: sum.inject)
  with *(1,3) show ?thesis by (simp only: sum.inject) blast
qed

end
