(* ===== verification/Store.thy ===== *)
theory Store
  imports Domain_Model Auth_Limit Security
begin

text \<open>
  The database the repositories talk to and the outside world of a request. A table is the list
  of its rows in insertion order; a row is the domain record of its entity where one exists, a
  nullable uuid column being the empty text when it is NULL (no uuid prints as the empty text).
  The constraints are those of \<open>db/migrations\<close>: a violated one fails with the SQLSTATE code
  the repositories look at. Everything outside the program is a parameter in the record
  \<open>env\<close>: clocks, random bytes, fresh uuids, the end of the request's context and the failures
  of the connection, each a function of a counter of interactions.
\<close>

section \<open>Tables\<close>

record session =
  se_UserID :: ID
  se_TokenHash :: string
  se_ExpiresAt :: time
  se_RevokedAt :: "time option"
  se_CreatedAt :: time

record admin_key =
  ak_UserID :: ID
  ak_TokenHash :: string
  ak_ExpiresAt :: time
  ak_UsedAt :: "time option"

record family_member =
  fm_FamilyID :: ID
  fm_UserID :: ID
  fm_Role :: FamilyRole
  fm_JoinedAt :: time

record family_invite =
  fi_FamilyID :: ID
  fi_CodeHash :: string
  fi_ExpiresAt :: "time option"
  fi_RevokedAt :: "time option"
  fi_CreatedBy :: ID
  fi_CreatedAt :: time

record history_row =
  hr_PersonID :: ID
  hr_FamilyID :: ID
  hr_PersonName :: string
  hr_GrossMonthlyIncomeCents :: int64
  hr_ExpectedFutureIncomeCents :: int64
  hr_RecordedAt :: time

record criterion_row =
  cr_Criterion :: HousingCriterion
  cr_DeletedAt :: "time option"

record answer_row =
  ar_Answer :: HousingAnswer
  ar_FamilyID :: ID

record database =
  db_users :: "User list"
  db_sessions :: "session list"
  db_admin_access_keys :: "admin_key list"
  db_families :: "Family list"
  db_family_members :: "family_member list"
  db_family_invites :: "family_invite list"
  db_person_profiles :: "PersonProfile list"
  db_person_income_history :: "history_row list"
  db_housing_groups :: "HousingGroup list"
  db_housing_options :: "HousingOption list"
  db_criteria :: "criterion_row list"
  db_answers :: "answer_row list"

section \<open>The outside world\<close>

text \<open>A statement may fail without taking effect, or take effect while its answer is lost.\<close>

datatype fault = Refused db_error | Lost db_error

record env =
  clock_at :: "nat \<Rightarrow> time"
  uuid_at :: "nat \<Rightarrow> ID"
  rand_at :: "nat \<Rightarrow> nat \<Rightarrow> go_error + string"
  ctx_at :: "nat \<Rightarrow> ctx_error option"
  fault_at :: "nat \<Rightarrow> fault option"
  uuid_in :: "string \<Rightarrow> ID option"
  uni_lower :: "string \<Rightarrow> string"
  collate_le :: "string \<Rightarrow> string \<Rightarrow> bool"
  sha256 :: "string \<Rightarrow> string"
  argon2_IDKey :: idkey

record world =
  wo_db :: database
  wo_tick :: nat
  wo_limits :: Limiter

type_synonym ('e, 'a) io = "(world, 'e, 'a) prog"

definition nowP :: "env \<Rightarrow> ('e, time) io" where
  "nowP e w = (Inr (clock_at e (wo_tick w)), w\<lparr>wo_tick := Suc (wo_tick w)\<rparr>)"

definition randP :: "env \<Rightarrow> nat \<Rightarrow> (go_error, string) io" where
  "randP e n w = (rand_at e (wo_tick w) n, w\<lparr>wo_tick := Suc (wo_tick w)\<rparr>)"

definition ctxErr :: "env \<Rightarrow> ('e, ctx_error option) io" where
  "ctxErr e w = (Inr (ctx_at e (wo_tick w)), w\<lparr>wo_tick := Suc (wo_tick w)\<rparr>)"

section \<open>Statements\<close>

text \<open>A statement sees the number of the interaction it is and the tables, and answers with an
  error, the tables untouched, or with its result and the new tables.\<close>

type_synonym 'a stmt = "nat \<Rightarrow> database \<Rightarrow> db_error + ('a \<times> database)"

definition bindS :: "'e + 'a \<Rightarrow> ('a \<Rightarrow> 'e + 'b) \<Rightarrow> 'e + 'b" where
  "bindS r f = (case r of Inl err \<Rightarrow> Inl err | Inr x \<Rightarrow> f x)"

definition sql :: "env \<Rightarrow> 'a stmt \<Rightarrow> (db_error, 'a) io" where
  "sql e st w =
     (let n = wo_tick w; w' = w\<lparr>wo_tick := Suc n\<rparr>
      in case fault_at e n of
           Some (Refused err) \<Rightarrow> (Inl err, w')
         | Some (Lost err) \<Rightarrow>
             (case st n (wo_db w) of Inl _ \<Rightarrow> (Inl err, w') | Inr (x, d) \<Rightarrow> (Inl err, w'\<lparr>wo_db := d\<rparr>))
         | None \<Rightarrow> (case st n (wo_db w) of Inl err' \<Rightarrow> (Inl err', w') | Inr (x, d) \<Rightarrow> (Inr x, w'\<lparr>wo_db := d\<rparr>)))"

definition normalizeError :: "db_error \<Rightarrow> go_error" where
  "normalizeError err =
     (case err of
        ErrNoRows \<Rightarrow> ErrNotFound
      | PgError code msg \<Rightarrow>
          if code = ''23505'' then ErrConflict
          else if code \<in> {''22P02'', ''23502'', ''23503'', ''23514''} then ErrInvalidArgument
          else DbError err
      | DbCtx c \<Rightarrow> CtxError c
      | DbOther msg \<Rightarrow> DbError err)"

definition query :: "env \<Rightarrow> 'a stmt \<Rightarrow> (go_error, 'a) io" where
  "query e st = mapErr normalizeError (sql e st)"

text \<open>\<open>pool.Begin\<close>, the statements of \<open>body\<close>, \<open>Commit\<close>, and the deferred
  \<open>Rollback\<close>, which restores the tables unless the commit has succeeded. \<open>now()\<close> is the
  start of the transaction, the value \<open>body\<close> receives.\<close>

definition transaction :: "env \<Rightarrow> (time \<Rightarrow> (go_error, 'a) io) \<Rightarrow> (go_error, 'a) io" where
  "transaction e body w =
     (case query e (\<lambda>n d. Inr (clock_at e n, d)) w of
        (Inl err, w1) \<Rightarrow> (Inl err, w1)
      | (Inr t, w1) \<Rightarrow>
          (case body t w1 of
             (Inl err, w2) \<Rightarrow> (Inl err, w2\<lparr>wo_db := wo_db w1\<rparr>)
           | (Inr x, w2) \<Rightarrow>
               (let w3 = w2\<lparr>wo_tick := Suc (wo_tick w2)\<rparr>
                in case fault_at e (wo_tick w2) of
                     Some (Refused err) \<Rightarrow> (Inl (normalizeError err), w3\<lparr>wo_db := wo_db w1\<rparr>)
                   | Some (Lost err) \<Rightarrow> (Inl (normalizeError err), w3)
                   | None \<Rightarrow> (Inr x, w3))))"

section \<open>Values\<close>

definition castUUID :: "env \<Rightarrow> string \<Rightarrow> db_error + ID" where
  "castUUID e s = (case uuid_in e s of
     None \<Rightarrow> Inl (PgError ''22P02'' (''invalid input syntax for type uuid: '' @ s)) | Some u \<Rightarrow> Inr u)"

text \<open>\<open>NULLIF($n, '')::uuid\<close>.\<close>

definition castUUIDOpt :: "env \<Rightarrow> string \<Rightarrow> db_error + ID" where
  "castUUIDOpt e s = (if s = [] then Inr [] else castUUID e s)"

definition castInt4 :: "int \<Rightarrow> db_error + int32" where
  "castInt4 i = (if in32 i then Inr i else Inl (DbOther ''value out of range for int4''))"

text \<open>Timestamps have a resolution of one microsecond.\<close>

definition pgTime :: "time \<Rightarrow> time" where
  "pgTime t = t div 1000 * 1000"

definition optionalDateString :: "date option \<Rightarrow> string option" where
  "optionalDateString t = map_option format_date t"

text \<open>The calendar of the database has no year 0.\<close>

definition castDate :: "string option \<Rightarrow> db_error + date option" where
  "castDate s = (case s of None \<Rightarrow> Inr None
     | Some txt \<Rightarrow> (case parse_date txt of
          None \<Rightarrow> Inl (PgError ''22007'' ''invalid input syntax for type date'')
        | Some d \<Rightarrow> if d_year d = 0 then Inl (PgError ''22008'' ''date/time field value out of range'') else Inr (Some d)))"

definition parseOptionalDate :: "string option \<Rightarrow> date option" where
  "parseOptionalDate v = (case v of None \<Rightarrow> None | Some s \<Rightarrow> if blank s then None else parse_date s)"

definition checkS :: "bool \<Rightarrow> string \<Rightarrow> string \<Rightarrow> db_error + unit" where
  "checkS ok code msg = (if ok then Inr () else Inl (PgError code msg))"

definition dbNow :: "env \<Rightarrow> nat \<Rightarrow> time" where
  "dbNow e n = pgTime (clock_at e n)"

section \<open>Rows\<close>

text \<open>\<open>ORDER BY\<close> as a stable sort; rows that compare equal keep the order of the table.\<close>

fun insertBy :: "('a \<Rightarrow> 'a \<Rightarrow> bool) \<Rightarrow> 'a \<Rightarrow> 'a list \<Rightarrow> 'a list" where
  "insertBy le x [] = [x]"
| "insertBy le x (y # ys) = (if le x y then x # y # ys else y # insertBy le x ys)"

definition orderBy :: "('a \<Rightarrow> 'a \<Rightarrow> bool) \<Rightarrow> 'a list \<Rightarrow> 'a list" where
  "orderBy le xs = foldr (insertBy le) xs []"

fun textLE :: "string \<Rightarrow> string \<Rightarrow> bool" where
  "textLE [] t = True"
| "textLE (a # s) [] = False"
| "textLE (a # s) (b # t) = (byte a < byte b \<or> (a = b \<and> textLE s t))"

text \<open>\<open>QueryRow(...).Scan\<close> takes the first row or reports that there is none.\<close>

definition firstRow :: "'a list \<Rightarrow> db_error + 'a" where
  "firstRow rows = (case rows of [] \<Rightarrow> Inl ErrNoRows | r # _ \<Rightarrow> Inr r)"

definition updateRows :: "('a \<Rightarrow> bool) \<Rightarrow> ('a \<Rightarrow> 'a) \<Rightarrow> 'a list \<Rightarrow> 'a list" where
  "updateRows P f rows = map (\<lambda>r. if P r then f r else r) rows"

section \<open>Roles\<close>

definition memberRole :: "database \<Rightarrow> ID \<Rightarrow> ID \<Rightarrow> FamilyRole option" where
  "memberRole d family user =
     map_option fm_Role (find (\<lambda>m. fm_FamilyID m = family \<and> fm_UserID m = user) (db_family_members d))"

definition isMember :: "database \<Rightarrow> ID \<Rightarrow> ID \<Rightarrow> bool" where
  "isMember d family user \<longleftrightarrow> list_ex (\<lambda>m. fm_FamilyID m = family \<and> fm_UserID m = user) (db_family_members d)"

definition isWriter :: "database \<Rightarrow> ID \<Rightarrow> ID \<Rightarrow> bool" where
  "isWriter d family user \<longleftrightarrow>
     list_ex (\<lambda>m. fm_FamilyID m = family \<and> fm_UserID m = user \<and> fm_Role m \<in> {''owner'', ''admin'', ''member''}) (db_family_members d)"

definition isManager :: "database \<Rightarrow> ID \<Rightarrow> ID \<Rightarrow> bool" where
  "isManager d family user \<longleftrightarrow>
     list_ex (\<lambda>m. fm_FamilyID m = family \<and> fm_UserID m = user \<and> fm_Role m \<in> {''owner'', ''admin''}) (db_family_members d)"

section \<open>Access checks\<close>

definition hasFamilyAccess :: "env \<Rightarrow> ID \<Rightarrow> ID \<Rightarrow> (go_error, bool) io" where
  "hasFamilyAccess e userID familyID =
     (if blank userID \<or> blank familyID then throwP ErrInvalidArgument
      else query e (\<lambda>n d. bindS (castUUID e familyID) (\<lambda>f. bindS (castUUID e userID) (\<lambda>u. Inr (isMember d f u, d)))))"

definition assertFamilyWriter :: "env \<Rightarrow> ID \<Rightarrow> ID \<Rightarrow> (go_error, unit) io" where
  "assertFamilyWriter e userID familyID =
     (if blank userID \<or> blank familyID then throwP ErrInvalidArgument
      else bindP (query e (\<lambda>n d. bindS (castUUID e familyID) (\<lambda>f. bindS (castUUID e userID) (\<lambda>u. Inr (isWriter d f u, d)))))
             (\<lambda>hasWriterRole. if \<not> hasWriterRole then throwP ErrForbidden else retP ()))"

section \<open>Laws\<close>

lemma bindS_simps [simp]: "bindS (Inl err) f = Inl err" "bindS (Inr x) f = f x"
  by (simp_all add: bindS_def)

lemma bindS_Inr: "bindS r f = Inr y \<longleftrightarrow> (\<exists>x. r = Inr x \<and> f x = Inr y)"
  by (cases r) simp_all

lemma checkS_Inr [simp]: "checkS ok c m = Inr u \<longleftrightarrow> ok"
  by (simp add: checkS_def)

lemma firstRow_Inr: "firstRow rows = Inr r \<longleftrightarrow> (\<exists>rest. rows = r # rest)"
  by (cases rows) (simp_all add: firstRow_def)

lemma mset_insertBy [simp]: "mset (insertBy le x ys) = add_mset x (mset ys)"
  by (induction ys) auto

lemma mset_orderBy [simp]: "mset (orderBy le xs) = mset xs"
  by (induction xs) (simp_all add: orderBy_def)

lemma set_orderBy [simp]: "set (orderBy le xs) = set xs"
  by (metis mset_orderBy set_mset_mset)

lemma length_orderBy [simp]: "length (orderBy le xs) = length xs"
  by (metis mset_orderBy size_mset)

lemma textLE_refl [simp]: "textLE s s"
  by (induction s) simp_all

lemma textLE_total: "textLE s t \<or> textLE t s"
  by (induction s t rule: textLE.induct) auto

lemma textLE_antisym: "textLE s t \<Longrightarrow> textLE t s \<Longrightarrow> s = t"
  by (induction s t rule: textLE.induct) (auto elim: textLE.elims)

lemma textLE_trans: "textLE s t \<Longrightarrow> textLE t u \<Longrightarrow> textLE s u"
proof (induction s t arbitrary: u rule: textLE.induct)
  case (3 a s b t)
  then show ?case by (cases u) auto
qed auto

lemma insertBy_sorted:
  assumes "\<And>x y. le x y \<or> le y x" and "\<And>x y z. le x y \<Longrightarrow> le y z \<Longrightarrow> le x z" and "sorted_wrt le ys"
  shows "sorted_wrt le (insertBy le x ys)"
  using assms(3)
proof (induction ys)
  case (Cons y ys)
  have "set (insertBy le x ys) = insert x (set ys)" by (metis mset_insertBy set_mset_mset set_mset_add_mset_insert)
  with Cons assms(1,2) show ?case by auto
qed simp

lemma orderBy_sorted:
  assumes "\<And>x y. le x y \<or> le y x" and "\<And>x y z. le x y \<Longrightarrow> le y z \<Longrightarrow> le x z"
  shows "sorted_wrt le (orderBy le xs)"
  by (induction xs) (simp_all add: orderBy_def insertBy_sorted assms)

lemma updateRows_simps [simp]: "updateRows P f [] = []" "updateRows P f (r # rs) = (if P r then f r else r) # updateRows P f rs"
  by (simp_all add: updateRows_def)

lemma map_updateRows: "(\<And>r. P r \<Longrightarrow> g (f r) = g r) \<Longrightarrow> map g (updateRows P f rows) = map g rows"
  by (induction rows) simp_all

lemma filter_updateRows: "(\<And>r. P r \<Longrightarrow> \<not> Q r \<and> \<not> Q (f r)) \<Longrightarrow> filter Q (updateRows P f rows) = filter Q rows"
  by (induction rows) auto

lemma manager_writer: "isManager d f u \<Longrightarrow> isWriter d f u"
  by (auto simp: isManager_def isWriter_def list_ex_iff)

lemma writer_member: "isWriter d f u \<Longrightarrow> isMember d f u"
  by (auto simp: isMember_def isWriter_def list_ex_iff)

lemma sql_Inr:
  assumes "sql e st w = (Inr x, w')"
  obtains d where "st (wo_tick w) (wo_db w) = Inr (x, d)" "w' = w\<lparr>wo_tick := Suc (wo_tick w), wo_db := d\<rparr>"
  using assms by (auto simp: sql_def Let_def split: option.splits fault.splits sum.splits prod.splits)

lemma query_Inr:
  assumes "query e st w = (Inr x, w')"
  obtains d where "st (wo_tick w) (wo_db w) = Inr (x, d)" "w' = w\<lparr>wo_tick := Suc (wo_tick w), wo_db := d\<rparr>"
  using assms unfolding query_def mapErr_Inr by (rule sql_Inr)

lemma query_InrD: "query e st w = (Inr x, w') \<Longrightarrow> st (wo_tick w) (wo_db w) = Inr (x, wo_db w')"
  by (erule query_Inr) simp

text \<open>Whatever a statement answers, the tables are those before it or those it has produced.\<close>

lemma sql_tables:
  assumes "sql e st w = (r, w')"
  shows "wo_db w' = wo_db w \<or> (\<exists>x d. st (wo_tick w) (wo_db w) = Inr (x, d) \<and> wo_db w' = d)"
    and "wo_limits w' = wo_limits w" and "wo_tick w' = Suc (wo_tick w)"
  using assms by (auto simp: sql_def Let_def split: option.splits fault.splits sum.splits prod.splits)

lemma preserves_sql:
  assumes "\<And>d. R d d" and "\<And>n d x d'. st n d = Inr (x, d') \<Longrightarrow> R d d'"
  shows "preserves (\<lambda>w w'. R (wo_db w) (wo_db w')) (sql e st)"
  unfolding preserves_def
proof
  fix w
  obtain r w' where r: "sql e st w = (r, w')" by fastforce
  from sql_tables(1) [OF r] assms show "R (wo_db w) (wo_db (snd (sql e st w)))" by (auto simp: r)
qed

lemma preserves_query:
  assumes "\<And>d. R d d" and "\<And>n d x d'. st n d = Inr (x, d') \<Longrightarrow> R d d'"
  shows "preserves (\<lambda>w w'. R (wo_db w) (wo_db w')) (query e st)"
  unfolding query_def by (intro preserves_mapErr preserves_sql assms)

lemma mapErr_snd [simp]: "snd (mapErr g m w) = snd (m w)"
  by (auto simp: mapErr_def split: prod.splits sum.splits)

lemma frame_rel_db: "frame_rel R \<Longrightarrow> frame_rel (\<lambda>w w'. R (wo_db w) (wo_db w'))"
  unfolding frame_rel_def by blast

lemma preserves_transaction:
  assumes R: "frame_rel R" and body: "\<And>t. preserves (\<lambda>w w'. R (wo_db w) (wo_db w')) (body t)"
  shows "preserves (\<lambda>w w'. R (wo_db w) (wo_db w')) (transaction e body)"
  unfolding preserves_def
proof
  fix w
  have refl: "R d d" for d using R by (simp add: frame_rel_def)
  obtain r w1 where q: "query e (\<lambda>n d. Inr (clock_at e n, d)) w = (r, w1)" by fastforce
  have "preserves (\<lambda>w w'. wo_db w' = wo_db w) (query e (\<lambda>n d. Inr (clock_at e n, d)))"
    by (rule preserves_query [where R = "\<lambda>d d'. d' = d"]) simp_all
  from preservesD [OF this q] have db1: "wo_db w1 = wo_db w" .
  show "R (wo_db w) (wo_db (snd (transaction e body w)))"
  proof (cases r)
    case (Inl err)
    then show ?thesis using refl by (simp add: transaction_def q db1)
  next
    case (Inr t)
    obtain r2 w2 where b: "body t w1 = (r2, w2)" by fastforce
    from preservesD [OF body b] have "R (wo_db w) (wo_db w2)" by (simp add: db1)
    then show ?thesis
      using refl by (simp add: transaction_def q Inr b db1 Let_def split: sum.splits option.splits fault.splits)
  qed
qed

lemma preserves_nowP [preserve_rules]: "frame_rel R \<Longrightarrow> preserves (\<lambda>w w'. R (wo_db w) (wo_db w')) (nowP e)"
  by (simp add: preserves_def frame_rel_def nowP_def)

lemma preserves_randP [preserve_rules]: "frame_rel R \<Longrightarrow> preserves (\<lambda>w w'. R (wo_db w) (wo_db w')) (randP e n)"
  by (simp add: preserves_def frame_rel_def randP_def)

lemma preserves_ctxErr [preserve_rules]: "frame_rel R \<Longrightarrow> preserves (\<lambda>w w'. R (wo_db w) (wo_db w')) (ctxErr e)"
  by (simp add: preserves_def frame_rel_def ctxErr_def)

end
