(* ===== verification/Repo_Users.thy ===== *)
theory Repo_Users
  imports Store
begin

text \<open>
  \<open>internal/repository/postgres/users.go\<close>: accounts, sessions and admin access keys, one
  definition per method, each with its SQL statement on the tables. The lemmas show that every
  method keeps the keys of the tables unique, and what sessions and access keys allow.
\<close>

section \<open>Operations\<close>

definition scanUserRow :: "User \<Rightarrow> User" where
  "scanUserRow row = \<lparr>us_ID = us_ID row, us_Email = us_Email row, us_DisplayName = us_DisplayName row, us_Role = us_Role row,
     us_PasswordHash = us_PasswordHash row, us_MustChangePassword = us_MustChangePassword row,
     us_DisabledAt = us_DisabledAt row, us_CreatedAt = us_CreatedAt row, us_UpdatedAt = us_UpdatedAt row\<rparr>"

definition repoCreateUser :: "env \<Rightarrow> User \<Rightarrow> (go_error, User) io" where
  "repoCreateUser e user = query e (\<lambda>n d.
     let row = \<lparr>us_ID = uuid_at e n, us_Email = us_Email user, us_DisplayName = us_DisplayName user, us_Role = us_Role user,
                us_PasswordHash = us_PasswordHash user, us_MustChangePassword = us_MustChangePassword user,
                us_DisabledAt = None, us_CreatedAt = dbNow e n, us_UpdatedAt = dbNow e n\<rparr>
     in bindS (checkS (us_Role row \<in> {''admin'', ''user''}) ''23514'' ''users_role_check'') (\<lambda>_.
        bindS (checkS (us_ID row \<notin> us_ID ` set (db_users d) \<and> us_Email row \<notin> us_Email ` set (db_users d)) ''23505'' ''users_key'') (\<lambda>_.
        Inr (scanUserRow row, d\<lparr>db_users := db_users d @ [row]\<rparr>))))"

definition repoListUsers :: "env \<Rightarrow> (go_error, User list) io" where
  "repoListUsers e = query e (\<lambda>n d.
     Inr (map scanUserRow (orderBy (\<lambda>u v. us_CreatedAt v < us_CreatedAt u
       \<or> (us_CreatedAt u = us_CreatedAt v \<and> collate_le e (us_Email u) (us_Email v))) (db_users d)), d))"

definition repoGetUserByEmail :: "env \<Rightarrow> string \<Rightarrow> (go_error, User) io" where
  "repoGetUserByEmail e email = query e (\<lambda>n d.
     bindS (firstRow (filter (\<lambda>u. us_Email u = toLower (uni_lower e) (trimSpace email)) (db_users d))) (\<lambda>u.
     Inr (scanUserRow u, d)))"

definition repoGetUserByID :: "env \<Rightarrow> ID \<Rightarrow> (go_error, User) io" where
  "repoGetUserByID e userID = query e (\<lambda>n d.
     bindS (castUUID e userID) (\<lambda>uid.
     bindS (firstRow (filter (\<lambda>u. us_ID u = uid) (db_users d))) (\<lambda>u.
     Inr (scanUserRow u, d))))"

definition repoHasActiveAdmin :: "env \<Rightarrow> (go_error, bool) io" where
  "repoHasActiveAdmin e = query e (\<lambda>n d.
     Inr (list_ex (\<lambda>u. us_Role u = ''admin'' \<and> us_DisabledAt u = None) (db_users d), d))"

text \<open>\<open>UPDATE users ... WHERE id = $1::uuid RETURNING ...\<close> with the row change \<open>f\<close>.\<close>

definition repoPromoteToBootstrapAdmin :: "env \<Rightarrow> ID \<Rightarrow> string \<Rightarrow> string \<Rightarrow> (go_error, User) io" where
  "repoPromoteToBootstrapAdmin e userID displayName passwordHash = query e (\<lambda>n d.
     bindS (castUUID e userID) (\<lambda>uid.
     let f = (\<lambda>u. u\<lparr>us_Role := ''admin'',
                us_DisplayName := (if trimSpace displayName = [] then us_DisplayName u else trimSpace displayName),
                us_PasswordHash := passwordHash, us_MustChangePassword := True, us_DisabledAt := None, us_UpdatedAt := dbNow e n\<rparr>)
     in bindS (firstRow (filter (\<lambda>u. us_ID u = uid) (db_users d))) (\<lambda>u.
        Inr (scanUserRow (f u), d\<lparr>db_users := updateRows (\<lambda>u. us_ID u = uid) f (db_users d)\<rparr>))))"

definition repoDisableUser :: "env \<Rightarrow> ID \<Rightarrow> (go_error, unit) io" where
  "repoDisableUser e userID =
     bindP (query e (\<lambda>n d.
       bindS (castUUID e userID) (\<lambda>uid.
       Inr (length (filter (\<lambda>u. us_ID u = uid) (db_users d)),
            d\<lparr>db_users := updateRows (\<lambda>u. us_ID u = uid)
                 (\<lambda>u. u\<lparr>us_DisabledAt := Some (dbNow e n), us_UpdatedAt := dbNow e n\<rparr>) (db_users d)\<rparr>))))
       (\<lambda>rows. if rows = 0 then throwP ErrNotFound else retP ())"

definition repoCreateSession :: "env \<Rightarrow> ID \<Rightarrow> string \<Rightarrow> time \<Rightarrow> (go_error, unit) io" where
  "repoCreateSession e userID tokenHash expiresAt = query e (\<lambda>n d.
     bindS (castUUID e userID) (\<lambda>uid.
     bindS (checkS (tokenHash \<notin> se_TokenHash ` set (db_sessions d)) ''23505'' ''sessions_token_hash_key'') (\<lambda>_.
     bindS (checkS (uid \<in> us_ID ` set (db_users d)) ''23503'' ''sessions_user_id_fkey'') (\<lambda>_.
     Inr ((), d\<lparr>db_sessions := db_sessions d @ [\<lparr>se_UserID = uid, se_TokenHash = tokenHash, se_ExpiresAt = pgTime expiresAt,
                   se_RevokedAt = None, se_CreatedAt = dbNow e n\<rparr>]\<rparr>)))))"

definition repoUpdateUserPassword :: "env \<Rightarrow> ID \<Rightarrow> string \<Rightarrow> bool \<Rightarrow> (go_error, unit) io" where
  "repoUpdateUserPassword e userID passwordHash mustChangePassword =
     bindP (query e (\<lambda>n d.
       bindS (castUUID e userID) (\<lambda>uid.
       Inr (length (filter (\<lambda>u. us_ID u = uid) (db_users d)),
            d\<lparr>db_users := updateRows (\<lambda>u. us_ID u = uid)
                 (\<lambda>u. u\<lparr>us_PasswordHash := passwordHash, us_MustChangePassword := mustChangePassword, us_UpdatedAt := dbNow e n\<rparr>)
                 (db_users d)\<rparr>))))
       (\<lambda>rows. if rows = 0 then throwP ErrNotFound else retP ())"

definition repoUpdateUserAccount :: "env \<Rightarrow> ID \<Rightarrow> string \<Rightarrow> string \<Rightarrow> (go_error, User) io" where
  "repoUpdateUserAccount e userID email displayName = query e (\<lambda>n d.
     bindS (castUUID e userID) (\<lambda>uid.
     let email' = toLower (uni_lower e) (trimSpace email);
         f = (\<lambda>u. u\<lparr>us_Email := email', us_DisplayName := trimSpace displayName, us_UpdatedAt := dbNow e n\<rparr>)
     in bindS (firstRow (filter (\<lambda>u. us_ID u = uid) (db_users d))) (\<lambda>u.
        bindS (checkS (\<not> list_ex (\<lambda>v. us_ID v \<noteq> uid \<and> us_Email v = email') (db_users d)) ''23505'' ''users_email_key'') (\<lambda>_.
        Inr (scanUserRow (f u), d\<lparr>db_users := updateRows (\<lambda>u. us_ID u = uid) f (db_users d)\<rparr>)))))"

definition repoCreateAdminAccessKey :: "env \<Rightarrow> ID \<Rightarrow> string \<Rightarrow> time \<Rightarrow> (go_error, unit) io" where
  "repoCreateAdminAccessKey e userID tokenHash expiresAt = query e (\<lambda>n d.
     bindS (castUUID e userID) (\<lambda>uid.
     bindS (checkS (tokenHash \<notin> ak_TokenHash ` set (db_admin_access_keys d)) ''23505'' ''admin_access_keys_token_hash_key'') (\<lambda>_.
     bindS (checkS (uid \<in> us_ID ` set (db_users d)) ''23503'' ''admin_access_keys_user_id_fkey'') (\<lambda>_.
     Inr ((), d\<lparr>db_admin_access_keys := db_admin_access_keys d @
       [\<lparr>ak_UserID = uid, ak_TokenHash = tokenHash, ak_ExpiresAt = pgTime expiresAt, ak_UsedAt = None\<rparr>]\<rparr>)))))"

definition usableKey :: "ID \<Rightarrow> string \<Rightarrow> time \<Rightarrow> admin_key \<Rightarrow> bool" where
  "usableKey uid tokenHash now k \<longleftrightarrow> ak_UserID k = uid \<and> ak_TokenHash k = tokenHash \<and> ak_UsedAt k = None \<and> pgTime now < ak_ExpiresAt k"

definition repoConsumeAdminAccessKey :: "env \<Rightarrow> ID \<Rightarrow> string \<Rightarrow> time \<Rightarrow> (go_error, bool) io" where
  "repoConsumeAdminAccessKey e userID tokenHash now = query e (\<lambda>n d.
     bindS (castUUID e userID) (\<lambda>uid.
     Inr (0 < length (filter (usableKey uid tokenHash now) (db_admin_access_keys d)),
          d\<lparr>db_admin_access_keys := updateRows (usableKey uid tokenHash now) (\<lambda>k. k\<lparr>ak_UsedAt := Some (pgTime now)\<rparr>)
               (db_admin_access_keys d)\<rparr>)))"

definition liveSession :: "string \<Rightarrow> time \<Rightarrow> session \<Rightarrow> bool" where
  "liveSession tokenHash now s \<longleftrightarrow> se_TokenHash s = tokenHash \<and> se_RevokedAt s = None \<and> pgTime now < se_ExpiresAt s"

definition repoGetUserBySessionTokenHash :: "env \<Rightarrow> string \<Rightarrow> time \<Rightarrow> (go_error, User) io" where
  "repoGetUserBySessionTokenHash e tokenHash now = query e (\<lambda>n d.
     let joined = concat (map (\<lambda>s. map (\<lambda>u. (s, u)) (filter (\<lambda>u. us_ID u = se_UserID s) (db_users d)))
                   (filter (liveSession tokenHash now) (db_sessions d)))
     in bindS (firstRow (orderBy (\<lambda>(s, u) (s', u'). se_CreatedAt s' \<le> se_CreatedAt s) joined)) (\<lambda>(s, u).
        Inr (scanUserRow u, d)))"

definition repoRevokeSessionsByUserID :: "env \<Rightarrow> ID \<Rightarrow> (go_error, unit) io" where
  "repoRevokeSessionsByUserID e userID = query e (\<lambda>n d.
     bindS (castUUID e userID) (\<lambda>uid.
     Inr ((), d\<lparr>db_sessions := updateRows (\<lambda>s. se_UserID s = uid \<and> se_RevokedAt s = None)
                  (\<lambda>s. s\<lparr>se_RevokedAt := Some (dbNow e n)\<rparr>) (db_sessions d)\<rparr>)))"

section \<open>The integrity of the tables\<close>

definition users_inv :: "database \<Rightarrow> bool" where
  "users_inv d \<longleftrightarrow> distinct (map us_ID (db_users d)) \<and> distinct (map us_Email (db_users d))
     \<and> (\<forall>u\<in>set (db_users d). us_Role u \<in> {''admin'', ''user''})
     \<and> distinct (map se_TokenHash (db_sessions d)) \<and> (\<forall>s\<in>set (db_sessions d). se_UserID s \<in> us_ID ` set (db_users d))
     \<and> distinct (map ak_TokenHash (db_admin_access_keys d)) \<and> (\<forall>k\<in>set (db_admin_access_keys d). ak_UserID k \<in> us_ID ` set (db_users d))"

abbreviation keeps :: "(database \<Rightarrow> bool) \<Rightarrow> ('e, 'a) io \<Rightarrow> bool" where
  "keeps I m \<equiv> preserves (\<lambda>w w'. I (wo_db w) \<longrightarrow> I (wo_db w')) m"

lemma keeps_query:
  "(\<And>n d x d'. st n d = Inr (x, d') \<Longrightarrow> I d \<Longrightarrow> I d') \<Longrightarrow> keeps I (query e st)"
  by (rule preserves_query) auto

lemma set_updateRows_image: "(\<And>r. P r \<Longrightarrow> g (f r) = g r) \<Longrightarrow> g ` set (updateRows P f rows) = g ` set rows"
  by (metis list.set_map map_updateRows)

lemma in_updateRows: "x \<in> set (updateRows P f rows) \<Longrightarrow> (x \<in> set rows \<and> \<not> P x) \<or> (\<exists>r\<in>set rows. P r \<and> x = f r)"
  by (auto simp: updateRows_def split: if_splits)

lemma users_inv_update:
  assumes "users_inv d" and "\<And>u. us_ID (f u) = us_ID u" and "\<And>u. us_Role (f u) \<in> {us_Role u, ''admin''}"
    and "distinct (map us_Email (updateRows P f (db_users d)))"
  shows "users_inv (d\<lparr>db_users := updateRows P f (db_users d)\<rparr>)"
proof -
  have roles: "\<forall>u\<in>set (updateRows P f (db_users d)). us_Role u \<in> {''admin'', ''user''}"
  proof
    fix u assume "u \<in> set (updateRows P f (db_users d))"
    from in_updateRows [OF this] obtain r where "r \<in> set (db_users d)" "u = r \<or> u = f r" by blast
    with assms(1) assms(3) [of r] show "us_Role u \<in> {''admin'', ''user''}" unfolding users_inv_def by auto
  qed
  have ids: "map us_ID (updateRows P f (db_users d)) = map us_ID (db_users d)"
    "us_ID ` set (updateRows P f (db_users d)) = us_ID ` set (db_users d)"
    using assms(2) by (simp_all add: map_updateRows set_updateRows_image)
  show ?thesis
    using assms(1,4) roles unfolding users_inv_def by (simp add: ids del: insert_iff)
qed

lemma users_inv_update_email:
  assumes "users_inv d" and "\<And>u. us_ID (f u) = us_ID u" and "\<And>u. us_Role (f u) \<in> {us_Role u, ''admin''}"
    and "\<And>u. us_Email (f u) = us_Email u"
  shows "users_inv (d\<lparr>db_users := updateRows P f (db_users d)\<rparr>)"
  using assms by (intro users_inv_update) (simp_all add: map_updateRows users_inv_def)

lemma distinct_email_update:
  assumes "distinct (map us_ID us)" and "distinct (map us_Email us)" and "\<forall>v\<in>set us. us_ID v \<noteq> uid \<longrightarrow> us_Email v \<noteq> em"
    and "\<And>u. us_Email (f u) = em"
  shows "distinct (map us_Email (updateRows (\<lambda>u. us_ID u = uid) f us))"
  using assms(1-3)
proof (induction us)
  case (Cons u us)
  have *: "us_Email ` set (updateRows (\<lambda>u. us_ID u = uid) f us) \<subseteq> insert em (us_Email ` set us)"
    using assms(4) by (auto simp: updateRows_def)
  have id: "updateRows (\<lambda>u. us_ID u = uid) f us = us" if "us_ID u = uid"
    using Cons.prems(1) that unfolding updateRows_def by (intro map_idI) (metis distinct.simps(2) image_eqI list.set_map list.simps(9))
  show ?case
  proof (cases "us_ID u = uid")
    case True
    have "\<forall>v\<in>set us. us_ID v \<noteq> uid"
      using Cons.prems(1) True by (metis distinct.simps(2) image_eqI list.set_map list.simps(9))
    with Cons.prems(3) have "em \<notin> us_Email ` set us" by auto
    with True Cons id assms(4) show ?thesis by simp
  next
    case False
    with Cons * show ?thesis by auto
  qed
qed simp

lemma ball_image_eq:
  assumes "map g xs = map g ys"
  shows "(\<forall>x\<in>set xs. g x \<in> A) \<longleftrightarrow> (\<forall>y\<in>set ys. g y \<in> A)"
proof -
  have "g ` set xs = g ` set ys" using assms by (metis list.set_map)
  then show ?thesis by (simp only: image_subset_iff [symmetric])
qed

lemma users_inv_sessions:
  assumes "users_inv d" and "map se_TokenHash ss = map se_TokenHash (db_sessions d)" "map se_UserID ss = map se_UserID (db_sessions d)"
  shows "users_inv (d\<lparr>db_sessions := ss\<rparr>)"
  using assms(1) ball_image_eq [OF assms(3)] by (simp add: users_inv_def assms(2))

lemma users_inv_keys:
  assumes "users_inv d" and "map ak_TokenHash ks = map ak_TokenHash (db_admin_access_keys d)"
    "map ak_UserID ks = map ak_UserID (db_admin_access_keys d)"
  shows "users_inv (d\<lparr>db_admin_access_keys := ks\<rparr>)"
  using assms(1) ball_image_eq [OF assms(3)] by (simp add: users_inv_def assms(2))

lemma keeps_CreateUser: "keeps users_inv (repoCreateUser e user)"
  unfolding repoCreateUser_def
  by (rule keeps_query) (auto simp: Let_def bindS_Inr users_inv_def)

lemma keeps_reads:
  "keeps I (repoListUsers e)" "keeps I (repoGetUserByEmail e email)" "keeps I (repoGetUserByID e uid)"
  "keeps I (repoHasActiveAdmin e)" "keeps I (repoGetUserBySessionTokenHash e tok now)"
  unfolding repoListUsers_def repoGetUserByEmail_def repoGetUserByID_def repoHasActiveAdmin_def repoGetUserBySessionTokenHash_def
  by (rule keeps_query; auto simp: Let_def bindS_Inr split: prod.splits)+

lemma keeps_Promote: "keeps users_inv (repoPromoteToBootstrapAdmin e uid name hash)"
  unfolding repoPromoteToBootstrapAdmin_def
  by (rule keeps_query) (auto simp: Let_def bindS_Inr intro!: users_inv_update_email)

lemma keeps_Disable: "keeps users_inv (repoDisableUser e uid)"
  unfolding repoDisableUser_def
  by (intro preserve_rules keeps_query frame_rel_invariant) (auto simp: bindS_Inr intro!: users_inv_update_email)

lemma keeps_Password: "keeps users_inv (repoUpdateUserPassword e uid hash must)"
  unfolding repoUpdateUserPassword_def
  by (intro preserve_rules keeps_query frame_rel_invariant) (auto simp: bindS_Inr intro!: users_inv_update_email)

lemma keeps_Account: "keeps users_inv (repoUpdateUserAccount e uid email name)"
  unfolding repoUpdateUserAccount_def
proof (rule keeps_query, goal_cases)
  case (1 n d x d')
  then obtain uid' where
    d': "d' = d\<lparr>db_users := updateRows (\<lambda>u. us_ID u = uid') (\<lambda>u. u\<lparr>us_Email := toLower (uni_lower e) (trimSpace email),
            us_DisplayName := trimSpace name, us_UpdatedAt := dbNow e n\<rparr>) (db_users d)\<rparr>"
    and fresh: "\<forall>v\<in>set (db_users d). us_ID v \<noteq> uid' \<longrightarrow> us_Email v \<noteq> toLower (uni_lower e) (trimSpace email)"
    by (auto simp: Let_def bindS_Inr list_ex_iff)
  have "distinct (map us_ID (db_users d))" "distinct (map us_Email (db_users d))" using 1(2) by (simp_all add: users_inv_def)
  then show ?case
    unfolding d' using 1(2) fresh by (intro users_inv_update distinct_email_update) simp_all
qed

lemma keeps_CreateSession: "keeps users_inv (repoCreateSession e uid tok expires)"
  unfolding repoCreateSession_def by (rule keeps_query) (auto simp: bindS_Inr users_inv_def)

lemma keeps_RevokeSessions: "keeps users_inv (repoRevokeSessionsByUserID e uid)"
  unfolding repoRevokeSessionsByUserID_def
  by (rule keeps_query) (auto simp: bindS_Inr map_updateRows intro!: users_inv_sessions)

lemma keeps_CreateKey: "keeps users_inv (repoCreateAdminAccessKey e uid tok expires)"
  unfolding repoCreateAdminAccessKey_def by (rule keeps_query) (auto simp: bindS_Inr users_inv_def)

lemma keeps_ConsumeKey: "keeps users_inv (repoConsumeAdminAccessKey e uid tok now)"
  unfolding repoConsumeAdminAccessKey_def
  by (rule keeps_query) (auto simp: bindS_Inr map_updateRows intro!: users_inv_keys)

lemmas keeps_users_inv = keeps_CreateUser keeps_reads keeps_Promote keeps_Disable keeps_Password keeps_Account
  keeps_CreateSession keeps_RevokeSessions keeps_CreateKey keeps_ConsumeKey

section \<open>Sessions and access keys\<close>

lemma repoConsume_Inr:
  assumes "repoConsumeAdminAccessKey e userID tok now w = (Inr b, w')"
  obtains uid where "uuid_in e userID = Some uid"
    and "b \<longleftrightarrow> list_ex (usableKey uid tok now) (db_admin_access_keys (wo_db w))"
    and "wo_db w' = (wo_db w)\<lparr>db_admin_access_keys := updateRows (usableKey uid tok now) (\<lambda>k. k\<lparr>ak_UsedAt := Some (pgTime now)\<rparr>)
               (db_admin_access_keys (wo_db w))\<rparr>"
proof -
  from assms obtain d where d: "bindS (castUUID e userID) (\<lambda>uid.
       Inr (0 < length (filter (usableKey uid tok now) (db_admin_access_keys (wo_db w))),
          (wo_db w)\<lparr>db_admin_access_keys := updateRows (usableKey uid tok now) (\<lambda>k. k\<lparr>ak_UsedAt := Some (pgTime now)\<rparr>)
               (db_admin_access_keys (wo_db w))\<rparr>)) = Inr (b, d)" "wo_db w' = d"
    unfolding repoConsumeAdminAccessKey_def by (elim query_Inr) simp
  then obtain uid where "castUUID e userID = Inr uid" "b = (0 < length (filter (usableKey uid tok now) (db_admin_access_keys (wo_db w))))"
    "wo_db w' = (wo_db w)\<lparr>db_admin_access_keys := updateRows (usableKey uid tok now) (\<lambda>k. k\<lparr>ak_UsedAt := Some (pgTime now)\<rparr>)
               (db_admin_access_keys (wo_db w))\<rparr>"
    by (auto simp: bindS_Inr)
  then show thesis
    by (intro that [of uid]) (auto simp: castUUID_def list_ex_iff filter_empty_conv split: option.splits)
qed

section \<open>The empty database\<close>

definition emptyDB :: database where
  "emptyDB = \<lparr>db_users = [], db_sessions = [], db_admin_access_keys = [], db_families = [], db_family_members = [],
     db_family_invites = [], db_person_profiles = [], db_person_income_history = [], db_housing_groups = [],
     db_housing_options = [], db_criteria = [], db_answers = []\<rparr>"

end
