(* ===== verification/Service_Auth.thy ===== *)
theory Service_Auth
  imports Repo_Users
begin

text \<open>
  \<open>internal/service/auth.go\<close>: the account rules between the RPC handlers and the user
  repository: throttled password work, login, password change, admin access keys and the
  bootstrap administrator. The limiter is part of the world; \<open>defer release()\<close> is
  \<open>withSlot\<close>, which frees the slot whatever the outcome of the work.
\<close>

section \<open>Limiter and password work\<close>

definition newAuthLimits :: "Limiter option \<Rightarrow> Limiter" where
  "newAuthLimits limits = (case limits of Some l \<Rightarrow> l
     | None \<Rightarrow> New \<lparr>cf_IPLimit = 0, cf_AccountLimit = 0, cf_Window = 0, cf_MaxConcurrent = 0, cf_MaxEntries = 0\<rparr>)"

definition allowAccountP :: "env \<Rightarrow> string \<Rightarrow> time \<Rightarrow> (go_error, duration) io" where
  "allowAccountP e account now w =
     (let (retry, l) = AllowAccount (sha256 e) (uni_lower e) (wo_limits w) account now in (Inr retry, w\<lparr>wo_limits := l\<rparr>))"

definition acquireP :: "env \<Rightarrow> (go_error, unit) io" where
  "acquireP e = bindP (ctxErr e) (\<lambda>c w. let (r, l) = Acquire (wo_limits w) c in (r, w\<lparr>wo_limits := l\<rparr>))"

definition withSlot :: "(go_error, 'a) io \<Rightarrow> (go_error, 'a) io" where
  "withSlot m w = (let (r, w') = m w in (r, w'\<lparr>wo_limits := releaseSlot (wo_limits w')\<rparr>))"

definition beginPasswordWork :: "env \<Rightarrow> string \<Rightarrow> (go_error, unit) io" where
  "beginPasswordWork e account =
     bindP (ctxErr e) (\<lambda>c. case c of
         Some err \<Rightarrow> throwP (CtxError err)
       | None \<Rightarrow> bindP (nowP e) (\<lambda>now. bindP (allowAccountP e account now) (\<lambda>retry.
           if retry > 0 then throwP (LimitError retry) else acquireP e)))"

definition hashP :: "env \<Rightarrow> Argon2Params \<Rightarrow> string \<Rightarrow> (go_error, string) io" where
  "hashP e params password w =
     (HashPassword (argon2_IDKey e) (rand_at e (wo_tick w)) password params, w\<lparr>wo_tick := Suc (wo_tick w)\<rparr>)"

definition tokenP :: "env \<Rightarrow> int64 \<Rightarrow> (go_error, string) io" where
  "tokenP e byteLength w = (NewSessionToken (rand_at e (wo_tick w)) byteLength, w\<lparr>wo_tick := Suc (wo_tick w)\<rparr>)"

section \<open>Operations\<close>

definition normalEmail :: "env \<Rightarrow> string \<Rightarrow> string" where
  "normalEmail e email = toLower (uni_lower e) (trimSpace email)"

definition svcCreateUser :: "env \<Rightarrow> Argon2Params \<Rightarrow> string \<Rightarrow> string \<Rightarrow> string \<Rightarrow> UserRole \<Rightarrow> (go_error, User) io" where
  "svcCreateUser e params email displayName password role =
     (let email = normalEmail e email in
      if email = [] \<or> blank password then throwP ErrInvalidArgument
      else let role = (if role = [] then UserRoleUser else role) in
        if role \<noteq> UserRoleUser \<and> role \<noteq> UserRoleAdmin then throwP ErrInvalidArgument
        else bindP (beginPasswordWork e (''create:'' @ email)) (\<lambda>_. withSlot (
               bindP (hashP e params password) (\<lambda>hash.
               repoCreateUser e \<lparr>us_ID = [], us_Email = email, us_DisplayName = trimSpace displayName, us_Role = role,
                 us_PasswordHash = hash, us_MustChangePassword = (role = UserRoleAdmin), us_DisabledAt = None,
                 us_CreatedAt = 0, us_UpdatedAt = 0\<rparr>))))"

definition svcListUsers :: "env \<Rightarrow> (go_error, User list) io" where
  "svcListUsers e = repoListUsers e"

definition svcLogin :: "env \<Rightarrow> string \<Rightarrow> string \<Rightarrow> (go_error, User) io" where
  "svcLogin e email password =
     (let email = normalEmail e email in
      bindP (beginPasswordWork e (''login:'' @ email)) (\<lambda>_. withSlot (
        bindP (repoGetUserByEmail e email) (\<lambda>user.
        if us_DisabledAt user \<noteq> None then throwP ErrDisabledUser
        else bindP (liftE (VerifyPassword (argon2_IDKey e) password (us_PasswordHash user))) (\<lambda>ok.
          if \<not> ok then throwP ErrUnauthenticated else retP user)))))"

definition svcChangePassword :: "env \<Rightarrow> Argon2Params \<Rightarrow> ID \<Rightarrow> string \<Rightarrow> string \<Rightarrow> (go_error, unit) io" where
  "svcChangePassword e params userID currentPassword newPassword =
     (if blank userID \<or> blank currentPassword \<or> blank newPassword then throwP ErrInvalidArgument
      else bindP (beginPasswordWork e (''password:'' @ userID)) (\<lambda>_. withSlot (
        bindP (repoGetUserByID e userID) (\<lambda>user.
        if us_DisabledAt user \<noteq> None then throwP ErrDisabledUser
        else bindP (liftE (VerifyPassword (argon2_IDKey e) currentPassword (us_PasswordHash user))) (\<lambda>ok.
          if \<not> ok then throwP ErrUnauthenticated
          else bindP (hashP e params newPassword) (\<lambda>newHash.
            repoUpdateUserPassword e userID newHash False))))))"

definition svcUpdateMyAccount :: "env \<Rightarrow> ID \<Rightarrow> string \<Rightarrow> string \<Rightarrow> (go_error, User) io" where
  "svcUpdateMyAccount e userID email displayName =
     (if blank userID then throwP ErrInvalidArgument
      else let normalizedEmail = normalEmail e email; normalizedName = trimSpace displayName in
        if normalizedEmail = [] \<or> normalizedName = [] then throwP ErrInvalidArgument
        else repoUpdateUserAccount e userID normalizedEmail normalizedName)"

definition svcGenerateAdminAccessKey :: "env \<Rightarrow> ID \<Rightarrow> int64 \<Rightarrow> duration \<Rightarrow> time \<Rightarrow> (go_error, string \<times> time) io" where
  "svcGenerateAdminAccessKey e adminUserID keyBytes ttl now =
     (if blank adminUserID then throwP ErrInvalidArgument
      else let keyBytes = (if keyBytes \<le> 0 then 32 else keyBytes);
               ttl = (if ttl \<le> 0 then 10 * 60 * 10 ^ 9 else ttl) in
        bindP (repoGetUserByID e adminUserID) (\<lambda>user.
        if us_Role user \<noteq> UserRoleAdmin then throwP ErrForbidden
        else if us_MustChangePassword user then throwP ErrPasswordChangeRequired
        else bindP (tokenP e keyBytes) (\<lambda>rawKey.
          bindP (repoCreateAdminAccessKey e adminUserID (HashToken (sha256 e) rawKey) (now + ttl)) (\<lambda>_.
          retP (rawKey, now + ttl)))))"

definition svcConsumeAdminAccessKey :: "env \<Rightarrow> ID \<Rightarrow> string \<Rightarrow> time \<Rightarrow> (go_error, unit) io" where
  "svcConsumeAdminAccessKey e adminUserID rawKey now =
     (if blank adminUserID \<or> blank rawKey then throwP ErrInvalidArgument
      else bindP (repoGetUserByID e adminUserID) (\<lambda>user.
        if us_Role user \<noteq> UserRoleAdmin then throwP ErrForbidden
        else bindP (repoConsumeAdminAccessKey e adminUserID (HashToken (sha256 e) rawKey) now) (\<lambda>ok.
          if \<not> ok then throwP ErrForbidden else retP ())))"

definition svcDisableUser :: "env \<Rightarrow> ID \<Rightarrow> (go_error, unit) io" where
  "svcDisableUser e userID = (if blank userID then throwP ErrInvalidArgument else repoDisableUser e userID)"

definition svcEnsureBootstrapAdmin ::
    "env \<Rightarrow> Argon2Params \<Rightarrow> string \<Rightarrow> string \<Rightarrow> string \<Rightarrow> (go_error, User option) io" where
  "svcEnsureBootstrapAdmin e params email displayName temporaryPassword =
     (let email = normalEmail e email; displayName = trimSpace displayName; temporaryPassword = trimSpace temporaryPassword in
      if email = [] \<or> temporaryPassword = [] then throwP ErrInvalidArgument
      else let displayName = (if displayName = [] then ''Bootstrap Admin'' else displayName) in
        bindP (repoHasActiveAdmin e) (\<lambda>hasAdmin.
        if hasAdmin then retP None
        else bindP (acquireP e) (\<lambda>_. withSlot (
          bindP (hashP e params temporaryPassword) (\<lambda>hash.
          \<lambda>w. case repoGetUserByEmail e email w of
                (Inr existing, w') \<Rightarrow> bindP (repoPromoteToBootstrapAdmin e (us_ID existing) displayName hash) (\<lambda>u. retP (Some u)) w'
              | (Inl err, w') \<Rightarrow>
                  if err \<noteq> ErrNotFound then (Inl err, w')
                  else bindP (repoCreateUser e \<lparr>us_ID = [], us_Email = email, us_DisplayName = displayName, us_Role = UserRoleAdmin,
                         us_PasswordHash = hash, us_MustChangePassword = True, us_DisabledAt = None,
                         us_CreatedAt = 0, us_UpdatedAt = 0\<rparr>) (\<lambda>u. retP (Some u)) w')))))"

section \<open>Slots\<close>

text \<open>\<open>slots_kept m\<close>: \<open>m\<close> leaves the number of slots in use as it was.\<close>

abbreviation slots_kept :: "('e, 'a) io \<Rightarrow> bool" where
  "slots_kept m \<equiv> preserves (\<lambda>w w'. li_slots (wo_limits w') = li_slots (wo_limits w)) m"

lemma slots_kept_query [preserve_rules]: "slots_kept (query e st)"
  unfolding preserves_def query_def by (simp add: sql_def Let_def split: option.splits fault.splits sum.splits prod.splits)

lemma slots_kept_basic [preserve_rules]:
  "slots_kept (nowP e)" "slots_kept (ctxErr e)" "slots_kept (hashP e params pw)" "slots_kept (tokenP e n)"
  by (simp_all add: preserves_def nowP_def ctxErr_def hashP_def tokenP_def)

lemma slots_kept_allow [preserve_rules]: "slots_kept (allowAccountP e account now)"
  by (simp add: preserves_def allowAccountP_def AllowAccount_def allow_def split: prod.splits)
     (metis allowHash_cfg(2) snd_conv)

lemma slots_kept_repo [preserve_rules]:
  "slots_kept (repoCreateUser e u)" "slots_kept (repoGetUserByEmail e em)" "slots_kept (repoGetUserByID e i)"
  "slots_kept (repoHasActiveAdmin e)" "slots_kept (repoPromoteToBootstrapAdmin e i n h)"
  unfolding repoCreateUser_def repoGetUserByEmail_def repoGetUserByID_def repoHasActiveAdmin_def repoPromoteToBootstrapAdmin_def
  by (rule slots_kept_query)+

lemma slots_kept_password [preserve_rules]: "slots_kept (repoUpdateUserPassword e i h b)"
  unfolding repoUpdateUserPassword_def by (intro preserve_rules frame_rel_eq)

text \<open>Acquiring a slot takes exactly one on success and none on failure; the work then gives it back.\<close>

definition takes_slot :: "(go_error, unit) io \<Rightarrow> bool" where
  "takes_slot m \<longleftrightarrow> (\<forall>w r w'. m w = (r, w') \<longrightarrow>
     li_slots (wo_limits w') = (if isl r then li_slots (wo_limits w) else Suc (li_slots (wo_limits w))))"

lemma takes_slot_acquire: "takes_slot (acquireP e)"
  by (auto simp: takes_slot_def acquireP_def bindP_def ctxErr_def Acquire_def split: option.splits if_splits)

lemma takes_slot_bind:
  assumes "slots_kept m" and "\<And>x. takes_slot (f x)"
  shows "takes_slot (bindP m f)"
  unfolding takes_slot_def
proof (intro allI impI)
  fix w r w' assume b: "bindP m f w = (r, w')"
  obtain q u where q: "m w = (q, u)" by fastforce
  have "li_slots (wo_limits u) = li_slots (wo_limits w)" using preservesD [OF assms(1) q] .
  with b q assms(2) show "li_slots (wo_limits w') = (if isl r then li_slots (wo_limits w) else Suc (li_slots (wo_limits w)))"
    by (cases q) (auto simp: bindP_def takes_slot_def)
qed

lemma takes_slot_throw: "takes_slot (throwP err)"
  by (simp add: takes_slot_def)

lemma takes_slot_begin: "takes_slot (beginPasswordWork e account)"
  unfolding beginPasswordWork_def
  by (intro takes_slot_bind preserve_rules) (auto split: option.splits intro!: takes_slot_bind preserve_rules takes_slot_throw takes_slot_acquire)

lemma slots_kept_work:
  assumes "takes_slot m" and "slots_kept f"
  shows "slots_kept (bindP m (\<lambda>_. withSlot f))"
  unfolding preserves_def
proof
  fix w
  obtain r u where m: "m w = (r, u)" by fastforce
  obtain q v where f: "f u = (q, v)" by fastforce
  from preservesD [OF assms(2) f] have "li_slots (wo_limits v) = li_slots (wo_limits u)" .
  moreover from assms(1) m have "li_slots (wo_limits u) = (if isl r then li_slots (wo_limits w) else Suc (li_slots (wo_limits w)))"
    by (simp add: takes_slot_def)
  ultimately show "li_slots (wo_limits (snd (bindP m (\<lambda>_. withSlot f) w))) = li_slots (wo_limits w)"
    by (cases r) (simp_all add: bindP_def m withSlot_def f releaseSlot_def)
qed

lemma slots_kept_bootstrap_tail:
  "slots_kept (\<lambda>w. case repoGetUserByEmail e email w of
      (Inr existing, w') \<Rightarrow> bindP (repoPromoteToBootstrapAdmin e (us_ID existing) n h) (\<lambda>u. retP (Some u)) w'
    | (Inl err, w') \<Rightarrow> if err \<noteq> ErrNotFound then (Inl err, w') else bindP (repoCreateUser e user) (\<lambda>u. retP (Some u)) w')"
proof -
  have p: "slots_kept (bindP (repoPromoteToBootstrapAdmin e i n h) (\<lambda>u. retP (Some u)) :: (go_error, User option) io)"
    "slots_kept (bindP (repoCreateUser e user) (\<lambda>u. retP (Some u)) :: (go_error, User option) io)" for i
    by (intro preserve_rules frame_rel_eq)+
  show ?thesis
    unfolding preserves_def
  proof
    fix w
    obtain r u where g: "repoGetUserByEmail e email w = (r, u)" by fastforce
    from preservesD [OF slots_kept_repo(2) g] have "li_slots (wo_limits u) = li_slots (wo_limits w)" .
    with p show "li_slots (wo_limits (snd (case repoGetUserByEmail e email w of
      (Inr existing, w') \<Rightarrow> bindP (repoPromoteToBootstrapAdmin e (us_ID existing) n h) (\<lambda>u. retP (Some u)) w'
    | (Inl err, w') \<Rightarrow> if err \<noteq> ErrNotFound then (Inl err, w') else bindP (repoCreateUser e user) (\<lambda>u. retP (Some u)) w')))
      = li_slots (wo_limits w)"
      by (cases r) (simp_all add: g preserves_def)
  qed
qed

section \<open>What a login reads\<close>

lemma scanUserRow_id [simp]: "scanUserRow u = u"
  by (simp add: scanUserRow_def)

abbreviation db_kept :: "('e, 'a) io \<Rightarrow> bool" where
  "db_kept m \<equiv> preserves (\<lambda>w w'. wo_db w' = wo_db w) m"

lemma db_kept_basic [preserve_rules]:
  "db_kept (nowP e)" "db_kept (ctxErr e)" "db_kept (hashP e params pw)" "db_kept (tokenP e n)" "db_kept (allowAccountP e account now)"
  by (simp_all add: preserves_def nowP_def ctxErr_def hashP_def tokenP_def allowAccountP_def split: prod.splits)

lemma db_kept_acquire [preserve_rules]: "db_kept (acquireP e)"
  by (simp add: preserves_def acquireP_def bindP_def ctxErr_def split: prod.splits)

lemma db_kept_begin [preserve_rules]: "db_kept (beginPasswordWork e account)"
  unfolding beginPasswordWork_def by (intro preserve_rules frame_rel_eq)

lemma preserves_withSlot [preserve_rules]:
  assumes "preserves (\<lambda>w w'. R (wo_db w) (wo_db w')) m"
  shows "preserves (\<lambda>w w'. R (wo_db w) (wo_db w')) (withSlot m)"
  using assms by (simp add: preserves_def withSlot_def split: prod.splits) (metis snd_conv)

lemma withSlot_Inr:
  assumes "withSlot m w = (Inr x, w')"
  obtains u where "m w = (Inr x, u)" "wo_db w' = wo_db u"
  using assms by (auto simp: withSlot_def split: prod.splits)

lemma db_kept_query_read: "(\<And>n d x d'. st n d = Inr (x, d') \<Longrightarrow> d' = d) \<Longrightarrow> db_kept (query e st)"
  by (rule preserves_query [where R = "\<lambda>d d'. d' = d"]) auto

lemma db_kept_reads [preserve_rules]:
  "db_kept (repoListUsers e)" "db_kept (repoGetUserByEmail e email)" "db_kept (repoGetUserByID e uid)"
  "db_kept (repoHasActiveAdmin e)" "db_kept (repoGetUserBySessionTokenHash e tok now)"
  unfolding repoListUsers_def repoGetUserByEmail_def repoGetUserByID_def repoHasActiveAdmin_def repoGetUserBySessionTokenHash_def
  by (rule db_kept_query_read; auto simp: Let_def bindS_Inr split: prod.splits)+

lemma repoGetUserByEmail_Inr:
  assumes "repoGetUserByEmail e email w = (Inr u, w')"
  shows "u \<in> set (db_users (wo_db w)) \<and> us_Email u = normalEmail e email"
  using assms unfolding repoGetUserByEmail_def
  by (elim query_Inr) (auto simp: bindS_Inr firstRow_Inr normalEmail_def dest!: filter_eq_ConsD)

lemma repoGetUserByID_Inr:
  assumes "repoGetUserByID e userID w = (Inr u, w')"
  shows "u \<in> set (db_users (wo_db w)) \<and> uuid_in e userID = Some (us_ID u)"
  using assms unfolding repoGetUserByID_def
  by (elim query_Inr) (auto simp: bindS_Inr firstRow_Inr castUUID_def dest!: filter_eq_ConsD split: option.splits)

lemma svcLogin_kept: "db_kept (svcLogin e email pw)"
  unfolding svcLogin_def Let_def
  by (intro preserve_rules frame_rel_eq preserves_withSlot [where R = "\<lambda>d d'. d' = d"])

lemma svcLogin_Inr:
  assumes "svcLogin e email pw w = (Inr u, w')"
  shows "u \<in> set (db_users (wo_db w)) \<and> us_Email u = normalEmail e (normalEmail e email) \<and> us_DisabledAt u = None
    \<and> VerifyPassword (argon2_IDKey e) pw (us_PasswordHash u) = Inr True"
proof -
  from assms obtain w1 where w1: "beginPasswordWork e (''login:'' @ normalEmail e email) w = (Inr (), w1)"
    "withSlot (bindP (repoGetUserByEmail e (normalEmail e email)) (\<lambda>user.
      if us_DisabledAt user \<noteq> None then throwP ErrDisabledUser
      else bindP (liftE (VerifyPassword (argon2_IDKey e) pw (us_PasswordHash user))) (\<lambda>ok.
        if \<not> ok then throwP ErrUnauthenticated else retP user))) w1 = (Inr u, w')"
    unfolding svcLogin_def Let_def by (auto elim!: bindP_InrE)
  then obtain v w2 where v: "repoGetUserByEmail e (normalEmail e email) w1 = (Inr v, w2)" "us_DisabledAt v = None"
    "VerifyPassword (argon2_IDKey e) pw (us_PasswordHash v) = Inr True" "v = u"
    by (elim withSlot_Inr bindP_InrE) (auto split: if_splits elim!: bindP_InrE)
  have "wo_db w1 = wo_db w" using preservesD [OF db_kept_begin w1(1)] .
  with repoGetUserByEmail_Inr [OF v(1)] v show ?thesis by simp
qed

section \<open>Spent access keys\<close>

definition spentKey :: "string \<Rightarrow> database \<Rightarrow> bool" where
  "spentKey tok d \<longleftrightarrow> (\<exists>k\<in>set (db_admin_access_keys d). ak_TokenHash k = tok \<and> ak_UsedAt k \<noteq> None)"

lemma spentKey_updateRows:
  assumes "\<And>k. ak_TokenHash (f k) = ak_TokenHash k" and "\<And>k. ak_UsedAt (f k) \<noteq> None"
    and "\<exists>k\<in>set ks. ak_TokenHash k = tok \<and> ak_UsedAt k \<noteq> None"
  shows "\<exists>k\<in>set (updateRows P f ks). ak_TokenHash k = tok \<and> ak_UsedAt k \<noteq> None"
  using assms by (induction ks) auto

lemma keeps_spentKey_other:
  assumes "\<And>n d x d'. st n d = Inr (x, d') \<Longrightarrow> db_admin_access_keys d' = db_admin_access_keys d"
  shows "keeps (spentKey tok) (query e st)"
  by (rule keeps_query) (simp add: spentKey_def assms)

lemma keeps_spentKey_consume: "keeps (spentKey tok) (repoConsumeAdminAccessKey e i s t)"
  unfolding repoConsumeAdminAccessKey_def
proof (rule keeps_query, goal_cases)
  case (1 n d x d')
  then obtain uid where d': "d' = d\<lparr>db_admin_access_keys := updateRows (usableKey uid s t)
      (\<lambda>k. k\<lparr>ak_UsedAt := Some (pgTime t)\<rparr>) (db_admin_access_keys d)\<rparr>"
    by (auto simp: bindS_Inr)
  from 1(2) have "\<exists>k\<in>set (db_admin_access_keys d). ak_TokenHash k = tok \<and> ak_UsedAt k \<noteq> None" by (simp only: spentKey_def)
  from spentKey_updateRows [OF _ _ this, of "\<lambda>k. k\<lparr>ak_UsedAt := Some (pgTime t)\<rparr>" "usableKey uid s t"]
  show ?case by (simp add: spentKey_def d')
qed

lemma keeps_spentKey_create: "keeps (spentKey tok) (repoCreateAdminAccessKey e i s t)"
  unfolding repoCreateAdminAccessKey_def by (rule keeps_query) (auto simp: bindS_Inr spentKey_def)

lemma keeps_spentKey_users:
  "keeps (spentKey tok) (repoCreateUser e u)" "keeps (spentKey tok) (repoPromoteToBootstrapAdmin e i n h)"
  "keeps (spentKey tok) (repoCreateSession e i s t)" "keeps (spentKey tok) (repoUpdateUserAccount e i em n)"
  "keeps (spentKey tok) (repoRevokeSessionsByUserID e i)"
  unfolding repoCreateUser_def repoPromoteToBootstrapAdmin_def repoCreateSession_def repoUpdateUserAccount_def
    repoRevokeSessionsByUserID_def
  by (rule keeps_spentKey_other; auto simp: Let_def bindS_Inr)+

lemma keeps_spentKey_tagged:
  "keeps (spentKey tok) (repoDisableUser e i)" "keeps (spentKey tok) (repoUpdateUserPassword e i h b)"
  unfolding repoDisableUser_def repoUpdateUserPassword_def
  by (intro preserve_rules frame_rel_invariant; rule keeps_spentKey_other; auto simp: bindS_Inr)+

lemmas keeps_spentKey = keeps_spentKey_consume keeps_spentKey_create keeps_spentKey_users keeps_spentKey_tagged

lemma spent_not_usable:
  assumes "users_inv d" and "spentKey tok d"
  shows "\<not> list_ex (usableKey uid tok now) (db_admin_access_keys d)"
proof
  assume "list_ex (usableKey uid tok now) (db_admin_access_keys d)"
  then obtain k where k: "k \<in> set (db_admin_access_keys d)" "ak_TokenHash k = tok" "ak_UsedAt k = None"
    unfolding list_ex_iff usableKey_def by blast
  from assms(2) obtain k' where k': "k' \<in> set (db_admin_access_keys d)" "ak_TokenHash k' = tok" "ak_UsedAt k' \<noteq> None"
    unfolding spentKey_def by blast
  have "inj_on ak_TokenHash (set (db_admin_access_keys d))" using assms(1) by (simp add: users_inv_def distinct_map)
  then have "k = k'" using k(1,2) k'(1,2) by (metis inj_onD)
  with k(3) k'(3) show False by simp
qed

lemma consumed_spent:
  assumes "repoConsumeAdminAccessKey e i tok now w = (Inr True, w')"
  shows "spentKey tok (wo_db w')"
proof -
  from assms obtain uid where u: "list_ex (usableKey uid tok now) (db_admin_access_keys (wo_db w))"
    "wo_db w' = (wo_db w)\<lparr>db_admin_access_keys := updateRows (usableKey uid tok now) (\<lambda>k. k\<lparr>ak_UsedAt := Some (pgTime now)\<rparr>)
               (db_admin_access_keys (wo_db w))\<rparr>"
    by (rule repoConsume_Inr) simp
  from u(1) obtain k where "k \<in> set (db_admin_access_keys (wo_db w))" "usableKey uid tok now k" "ak_TokenHash k = tok"
    unfolding list_ex_iff usableKey_def by blast
  then have "k\<lparr>ak_UsedAt := Some (pgTime now)\<rparr> \<in> set (updateRows (usableKey uid tok now)
      (\<lambda>k. k\<lparr>ak_UsedAt := Some (pgTime now)\<rparr>) (db_admin_access_keys (wo_db w)))"
    by (auto simp: updateRows_def image_iff)
  then show ?thesis
    unfolding u(2) spentKey_def using \<open>ak_TokenHash k = tok\<close> by (intro bexI [of _ "k\<lparr>ak_UsedAt := Some (pgTime now)\<rparr>"]) simp_all
qed

section \<open>Properties\<close>

text \<open>
  Password work never leaks a slot. Whatever the outcome of creating a user, of a
  login, of a password change or of the bootstrap, success, refusal or database failure, the
  number of slots in use afterwards is the number before.
\<close>

theorem password_work_releases_slots:
  "li_slots (wo_limits (snd (svcCreateUser e params email name pw role w))) = li_slots (wo_limits w)
   \<and> li_slots (wo_limits (snd (svcLogin e email pw w))) = li_slots (wo_limits w)
   \<and> li_slots (wo_limits (snd (svcChangePassword e params uid pw newpw w))) = li_slots (wo_limits w)
   \<and> li_slots (wo_limits (snd (svcEnsureBootstrapAdmin e params email name pw w))) = li_slots (wo_limits w)"
proof -
  have "slots_kept (svcCreateUser e params email name pw role)"
    unfolding svcCreateUser_def Let_def by (intro preserve_rules frame_rel_eq slots_kept_work takes_slot_begin)
  moreover have "slots_kept (svcLogin e email pw)"
    unfolding svcLogin_def Let_def by (intro slots_kept_work takes_slot_begin preserve_rules frame_rel_eq)
  moreover have "slots_kept (svcChangePassword e params uid pw newpw)"
    unfolding svcChangePassword_def
    by (rule preserves_if, rule preserves_throw, rule frame_rel_eq) (intro slots_kept_work takes_slot_begin preserve_rules frame_rel_eq)
  moreover have "slots_kept (svcEnsureBootstrapAdmin e params email name pw)"
    unfolding svcEnsureBootstrapAdmin_def Let_def
    by (rule preserves_if, rule preserves_throw, rule frame_rel_eq, rule preserves_bind, rule frame_rel_eq,
        rule slots_kept_repo, rule preserves_if, rule preserves_ret, rule frame_rel_eq, rule slots_kept_work,
        rule takes_slot_acquire, rule preserves_bind, rule frame_rel_eq, rule slots_kept_basic)
       (rule slots_kept_bootstrap_tail)
  ultimately show ?thesis by (simp add: preserves_def)
qed

text \<open>
  Property C13: a login succeeds only for a stored, enabled account with the normalised email
  whose password hash verifies the password, and it changes no table, whatever its outcome.
\<close>

theorem login_sound:
  "(case fst (svcLogin e email pw w) of
      Inr u \<Rightarrow> u \<in> set (db_users (wo_db w)) \<and> us_Email u = normalEmail e (normalEmail e email) \<and> us_DisabledAt u = None
             \<and> VerifyPassword (argon2_IDKey e) pw (us_PasswordHash u) = Inr True
    | Inl err \<Rightarrow> True)
   \<and> wo_db (snd (svcLogin e email pw w)) = wo_db w"
  using svcLogin_kept [of e email pw] svcLogin_Inr [of e email pw w]
  by (cases "fst (svcLogin e email pw w)") (simp_all add: preserves_def prod_eq_iff)

text \<open>A world with one administrator who holds an unused access key, for the example.\<close>

definition example_env :: env where
  "example_env = \<lparr>clock_at = (\<lambda>n. int n * 1000), uuid_at = (\<lambda>n. CHR ''u'' # itoa n), rand_at = (\<lambda>n k. Inr (replicate k (CHR ''r''))),
     ctx_at = (\<lambda>n. None), fault_at = (\<lambda>n. None), uuid_in = (\<lambda>s. if s = [] then None else Some s), uni_lower = id,
     collate_le = textLE, sha256 = id, argon2_IDKey = example_idkey\<rparr>"

definition example_admin :: User where
  "example_admin = \<lparr>us_ID = ''u1'', us_Email = ''root@x.sg'', us_DisplayName = ''Root'', us_Role = ''admin'', us_PasswordHash = [],
     us_MustChangePassword = False, us_DisabledAt = None, us_CreatedAt = 0, us_UpdatedAt = 0\<rparr>"

definition example_world :: world where
  "example_world = \<lparr>wo_db = emptyDB\<lparr>db_users := [example_admin],
       db_admin_access_keys := [\<lparr>ak_UserID = ''u1'', ak_TokenHash = HashToken id ''key'', ak_ExpiresAt = 9000, ak_UsedAt = None\<rparr>]\<rparr>,
     wo_tick = 0, wo_limits = New example_config\<rparr>"

end
