(* ===== verification/Repo_Families.thy ===== *)
theory Repo_Families
  imports Service_Auth
begin

text \<open>
  \<open>internal/repository/postgres/families.go\<close>: families, their members and the invites. The
  lemmas show who becomes a member with which role, and that a family is created with its owner
  or not at all.
\<close>

section \<open>Operations\<close>

record FamilyMember =
  me_FamilyID :: ID
  me_UserID :: ID
  me_DisplayName :: string
  me_Role :: FamilyRole

definition scanFamilyRow :: "Family \<Rightarrow> Family" where
  "scanFamilyRow row = \<lparr>fa_ID = fa_ID row, fa_Name = fa_Name row, fa_Type = fa_Type row, fa_CreatedAt = fa_CreatedAt row,
     fa_UpdatedAt = fa_UpdatedAt row\<rparr>"

text \<open>\<open>INSERT INTO family_members ... ON CONFLICT (family_id, user_id)\<close>, with \<open>DO UPDATE SET role\<close>
  when \<open>overwrite\<close> and \<open>DO NOTHING\<close> otherwise; \<open>t\<close> is \<open>now()\<close>.\<close>

definition insertMember :: "env \<Rightarrow> bool \<Rightarrow> ID \<Rightarrow> ID \<Rightarrow> FamilyRole \<Rightarrow> time \<Rightarrow> database \<Rightarrow> db_error + (unit \<times> database)" where
  "insertMember e overwrite familyID userID role t d =
     bindS (castUUID e familyID) (\<lambda>f. bindS (castUUID e userID) (\<lambda>u.
     bindS (checkS (role \<in> {''owner'', ''admin'', ''member'', ''viewer''}) ''23514'' ''family_members_role_check'') (\<lambda>_.
     if isMember d f u
     then Inr ((), if overwrite then d\<lparr>db_family_members := updateRows (\<lambda>m. fm_FamilyID m = f \<and> fm_UserID m = u)
                                         (\<lambda>m. m\<lparr>fm_Role := role\<rparr>) (db_family_members d)\<rparr> else d)
     else bindS (checkS (f \<in> fa_ID ` set (db_families d) \<and> u \<in> us_ID ` set (db_users d)) ''23503'' ''family_members_fkey'') (\<lambda>_.
          Inr ((), d\<lparr>db_family_members := db_family_members d @
                      [\<lparr>fm_FamilyID = f, fm_UserID = u, fm_Role = role, fm_JoinedAt = t\<rparr>]\<rparr>)))))"

definition insertFamily :: "env \<Rightarrow> Family \<Rightarrow> time \<Rightarrow> Family stmt" where
  "insertFamily e family t n d =
     (let row = \<lparr>fa_ID = uuid_at e n, fa_Name = fa_Name family, fa_Type = fa_Type family, fa_CreatedAt = t, fa_UpdatedAt = t\<rparr>
      in bindS (checkS (fa_Type row \<in> {''single'', ''couple'', ''family'', ''shared_household''}) ''23514'' ''families_family_type_check'') (\<lambda>_.
         bindS (checkS (fa_ID row \<notin> fa_ID ` set (db_families d)) ''23505'' ''families_pkey'') (\<lambda>_.
         Inr (scanFamilyRow row, d\<lparr>db_families := db_families d @ [row]\<rparr>))))"

definition repoCreateFamily :: "env \<Rightarrow> Family \<Rightarrow> ID \<Rightarrow> (go_error, Family) io" where
  "repoCreateFamily e family ownerID =
     (if blank (fa_Name family) \<or> blank (fa_Type family) \<or> blank ownerID then throwP ErrInvalidArgument
      else transaction e (\<lambda>t.
        bindP (query e (insertFamily e family (pgTime t))) (\<lambda>created.
        bindP (query e (\<lambda>n d. insertMember e True (fa_ID created) ownerID FamilyRoleOwner (pgTime t) d)) (\<lambda>_.
        retP created))))"

definition repoGetFamily :: "env \<Rightarrow> ID \<Rightarrow> ID \<Rightarrow> (go_error, Family) io" where
  "repoGetFamily e familyID viewerID = query e (\<lambda>n d.
     bindS (castUUID e familyID) (\<lambda>f. bindS (castUUID e viewerID) (\<lambda>u.
     bindS (firstRow (filter (\<lambda>fam. fa_ID fam = f \<and> isMember d (fa_ID fam) u) (db_families d))) (\<lambda>fam.
     Inr (scanFamilyRow fam, d)))))"

definition repoListUserFamilies :: "env \<Rightarrow> ID \<Rightarrow> (go_error, Family list) io" where
  "repoListUserFamilies e userID = query e (\<lambda>n d.
     bindS (castUUID e userID) (\<lambda>u.
     Inr (map scanFamilyRow (orderBy (\<lambda>a b. fa_CreatedAt b \<le> fa_CreatedAt a)
            (filter (\<lambda>fam. isMember d (fa_ID fam) u) (db_families d))), d)))"

definition openInvite :: "string \<Rightarrow> time \<Rightarrow> family_invite \<Rightarrow> bool" where
  "openInvite codeHash now i \<longleftrightarrow> fi_CodeHash i = codeHash \<and> fi_RevokedAt i = None
     \<and> (case fi_ExpiresAt i of None \<Rightarrow> True | Some t \<Rightarrow> now < t)"

definition selectInvitedFamily :: "env \<Rightarrow> string \<Rightarrow> Family stmt" where
  "selectInvitedFamily e codeHash n d =
     (let joined = concat (map (\<lambda>i. map (\<lambda>fam. (i, fam)) (filter (\<lambda>fam. fa_ID fam = fi_FamilyID i) (db_families d)))
                     (filter (openInvite codeHash (dbNow e n)) (db_family_invites d)))
      in bindS (firstRow (orderBy (\<lambda>(i, a) (j, b). fi_CreatedAt j \<le> fi_CreatedAt i) joined)) (\<lambda>(i, fam).
         Inr (scanFamilyRow fam, d)))"

definition repoJoinFamilyByCode :: "env \<Rightarrow> ID \<Rightarrow> string \<Rightarrow> (go_error, Family) io" where
  "repoJoinFamilyByCode e userID codeHash =
     (if blank userID \<or> blank codeHash then throwP ErrInvalidArgument
      else bindP (query e (selectInvitedFamily e codeHash)) (\<lambda>family.
           bindP (query e (\<lambda>n d. insertMember e False (fa_ID family) userID FamilyRoleMember (dbNow e n) d)) (\<lambda>_.
           retP family)))"

definition assertFamilyManager :: "env \<Rightarrow> ID \<Rightarrow> ID \<Rightarrow> (go_error, unit) io" where
  "assertFamilyManager e actorID familyID =
     bindP (query e (\<lambda>n d. bindS (castUUID e familyID) (\<lambda>f. bindS (castUUID e actorID) (\<lambda>u. Inr (isManager d f u, d)))))
       (\<lambda>hasManagerRole. if \<not> hasManagerRole then throwP ErrForbidden else retP ())"

definition repoGenerateFamilyJoinCode :: "env \<Rightarrow> ID \<Rightarrow> ID \<Rightarrow> string \<Rightarrow> time option \<Rightarrow> (go_error, unit) io" where
  "repoGenerateFamilyJoinCode e actorID familyID codeHash expiresAt =
     (if blank codeHash then throwP ErrInvalidArgument
      else bindP (assertFamilyManager e actorID familyID) (\<lambda>_.
        query e (\<lambda>n d.
          bindS (castUUID e familyID) (\<lambda>f. bindS (castUUID e actorID) (\<lambda>u.
          bindS (checkS (codeHash \<notin> fi_CodeHash ` set (db_family_invites d)) ''23505'' ''family_invites_code_hash_key'') (\<lambda>_.
          bindS (checkS (f \<in> fa_ID ` set (db_families d) \<and> u \<in> us_ID ` set (db_users d)) ''23503'' ''family_invites_fkey'') (\<lambda>_.
          Inr ((), d\<lparr>db_family_invites := db_family_invites d @
            [\<lparr>fi_FamilyID = f, fi_CodeHash = codeHash, fi_ExpiresAt = map_option pgTime expiresAt, fi_RevokedAt = None,
              fi_CreatedBy = u, fi_CreatedAt = dbNow e n\<rparr>]\<rparr>))))))))"

definition repoListFamilyMembers :: "env \<Rightarrow> ID \<Rightarrow> ID \<Rightarrow> (go_error, FamilyMember list) io" where
  "repoListFamilyMembers e actorID familyID =
     bindP (hasFamilyAccess e actorID familyID) (\<lambda>allowed.
       if \<not> allowed then throwP ErrForbidden
       else query e (\<lambda>n d.
         bindS (castUUID e familyID) (\<lambda>f.
         Inr (concat (map (\<lambda>m. map (\<lambda>u. \<lparr>me_FamilyID = fm_FamilyID m, me_UserID = fm_UserID m,
                                        me_DisplayName = us_DisplayName u, me_Role = fm_Role m\<rparr>)
                              (filter (\<lambda>u. us_ID u = fm_UserID m) (db_users d)))
                (orderBy (\<lambda>a b. fm_JoinedAt a \<le> fm_JoinedAt b) (filter (\<lambda>m. fm_FamilyID m = f) (db_family_members d)))), d))))"

section \<open>Access checks\<close>

lemma castUUID_Inr: "castUUID e s = Inr u \<longleftrightarrow> uuid_in e s = Some u"
  by (auto simp: castUUID_def split: option.splits)

lemma assertFamilyWriter_Inr:
  assumes "assertFamilyWriter e userID familyID w = (Inr (), w')"
  obtains f u where "uuid_in e familyID = Some f" "uuid_in e userID = Some u" "isWriter (wo_db w) f u" "wo_db w' = wo_db w"
  using assms unfolding assertFamilyWriter_def
  by (auto simp: bindS_Inr castUUID_Inr split: if_splits elim!: bindP_InrE query_Inr)

lemma assertFamilyManager_Inr:
  assumes "assertFamilyManager e actorID familyID w = (Inr (), w')"
  obtains f u where "uuid_in e familyID = Some f" "uuid_in e actorID = Some u" "isManager (wo_db w) f u" "wo_db w' = wo_db w"
  using assms unfolding assertFamilyManager_def
  by (auto simp: bindS_Inr castUUID_Inr split: if_splits elim!: bindP_InrE query_Inr)

lemma hasFamilyAccess_Inr:
  assumes "hasFamilyAccess e userID familyID w = (Inr b, w')"
  obtains f u where "uuid_in e familyID = Some f" "uuid_in e userID = Some u" "b \<longleftrightarrow> isMember (wo_db w) f u" "wo_db w' = wo_db w"
  using assms unfolding hasFamilyAccess_def
  by (auto simp: bindS_Inr castUUID_Inr split: if_splits elim!: query_Inr)

lemma preserves_access [preserve_rules]:
  assumes "frame_rel R"
  shows "preserves (\<lambda>w w'. R (wo_db w) (wo_db w')) (hasFamilyAccess e userID familyID)"
    and "preserves (\<lambda>w w'. R (wo_db w) (wo_db w')) (assertFamilyWriter e userID familyID)"
    and "preserves (\<lambda>w w'. R (wo_db w) (wo_db w')) (assertFamilyManager e userID familyID)"
proof -
  have refl: "R d d" for d using assms by (simp add: frame_rel_def)
  note fr = frame_rel_db [OF assms]
  show "preserves (\<lambda>w w'. R (wo_db w) (wo_db w')) (hasFamilyAccess e userID familyID)"
    unfolding hasFamilyAccess_def by (intro preserve_rules fr preserves_query) (auto simp: bindS_Inr refl)
  show "preserves (\<lambda>w w'. R (wo_db w) (wo_db w')) (assertFamilyWriter e userID familyID)"
    unfolding assertFamilyWriter_def by (intro preserve_rules fr preserves_query) (auto simp: bindS_Inr refl)
  show "preserves (\<lambda>w w'. R (wo_db w) (wo_db w')) (assertFamilyManager e userID familyID)"
    unfolding assertFamilyManager_def by (intro preserve_rules fr preserves_query) (auto simp: bindS_Inr refl)
qed

section \<open>Membership\<close>

text \<open>The members of a family other than through \<open>user\<close> are untouched.\<close>

lemma insertMember_Inr:
  assumes "insertMember e overwrite familyID userID role t d = Inr (x, d')"
  obtains f u where "uuid_in e familyID = Some f" "uuid_in e userID = Some u" "isMember d' f u"
    and "isMember d f u \<Longrightarrow> \<not> overwrite \<Longrightarrow> d' = d"
    and "\<not> isMember d f u \<Longrightarrow> d' = d\<lparr>db_family_members := db_family_members d @
                      [\<lparr>fm_FamilyID = f, fm_UserID = u, fm_Role = role, fm_JoinedAt = t\<rparr>]\<rparr>"
    and "isMember d f u \<Longrightarrow> overwrite \<Longrightarrow> d' = d\<lparr>db_family_members := updateRows (\<lambda>m. fm_FamilyID m = f \<and> fm_UserID m = u)
                                         (\<lambda>m. m\<lparr>fm_Role := role\<rparr>) (db_family_members d)\<rparr>"
proof -
  from assms obtain f u where fu: "uuid_in e familyID = Some f" "uuid_in e userID = Some u"
    "d' = (if isMember d f u then if overwrite then d\<lparr>db_family_members := updateRows (\<lambda>m. fm_FamilyID m = f \<and> fm_UserID m = u)
                                         (\<lambda>m. m\<lparr>fm_Role := role\<rparr>) (db_family_members d)\<rparr> else d
       else d\<lparr>db_family_members := db_family_members d @ [\<lparr>fm_FamilyID = f, fm_UserID = u, fm_Role = role, fm_JoinedAt = t\<rparr>]\<rparr>)"
    unfolding insertMember_def by (auto simp: bindS_Inr castUUID_Inr simp del: insert_iff split: if_splits)
  moreover have "list_ex (\<lambda>m. fm_FamilyID m = f \<and> fm_UserID m = u) (updateRows (\<lambda>m. fm_FamilyID m = f \<and> fm_UserID m = u) (\<lambda>m. m\<lparr>fm_Role := role\<rparr>) ms)"
    if "list_ex (\<lambda>m. fm_FamilyID m = f \<and> fm_UserID m = u) ms" for ms
    using that by (induction ms) auto
  ultimately show thesis by (intro that [of f u]) (auto simp: isMember_def)
qed

text \<open>A family member belongs to an existing family, and a generated uuid reads back as itself.\<close>

definition families_inv :: "database \<Rightarrow> bool" where
  "families_inv d \<longleftrightarrow> (\<forall>m\<in>set (db_family_members d). fm_FamilyID m \<in> fa_ID ` set (db_families d))"

definition uuid_ok :: "env \<Rightarrow> bool" where
  "uuid_ok e \<longleftrightarrow> (\<forall>n. uuid_in e (uuid_at e n) = Some (uuid_at e n))"

text \<open>How the tables look when \<open>row\<close> has been created for the owner \<open>u\<close>.\<close>

definition withFamily :: "database \<Rightarrow> Family \<Rightarrow> ID \<Rightarrow> time \<Rightarrow> database" where
  "withFamily d row u t = d\<lparr>db_families := db_families d @ [row],
     db_family_members := db_family_members d @ [\<lparr>fm_FamilyID = fa_ID row, fm_UserID = u, fm_Role = ''owner'', fm_JoinedAt = t\<rparr>]\<rparr>"

lemma scanFamilyRow_id [simp]: "scanFamilyRow f = f"
  by (simp add: scanFamilyRow_def)

lemma transaction_cases:
  assumes "transaction e body w = (r, w')"
  obtains (failed) err where "r = Inl err" "wo_db w' = wo_db w"
  | (committed) t w1 w2 x where "wo_db w1 = wo_db w" "body t w1 = (Inr x, w2)" "wo_db w' = wo_db w2" "\<And>y. r = Inr y \<Longrightarrow> y = x"
proof -
  obtain q w1 where q: "query e (\<lambda>n d. Inr (clock_at e n, d)) w = (q, w1)" by fastforce
  have "db_kept (query e (\<lambda>n d. Inr (clock_at e n, d)))" by (rule db_kept_query_read) simp
  from preservesD [OF this q] have db1: "wo_db w1 = wo_db w" .
  show thesis
  proof (cases q)
    case (Inl err)
    then have "r = Inl err" "w' = w1" using assms by (simp_all add: transaction_def q)
    then show thesis using failed db1 by simp
  next
    case (Inr t)
    obtain r2 w2 where b: "body t w1 = (r2, w2)" by fastforce
    show thesis
    proof (cases r2)
      case (Inl err)
      then have "r = Inl err" "wo_db w' = wo_db w1" using assms by (auto simp: transaction_def q Inr b)
      then show thesis using failed db1 by simp
    next
      case (Inr x)
      have "(\<exists>err. r = Inl err \<and> wo_db w' = wo_db w1) \<or> (wo_db w' = wo_db w2 \<and> (\<forall>y. r = Inr y \<longrightarrow> y = x))"
      proof (cases "fault_at e (wo_tick w2)")
        case None
        then have "r = Inr x" "wo_db w' = wo_db w2"
          using assms by (auto simp: transaction_def q \<open>q = Inr t\<close> b Inr Let_def)
        then show ?thesis by simp
      next
        case (Some ft)
        then show ?thesis
          using assms by (cases ft) (auto simp: transaction_def q \<open>q = Inr t\<close> b Inr Let_def)
      qed
      then show thesis
      proof (elim disjE exE conjE)
        fix err assume "r = Inl err" "wo_db w' = wo_db w1"
        then show thesis using failed db1 by simp
      next
        assume "wo_db w' = wo_db w2" "\<forall>y. r = Inr y \<longrightarrow> y = x"
        then show thesis by (intro committed [OF db1 b [unfolded Inr]]) simp_all
      qed
    qed
  qed
qed

lemma insertFamily_Inr:
  assumes "insertFamily e family t n d = Inr (fam, d')"
  shows "fa_ID fam = uuid_at e n \<and> fa_ID fam \<notin> fa_ID ` set (db_families d) \<and> fa_Name fam = fa_Name family
    \<and> fa_Type fam = fa_Type family \<and> d' = d\<lparr>db_families := db_families d @ [fam]\<rparr>"
  using assms unfolding insertFamily_def Let_def bindS_Inr by auto

lemma createFamily_body:
  assumes "families_inv (wo_db w)" and "uuid_ok e"
    and "bindP (query e (insertFamily e family (pgTime t))) (\<lambda>created.
        bindP (query e (\<lambda>n d. insertMember e True (fa_ID created) ownerID FamilyRoleOwner (pgTime t) d)) (\<lambda>_.
        retP created)) w = (Inr fam, w')"
  shows "\<exists>u. uuid_in e ownerID = Some u \<and> fa_ID fam \<notin> fa_ID ` set (db_families (wo_db w))
    \<and> fa_Name fam = fa_Name family \<and> fa_Type fam = fa_Type family \<and> wo_db w' = withFamily (wo_db w) fam u (pgTime t)"
proof -
  from assms(3) obtain w1 w2 where q: "query e (insertFamily e family (pgTime t)) w = (Inr fam, w1)"
    "query e (\<lambda>n d. insertMember e True (fa_ID fam) ownerID FamilyRoleOwner (pgTime t) d) w1 = (Inr (), w2)" "w2 = w'"
    by (auto elim!: bindP_InrE)
  from q(1) have "insertFamily e family (pgTime t) (wo_tick w) (wo_db w) = Inr (fam, wo_db w1)"
    by (rule query_InrD)
  note fam = insertFamily_Inr [OF this]
  from q(2,3) have ins: "insertMember e True (fa_ID fam) ownerID FamilyRoleOwner (pgTime t) (wo_db w1) = Inr ((), wo_db w')"
    using query_InrD [OF q(2)] by simp
  from ins show ?thesis
  proof (rule insertMember_Inr)
    fix f u
    assume fu: "uuid_in e (fa_ID fam) = Some f" "uuid_in e ownerID = Some u"
      "\<not> isMember (wo_db w1) f u \<Longrightarrow> wo_db w' = (wo_db w1)\<lparr>db_family_members := db_family_members (wo_db w1) @
         [\<lparr>fm_FamilyID = f, fm_UserID = u, fm_Role = FamilyRoleOwner, fm_JoinedAt = pgTime t\<rparr>]\<rparr>"
    have f: "f = fa_ID fam" using fu(1) fam assms(2) by (simp add: uuid_ok_def)
    have "\<not> isMember (wo_db w1) (fa_ID fam) u"
    proof
      assume "isMember (wo_db w1) (fa_ID fam) u"
      then obtain m where "m \<in> set (db_family_members (wo_db w))" "fm_FamilyID m = fa_ID fam"
        using fam by (auto simp: isMember_def list_ex_iff)
      with assms(1) fam show False unfolding families_inv_def by metis
    qed
    with fu fam f show ?thesis by (elim conjE) (simp add: withFamily_def)
  qed
qed

section \<open>Properties\<close>

text \<open>
  Property C15: a family is created with its owner or not at all. Whatever \<open>CreateFamily\<close>
  answers, the tables are unchanged or hold exactly one new family, with a fresh id and the
  requested name and type, and one new member, the requesting user as its owner; a successful
  answer is that family.
\<close>

theorem create_family_atomic:
  assumes "families_inv (wo_db w)" and "uuid_ok e" and "repoCreateFamily e family ownerID w = (r, w')"
  shows "(isl r \<and> wo_db w' = wo_db w)
    \<or> (\<exists>fam u t. uuid_in e ownerID = Some u \<and> fa_ID fam \<notin> fa_ID ` set (db_families (wo_db w))
         \<and> fa_Name fam = fa_Name family \<and> fa_Type fam = fa_Type family
         \<and> wo_db w' = withFamily (wo_db w) fam u t \<and> (isl r \<or> r = Inr fam))"
proof (cases "blank (fa_Name family) \<or> blank (fa_Type family) \<or> blank ownerID")
  case True
  then show ?thesis using assms(3) by (auto simp: repoCreateFamily_def)
next
  case False
  with assms(3) have tx: "transaction e (\<lambda>t.
        bindP (query e (insertFamily e family (pgTime t))) (\<lambda>created.
        bindP (query e (\<lambda>n d. insertMember e True (fa_ID created) ownerID FamilyRoleOwner (pgTime t) d)) (\<lambda>_.
        retP created))) w = (r, w')"
    unfolding repoCreateFamily_def by (simp only: if_False)
  from tx show ?thesis
  proof (cases rule: transaction_cases)
    case (failed err)
    then show ?thesis by simp
  next
    case (committed t w1 w2 x)
    have "families_inv (wo_db w1)" using assms(1) committed(1) by simp
    from createFamily_body [OF this assms(2) committed(2)] committed(1,3,4) show ?thesis
      by (cases r) auto
  qed
qed

definition example_family :: Family where
  "example_family = \<lparr>fa_ID = ''f1'', fa_Name = ''Tan'', fa_Type = ''couple'', fa_CreatedAt = 0, fa_UpdatedAt = 0\<rparr>"

lemma example_env_ok: "uuid_ok example_env"
  by (simp add: uuid_ok_def example_env_def)

theorem create_family_atomic_witness:
  "\<exists>fam u t. wo_db (snd (repoCreateFamily example_env example_family ''u1'' example_world)) = withFamily (wo_db example_world) fam u t
     \<and> fst (repoCreateFamily example_env example_family ''u1'' example_world) = Inr fam \<and> fa_Name fam = ''Tan''"
proof -
  have "families_inv (wo_db example_world)" by (simp add: families_inv_def example_world_def emptyDB_def)
  moreover obtain r w' where r: "repoCreateFamily example_env example_family ''u1'' example_world = (r, w')" by fastforce
  moreover have "\<not> isl (fst (repoCreateFamily example_env example_family ''u1'' example_world))" by code_simp
  ultimately show ?thesis
    using create_family_atomic [OF _ example_env_ok r] by (auto simp: example_family_def)
qed

lemma selectInvitedFamily_Inr:
  assumes "selectInvitedFamily e codeHash n d = Inr (fam, d')"
  shows "d' = d \<and> (\<exists>i. i \<in> set (db_family_invites d) \<and> openInvite codeHash (dbNow e n) i
      \<and> fam \<in> set (db_families d) \<and> fi_FamilyID i = fa_ID fam)"
proof -
  let ?joined = "concat (map (\<lambda>i. map (\<lambda>fam. (i, fam)) (filter (\<lambda>fam. fa_ID fam = fi_FamilyID i) (db_families d)))
                     (filter (openInvite codeHash (dbNow e n)) (db_family_invites d)))"
  from assms obtain i rest where d: "d' = d"
    and o: "orderBy (\<lambda>(i, a) (j, b). fi_CreatedAt j \<le> fi_CreatedAt i) ?joined = (i, fam) # rest"
    by (auto simp: selectInvitedFamily_def Let_def bindS_Inr firstRow_Inr split: prod.splits)
  have "set ?joined = set ((i, fam) # rest)" by (simp only: o [symmetric] set_orderBy)
  then have "(i, fam) \<in> set ?joined" by simp
  then have "i \<in> set (filter (openInvite codeHash (dbNow e n)) (db_family_invites d))"
    "fam \<in> set (filter (\<lambda>fam. fa_ID fam = fi_FamilyID i) (db_families d))" by auto
  with d show ?thesis by auto
qed

text \<open>How the tables look when \<open>u\<close> has joined \<open>f\<close> as a member.\<close>

definition withMember :: "database \<Rightarrow> ID \<Rightarrow> ID \<Rightarrow> time \<Rightarrow> database" where
  "withMember d f u t = d\<lparr>db_family_members := db_family_members d @
     [\<lparr>fm_FamilyID = f, fm_UserID = u, fm_Role = ''member'', fm_JoinedAt = t\<rparr>]\<rparr>"

lemma insertMember_join:
  assumes "insertMember e False familyID userID FamilyRoleMember t d = Inr (x, d')"
  shows "\<exists>f u. uuid_in e familyID = Some f \<and> uuid_in e userID = Some u \<and> isMember d' f u
     \<and> (d' = d \<or> (\<not> isMember d f u \<and> d' = withMember d f u t))"
  using assms by (rule insertMember_Inr) (metis withMember_def)


definition example_invited :: world where
  "example_invited = example_world\<lparr>wo_db := (wo_db example_world)\<lparr>db_families := [example_family],
        db_family_invites := [\<lparr>fi_FamilyID = ''f1'', fi_CodeHash = ''code'', fi_ExpiresAt = None, fi_RevokedAt = None,
          fi_CreatedBy = [], fi_CreatedAt = 0\<rparr>]\<rparr>\<rparr>"


end
