(* ===== verification/Repo_People.thy ===== *)
theory Repo_People
  imports Repo_Families
begin

text \<open>
  \<open>internal/repository/postgres/people.go\<close>: person profiles and their income history, with
  the fallbacks for databases whose schema is older than the history table or the linked user
  column; such a database shows itself only through the errors its statements return.
\<close>

section \<open>Values\<close>

definition isHexRune :: "char \<Rightarrow> bool" where
  "isHexRune ch \<longleftrightarrow> (48 \<le> byte ch \<and> byte ch \<le> 57) \<or> (97 \<le> byte ch \<and> byte ch \<le> 102) \<or> (65 \<le> byte ch \<and> byte ch \<le> 70)"

text \<open>A byte of a multi-byte character is neither a hyphen nor a hexadecimal digit, so the loop over
  characters is the same as one over bytes.\<close>

definition isCanonicalUUID :: "string \<Rightarrow> bool" where
  "isCanonicalUUID value \<longleftrightarrow> length value = 36
     \<and> (\<forall>i<36. if i \<in> {8, 13, 18, 23} then value ! i = CHR ''-'' else isHexRune (value ! i))"

definition normalizeOptionalUUID :: "(string \<Rightarrow> string) \<Rightarrow> string \<Rightarrow> string" where
  "normalizeOptionalUUID uni value =
     (let trimmed = trimSpace value in
      if trimmed = [] then [] else if isCanonicalUUID trimmed then toLower uni trimmed else [])"

definition errText :: "db_error \<Rightarrow> string" where
  "errText err = (case err of ErrNoRows \<Rightarrow> ''no rows in result set'' | PgError code msg \<Rightarrow> msg
     | DbCtx Canceled \<Rightarrow> ''context canceled'' | DbCtx DeadlineExceeded \<Rightarrow> ''context deadline exceeded'' | DbOther msg \<Rightarrow> msg)"

definition isMissingIncomeHistoryRelationError :: "env \<Rightarrow> db_error \<Rightarrow> bool" where
  "isMissingIncomeHistoryRelationError e err =
     (case err of
        PgError code msg \<Rightarrow> code = ''42P01'' \<and> contains (toLower (uni_lower e) msg) ''person_income_history''
      | _ \<Rightarrow> let lowerErr = toLower (uni_lower e) (errText err)
             in contains lowerErr ''person_income_history'' \<and> contains lowerErr ''does not exist'')"

definition isLinkedUserCompatibilityError :: "env \<Rightarrow> db_error \<Rightarrow> bool" where
  "isLinkedUserCompatibilityError e err =
     (case err of
        PgError code msg \<Rightarrow>
          let lowerMsg = toLower (uni_lower e) msg in
          if code = ''22P02'' \<and> contains lowerMsg ''invalid input syntax for type uuid'' then True
          else if \<not> contains lowerMsg ''linked_user_id'' then False
          else code \<in> {''42703'', ''42804'', ''42883'', ''22P02''}
      | _ \<Rightarrow> let lowerErr = toLower (uni_lower e) (errText err) in
             contains lowerErr ''linked_user_id''
             \<and> (contains lowerErr ''does not exist'' \<or> contains lowerErr ''datatype mismatch''
                \<or> contains lowerErr ''operator does not exist'' \<or> contains lowerErr ''cannot be matched''
                \<or> contains lowerErr ''invalid input syntax for type uuid''))"

section \<open>Rows\<close>

definition scanPersonRow :: "PersonProfile \<Rightarrow> PersonProfile" where
  "scanPersonRow row = row\<lparr>
     pp_ExpectedIncomeStartDate := parseOptionalDate (optionalDateString (pp_ExpectedIncomeStartDate row)),
     pp_GraduationDate := parseOptionalDate (optionalDateString (pp_GraduationDate row)),
     pp_ORDDate := parseOptionalDate (optionalDateString (pp_ORDDate row))\<rparr>"

definition scanLegacyPersonRow :: "PersonProfile \<Rightarrow> PersonProfile" where
  "scanLegacyPersonRow row = (scanPersonRow row)\<lparr>pp_LinkedUserID := []\<rparr>"

definition personCheck :: "PersonProfile \<Rightarrow> bool" where
  "personCheck p \<longleftrightarrow> 0 \<le> pp_Age p \<and> pp_Age p \<le> 120
     \<and> pp_EmploymentStatus p \<in> {''full_time_employee'', ''part_time_employee'', ''self_employed'', ''student'', ''full_time_nsf'',
          ''unemployed'', ''future_employee'', ''other''}
     \<and> 0 \<le> pp_GrossMonthlyIncomeCents p \<and> 0 \<le> pp_ExpectedFutureIncomeCents p \<and> 0 \<le> pp_CashSavingsCents p
     \<and> 0 \<le> pp_CPFOACents p \<and> 0 \<le> pp_CPFSACents p \<and> 0 \<le> pp_CPFMACents p \<and> 0 \<le> pp_MonthlyExpensesCents p"

definition historyOf :: "PersonProfile \<Rightarrow> history_row" where
  "historyOf p = \<lparr>hr_PersonID = pp_ID p, hr_FamilyID = pp_FamilyID p, hr_PersonName = pp_Name p,
     hr_GrossMonthlyIncomeCents = pp_GrossMonthlyIncomeCents p, hr_ExpectedFutureIncomeCents = pp_ExpectedFutureIncomeCents p,
     hr_RecordedAt = pp_UpdatedAt p\<rparr>"

text \<open>The constraints of the table on a row \<open>p\<close> among the \<open>others\<close>.\<close>

definition personConstraints :: "database \<Rightarrow> PersonProfile list \<Rightarrow> PersonProfile \<Rightarrow> db_error + unit" where
  "personConstraints d others p =
     bindS (checkS (personCheck p) ''23514'' ''person_profiles_check'') (\<lambda>_.
     bindS (checkS (\<not> list_ex (\<lambda>q. pp_ID q = pp_ID p \<or> (pp_LinkedUserID p \<noteq> [] \<and> pp_FamilyID q = pp_FamilyID p
              \<and> pp_LinkedUserID q = pp_LinkedUserID p)) others) ''23505'' ''person_profiles_family_linked_user_uidx'') (\<lambda>_.
     checkS (pp_FamilyID p \<in> fa_ID ` set (db_families d) \<and> (pp_LinkedUserID p = [] \<or> pp_LinkedUserID p \<in> us_ID ` set (db_users d)))
       ''23503'' ''person_profiles_fkey''))"

text \<open>The casts of the parameters to the column types.\<close>

definition castProfile :: "PersonProfile \<Rightarrow> db_error + PersonProfile" where
  "castProfile p =
     bindS (castInt4 (pp_Age p)) (\<lambda>age.
     bindS (castDate (optionalDateString (pp_ExpectedIncomeStartDate p))) (\<lambda>start.
     bindS (castDate (optionalDateString (pp_GraduationDate p))) (\<lambda>grad.
     bindS (castDate (optionalDateString (pp_ORDDate p))) (\<lambda>ord.
     Inr (p\<lparr>pp_Age := age, pp_ExpectedIncomeStartDate := start, pp_GraduationDate := grad, pp_ORDDate := ord\<rparr>)))))"

text \<open>\<open>INSERT INTO person_profiles\<close>; with \<open>history\<close> the statement's second insert runs too.\<close>

definition insertPerson :: "env \<Rightarrow> bool \<Rightarrow> ID \<Rightarrow> PersonProfile \<Rightarrow> PersonProfile stmt" where
  "insertPerson e history linked profile n d =
     bindS (castUUID e (pp_FamilyID profile)) (\<lambda>f.
     bindS (castUUIDOpt e linked) (\<lambda>l.
     bindS (castProfile profile) (\<lambda>p.
     let row = p\<lparr>pp_ID := uuid_at e n, pp_FamilyID := f, pp_LinkedUserID := l, pp_CreatedAt := dbNow e n, pp_UpdatedAt := dbNow e n\<rparr>
     in bindS (personConstraints d (db_person_profiles d) row) (\<lambda>_.
        Inr (row, d\<lparr>db_person_profiles := db_person_profiles d @ [row],
                    db_person_income_history := db_person_income_history d @ (if history then [historyOf row] else [])\<rparr>)))))"

text \<open>\<open>UPDATE person_profiles p ... FROM family_members fm\<close>: the row with the id in a family where the
  actor may write. \<open>linked\<close> is None when the statement leaves the linked user alone; the empty
  text keeps it through \<open>COALESCE\<close>.\<close>

definition updatePerson :: "env \<Rightarrow> bool \<Rightarrow> ID option \<Rightarrow> PersonProfile \<Rightarrow> ID \<Rightarrow> PersonProfile stmt" where
  "updatePerson e history linked profile actorID n d =
     bindS (castUUID e (pp_ID profile)) (\<lambda>i.
     bindS (castUUID e actorID) (\<lambda>u.
     bindS (case linked of None \<Rightarrow> Inr [] | Some s \<Rightarrow> castUUIDOpt e s) (\<lambda>l.
     bindS (castProfile profile) (\<lambda>p.
     bindS (firstRow (filter (\<lambda>q. pp_ID q = i \<and> isWriter d (pp_FamilyID q) u) (db_person_profiles d))) (\<lambda>old.
     let row = p\<lparr>pp_ID := pp_ID old, pp_FamilyID := pp_FamilyID old, pp_LinkedUserID := (if l = [] then pp_LinkedUserID old else l),
                 pp_CreatedAt := pp_CreatedAt old, pp_UpdatedAt := dbNow e n\<rparr>
     in bindS (personConstraints d (filter (\<lambda>q. pp_ID q \<noteq> i) (db_person_profiles d)) row) (\<lambda>_.
        Inr (row, d\<lparr>db_person_profiles := updateRows (\<lambda>q. pp_ID q = i \<and> isWriter d (pp_FamilyID q) u) (\<lambda>q. row) (db_person_profiles d),
                    db_person_income_history := db_person_income_history d @ (if history then [historyOf row] else [])\<rparr>)))))))"

section \<open>Operations\<close>

definition repoCreatePersonProfile :: "env \<Rightarrow> PersonProfile \<Rightarrow> ID \<Rightarrow> (go_error, PersonProfile) io" where
  "repoCreatePersonProfile e profile actorID =
     (if blank (pp_FamilyID profile) \<or> blank (pp_Name profile) then throwP ErrInvalidArgument
      else bindP (assertFamilyWriter e actorID (pp_FamilyID profile)) (\<lambda>_.
        let linkedUserID = normalizeOptionalUUID (uni_lower e) (pp_LinkedUserID profile) in
        catchP (bindP (sql e (insertPerson e True linkedUserID profile)) (\<lambda>row. retP (scanPersonRow row))) (\<lambda>err.
          if isMissingIncomeHistoryRelationError e err \<or> isLinkedUserCompatibilityError e err
          then mapErr normalizeError (bindP (sql e (insertPerson e False [] profile)) (\<lambda>row. retP (scanLegacyPersonRow row)))
          else throwP (normalizeError err))))"

definition selectPerson :: "env \<Rightarrow> ID \<Rightarrow> ID \<Rightarrow> PersonProfile stmt" where
  "selectPerson e personID viewerID n d =
     bindS (castUUID e personID) (\<lambda>i. bindS (castUUID e viewerID) (\<lambda>u.
     bindS (firstRow (filter (\<lambda>p. pp_ID p = i \<and> isMember d (pp_FamilyID p) u) (db_person_profiles d))) (\<lambda>p.
     Inr (p, d))))"

definition repoGetPersonProfile :: "env \<Rightarrow> ID \<Rightarrow> ID \<Rightarrow> (go_error, PersonProfile) io" where
  "repoGetPersonProfile e personID viewerID =
     catchP (bindP (sql e (selectPerson e personID viewerID)) (\<lambda>row. retP (scanPersonRow row))) (\<lambda>err.
       if isLinkedUserCompatibilityError e err
       then mapErr normalizeError (bindP (sql e (selectPerson e personID viewerID)) (\<lambda>row. retP (scanLegacyPersonRow row)))
       else throwP (normalizeError err))"

definition selectPeople :: "env \<Rightarrow> ID \<Rightarrow> PersonProfile list stmt" where
  "selectPeople e familyID n d =
     bindS (castUUID e familyID) (\<lambda>f.
     Inr (orderBy (\<lambda>p q. pp_CreatedAt q \<le> pp_CreatedAt p) (filter (\<lambda>p. pp_FamilyID p = f) (db_person_profiles d)), d))"

definition repoListPersonProfilesByFamily :: "env \<Rightarrow> ID \<Rightarrow> ID \<Rightarrow> (go_error, PersonProfile list) io" where
  "repoListPersonProfilesByFamily e familyID viewerID =
     bindP (hasFamilyAccess e viewerID familyID) (\<lambda>allowed.
       if \<not> allowed then throwP ErrForbidden
       else catchP (bindP (sql e (selectPeople e familyID)) (\<lambda>rows. retP (map scanPersonRow rows))) (\<lambda>err.
         if isLinkedUserCompatibilityError e err
         then mapErr normalizeError (bindP (sql e (selectPeople e familyID)) (\<lambda>rows. retP (map scanLegacyPersonRow rows)))
         else throwP (normalizeError err)))"

definition repoListPersonIncomeHistoryByFamily :: "env \<Rightarrow> ID \<Rightarrow> ID \<Rightarrow> (go_error, PersonIncomeHistoryEntry list) io" where
  "repoListPersonIncomeHistoryByFamily e familyID viewerID =
     bindP (hasFamilyAccess e viewerID familyID) (\<lambda>allowed.
       if \<not> allowed then throwP ErrForbidden
       else query e (\<lambda>n d.
         bindS (castUUID e familyID) (\<lambda>f.
         Inr (map (\<lambda>h. \<lparr>ih_PersonID = hr_PersonID h,
                        ih_PersonName = (case filter (\<lambda>p. pp_ID p = hr_PersonID h) (db_person_profiles d) of
                                           [] \<Rightarrow> hr_PersonName h | p # _ \<Rightarrow> pp_Name p),
                        ih_GrossMonthlyIncomeCents = hr_GrossMonthlyIncomeCents h,
                        ih_ExpectedFutureIncomeCents = hr_ExpectedFutureIncomeCents h, ih_RecordedAt = hr_RecordedAt h\<rparr>)
               (orderBy (\<lambda>h k. hr_RecordedAt h < hr_RecordedAt k \<or> (hr_RecordedAt h = hr_RecordedAt k \<and> textLE (hr_PersonID h) (hr_PersonID k)))
                 (filter (\<lambda>h. hr_FamilyID h = f) (db_person_income_history d))), d))))"

definition repoUpdatePersonProfile :: "env \<Rightarrow> PersonProfile \<Rightarrow> ID \<Rightarrow> (go_error, PersonProfile) io" where
  "repoUpdatePersonProfile e profile actorID =
     (if blank (pp_ID profile) \<or> blank (pp_Name profile) then throwP ErrInvalidArgument
      else let linkedUserID = normalizeOptionalUUID (uni_lower e) (pp_LinkedUserID profile) in
        catchP (bindP (sql e (updatePerson e True (Some linkedUserID) profile actorID)) (\<lambda>row. retP (scanPersonRow row))) (\<lambda>err.
          if isLinkedUserCompatibilityError e err
          then mapErr normalizeError (bindP (sql e (updatePerson e False None profile actorID)) (\<lambda>row. retP (scanLegacyPersonRow row)))
          else if isMissingIncomeHistoryRelationError e err
          then catchP (bindP (sql e (updatePerson e False (Some linkedUserID) profile actorID)) (\<lambda>row. retP (scanPersonRow row))) (\<lambda>err.
            if isLinkedUserCompatibilityError e err
            then mapErr normalizeError (bindP (sql e (updatePerson e False None profile actorID)) (\<lambda>row. retP (scanLegacyPersonRow row)))
            else throwP (normalizeError err))
          else throwP (normalizeError err)))"

text \<open>Deleting a profile cascades to its history.\<close>

definition deletePerson :: "env \<Rightarrow> ID \<Rightarrow> ID \<Rightarrow> nat stmt" where
  "deletePerson e personID actorID n d =
     bindS (castUUID e personID) (\<lambda>i. bindS (castUUID e actorID) (\<lambda>u.
     let gone = filter (\<lambda>p. pp_ID p = i \<and> isWriter d (pp_FamilyID p) u) (db_person_profiles d) in
     Inr (length gone,
          d\<lparr>db_person_profiles := filter (\<lambda>p. \<not> (pp_ID p = i \<and> isWriter d (pp_FamilyID p) u)) (db_person_profiles d),
            db_person_income_history := filter (\<lambda>h. hr_PersonID h \<notin> pp_ID ` set gone) (db_person_income_history d)\<rparr>)))"

definition repoDeletePersonProfile :: "env \<Rightarrow> ID \<Rightarrow> ID \<Rightarrow> (go_error, unit) io" where
  "repoDeletePersonProfile e personID actorID =
     bindP (query e (deletePerson e personID actorID)) (\<lambda>rows. if rows = 0 then throwP ErrNotFound else retP ())"

end
