(* ===== verification/Checklist_Domain.thy ===== *)
theory Checklist_Domain
  imports Domain_Model
begin

text \<open>
  \<open>internal/domain/housing_checklist.go\<close> and \<open>housing_notes.go\<close>: validation of
  checklist criteria, answers and notes, and the summary of an evaluation, a loop over the
  criteria with \<open>int32\<close> counters and \<open>float64\<close> sums. The lemmas show which criteria
  count, and that with integral weights the score is the correctly rounded weighted mean and
  lies between the least and the greatest rating.
\<close>

section \<open>Validation\<close>

definition wrongWeight :: "float64 \<Rightarrow> bool" where
  "wrongWeight w \<longleftrightarrow> w = NaN \<or> w = PInf \<or> w = NInf \<or> fle w (Fin 0) \<or> fless (Fin 1000) w"

definition ValidateHousingCriterion :: "HousingCriterion \<Rightarrow> go_error option" where
  "ValidateHousingCriterion c =
     (if blank (hc_FamilyID c) \<or> blank (hc_Name c) \<or> runeCount (hc_Name c) > 120
         \<or> runeCount (hc_Description c) > 2000 \<or> hc_DisplayOrder c < 0
      then Some ErrInvalidArgument
      else if (case hc_Weight c of None \<Rightarrow> False | Some w \<Rightarrow> wrongWeight w) then Some ErrInvalidArgument
      else None)"

definition ValidateHousingAnswer :: "HousingAnswer \<Rightarrow> go_error option" where
  "ValidateHousingAnswer a =
     (if ha_HousingID a = [] \<or> ha_CriterionID a = [] \<or> runeCount (ha_Notes a) > 5000
      then Some ErrInvalidArgument
      else if ha_State a \<noteq> ''pending'' \<and> ha_State a \<noteq> ''complete'' \<and> ha_State a \<noteq> ''not_applicable''
      then Some ErrInvalidArgument
      else if (case ha_Rating a of None \<Rightarrow> False | Some r \<Rightarrow> r < 1 \<or> r > 5) then Some ErrInvalidArgument
      else if (ha_State a = ''complete'' \<and> ha_Rating a = None) \<or> (ha_State a = ''not_applicable'' \<and> ha_Rating a \<noteq> None)
      then Some ErrInvalidArgument
      else None)"

definition HousingNotesMaxLength :: nat where
  "HousingNotesMaxLength = 10000"

definition ValidateHousingNotes :: "string \<Rightarrow> go_error option" where
  "ValidateHousingNotes notes =
     (if \<not> validUTF8 notes \<or> runeCount notes > HousingNotesMaxLength then Some ErrInvalidArgument else None)"

section \<open>The summary\<close>

definition zeroAnswer :: HousingAnswer where
  "zeroAnswer = \<lparr>ha_HousingID = [], ha_CriterionID = [], ha_State = [], ha_Rating = None, ha_Notes = []\<rparr>"

definition answersByID :: "HousingAnswer list \<Rightarrow> ID \<rightharpoonup> HousingAnswer" where
  "answersByID answers = foldl (\<lambda>m a. m(ha_CriterionID a \<mapsto> a)) Map.empty answers"

definition lookupAnswer :: "(ID \<rightharpoonup> HousingAnswer) \<Rightarrow> ID \<Rightarrow> HousingAnswer" where
  "lookupAnswer byID k = (case byID k of None \<Rightarrow> zeroAnswer | Some a \<Rightarrow> a)"

record evalState =
  ev_summary :: HousingEvaluationSummary
  ev_sum :: float64
  ev_weights :: float64

definition summarizeStep :: "(ID \<rightharpoonup> HousingAnswer) \<Rightarrow> evalState \<Rightarrow> HousingCriterion \<Rightarrow> evalState" where
  "summarizeStep byID st c =
     (let weight = (case hc_Weight c of None \<Rightarrow> Fin 1 | Some w \<Rightarrow> w);
          s = (case hc_Weight c of None \<Rightarrow> ev_summary st | Some w \<Rightarrow> (ev_summary st)\<lparr>es_Weighted := True\<rparr>);
          a = lookupAnswer byID (hc_ID c)
      in if ha_State a = ''not_applicable'' then
           st\<lparr>ev_summary := s\<lparr>es_NotApplicable := i32 (es_NotApplicable s + 1)\<rparr>\<rparr>
         else let s = (if ha_State a = ''complete'' then s\<lparr>es_Completed := i32 (es_Completed s + 1)\<rparr> else s)
              in case ha_Rating a of
                   None \<Rightarrow> st\<lparr>ev_summary := s\<rparr>
                 | Some r \<Rightarrow> \<lparr>ev_summary = s\<lparr>es_Rated := i32 (es_Rated s + 1)\<rparr>,
                     ev_sum = fadd (ev_sum st) (fmul (fofint r) weight),
                     ev_weights = fadd (ev_weights st) weight\<rparr>)"

definition SummarizeHousingEvaluation ::
    "HousingCriterion list \<Rightarrow> HousingAnswer list \<Rightarrow> HousingEvaluationSummary" where
  "SummarizeHousingEvaluation criteria answers =
     (let start = \<lparr>ev_summary = \<lparr>es_Score = None, es_Total = i32 (int (length criteria)), es_Completed = 0,
                     es_NotApplicable = 0, es_Rated = 0, es_Weighted = False\<rparr>,
                   ev_sum = Fin 0, ev_weights = Fin 0\<rparr>;
          st = foldl (summarizeStep (answersByID answers)) start criteria
      in if fless (Fin 0) (ev_weights st)
         then (ev_summary st)\<lparr>es_Score := Some (fdiv (ev_sum st) (ev_weights st))\<rparr>
         else ev_summary st)"

text \<open>A checklist of two criteria with one answer each, for the examples.\<close>

definition example_criteria :: "HousingCriterion list" where
  "example_criteria =
     [\<lparr>hc_ID = ''c1'', hc_FamilyID = ''f'', hc_Name = ''Commute'', hc_Description = [], hc_DisplayOrder = 0, hc_Weight = Some (Fin 3)\<rparr>,
      \<lparr>hc_ID = ''c2'', hc_FamilyID = ''f'', hc_Name = ''Light'', hc_Description = [], hc_DisplayOrder = 1, hc_Weight = None\<rparr>]"

definition example_answers :: "HousingAnswer list" where
  "example_answers =
     [\<lparr>ha_HousingID = ''h'', ha_CriterionID = ''c1'', ha_State = ''complete'', ha_Rating = Some 5, ha_Notes = []\<rparr>,
      \<lparr>ha_HousingID = ''h'', ha_CriterionID = ''c2'', ha_State = ''pending'', ha_Rating = Some 3, ha_Notes = []\<rparr>]"

text \<open>An integral weight of the range that \<open>ValidateHousingCriterion\<close> accepts, and a valid rating.\<close>

definition intWeight :: "HousingCriterion \<Rightarrow> int" where
  "intWeight c = (case hc_Weight c of Some (Fin x) \<Rightarrow> \<lfloor>x\<rfloor> | _ \<Rightarrow> 1)"

definition integralWeight :: "HousingCriterion \<Rightarrow> bool" where
  "integralWeight c \<longleftrightarrow> (case hc_Weight c of None \<Rightarrow> True
     | Some (Fin x) \<Rightarrow> x = of_int \<lfloor>x\<rfloor> \<and> 1 \<le> \<lfloor>x\<rfloor> \<and> \<lfloor>x\<rfloor> \<le> 1000 | Some _ \<Rightarrow> False)"

definition validRating :: "HousingAnswer \<Rightarrow> bool" where
  "validRating a \<longleftrightarrow> (case ha_Rating a of None \<Rightarrow> True | Some r \<Rightarrow> 1 \<le> r \<and> r \<le> 5)"

section \<open>The criteria that count\<close>

definition scored :: "(ID \<rightharpoonup> HousingAnswer) \<Rightarrow> HousingCriterion \<Rightarrow> bool" where
  "scored byID c \<longleftrightarrow> ha_State (lookupAnswer byID (hc_ID c)) \<noteq> ''not_applicable''
     \<and> ha_Rating (lookupAnswer byID (hc_ID c)) \<noteq> None"

definition ratingOf :: "(ID \<rightharpoonup> HousingAnswer) \<Rightarrow> HousingCriterion \<Rightarrow> int" where
  "ratingOf byID c = (case ha_Rating (lookupAnswer byID (hc_ID c)) of None \<Rightarrow> 0 | Some r \<Rightarrow> r)"

definition weightOf :: "HousingCriterion \<Rightarrow> float64" where
  "weightOf c = (case hc_Weight c of None \<Rightarrow> Fin 1 | Some w \<Rightarrow> w)"

lemma step_sums:
  "ev_sum (summarizeStep m st c) = (if scored m c then fadd (ev_sum st) (fmul (fofint (ratingOf m c)) (weightOf c)) else ev_sum st)"
  "ev_weights (summarizeStep m st c) = (if scored m c then fadd (ev_weights st) (weightOf c) else ev_weights st)"
  by (auto simp: summarizeStep_def scored_def ratingOf_def weightOf_def Let_def split: option.splits)

lemma step_score: "es_Score (ev_summary (summarizeStep m st c)) = es_Score (ev_summary st)"
  by (auto simp: summarizeStep_def Let_def split: option.splits)

lemma fold_score: "es_Score (ev_summary (foldl (summarizeStep m) st cs)) = es_Score (ev_summary st)"
  by (induction cs arbitrary: st) (simp_all add: step_score)

definition sumsOf :: "(ID \<rightharpoonup> HousingAnswer) \<Rightarrow> HousingCriterion list \<Rightarrow> float64 \<times> float64" where
  "sumsOf m cs = foldl (\<lambda>(s, w) c. (fadd s (fmul (fofint (ratingOf m c)) (weightOf c)), fadd w (weightOf c)))
     (Fin 0, Fin 0) (filter (scored m) cs)"

lemma fold_sums:
  "(ev_sum (foldl (summarizeStep m) st cs), ev_weights (foldl (summarizeStep m) st cs)) =
   foldl (\<lambda>(s, w) c. (fadd s (fmul (fofint (ratingOf m c)) (weightOf c)), fadd w (weightOf c)))
     (ev_sum st, ev_weights st) (filter (scored m) cs)"
  by (induction cs arbitrary: st) (simp_all add: step_sums)

lemma score_eq:
  "es_Score (SummarizeHousingEvaluation criteria answers) =
     (case sumsOf (answersByID answers) criteria of (s, w) \<Rightarrow> if fless (Fin 0) w then Some (fdiv s w) else None)"
proof -
  let ?m = "answersByID answers"
  let ?st = "\<lparr>ev_summary = \<lparr>es_Score = None, es_Total = i32 (int (length criteria)), es_Completed = 0,
                     es_NotApplicable = 0, es_Rated = 0, es_Weighted = False\<rparr>, ev_sum = Fin 0, ev_weights = Fin 0\<rparr>"
  have "(ev_sum (foldl (summarizeStep ?m) ?st criteria), ev_weights (foldl (summarizeStep ?m) ?st criteria)) = sumsOf ?m criteria"
    by (simp only: fold_sums sumsOf_def evalState.simps)
  then show ?thesis
    by (auto simp: SummarizeHousingEvaluation_def Let_def fold_score split: prod.splits)
qed

section \<open>Counters\<close>

definition countOf :: "(HousingCriterion \<Rightarrow> bool) \<Rightarrow> HousingCriterion list \<Rightarrow> int" where
  "countOf P cs = int (length (filter P cs))"

lemma countOf_le: "countOf P cs \<le> int (length cs)"
  by (simp add: countOf_def)

definition completedC :: "(ID \<rightharpoonup> HousingAnswer) \<Rightarrow> HousingCriterion \<Rightarrow> bool" where
  "completedC m c \<longleftrightarrow> ha_State (lookupAnswer m (hc_ID c)) = ''complete''"

definition notApplicableC :: "(ID \<rightharpoonup> HousingAnswer) \<Rightarrow> HousingCriterion \<Rightarrow> bool" where
  "notApplicableC m c \<longleftrightarrow> ha_State (lookupAnswer m (hc_ID c)) = ''not_applicable''"

lemma step_counts:
  "es_Completed (ev_summary (summarizeStep m st c)) =
     (if completedC m c then i32 (es_Completed (ev_summary st) + 1) else es_Completed (ev_summary st))"
  "es_NotApplicable (ev_summary (summarizeStep m st c)) =
     (if notApplicableC m c then i32 (es_NotApplicable (ev_summary st) + 1) else es_NotApplicable (ev_summary st))"
  "es_Rated (ev_summary (summarizeStep m st c)) =
     (if scored m c then i32 (es_Rated (ev_summary st) + 1) else es_Rated (ev_summary st))"
  "es_Total (ev_summary (summarizeStep m st c)) = es_Total (ev_summary st)"
  "es_Weighted (ev_summary (summarizeStep m st c)) \<longleftrightarrow> es_Weighted (ev_summary st) \<or> hc_Weight c \<noteq> None"
  by (auto simp: summarizeStep_def completedC_def notApplicableC_def scored_def Let_def split: option.splits)

lemma counter_loop:
  assumes step: "\<And>st c. f (g st c) = (if P c then i32 (f st + 1) else f st)"
    and start: "0 \<le> f st" "f st + int (length cs) < 2 ^ 31"
  shows "f (foldl g st cs) = f st + countOf P cs"
  using start
proof (induction cs arbitrary: st)
  case Nil
  then show ?case by (simp add: countOf_def)
next
  case (Cons c cs)
  have i: "i32 (f st + 1) = f st + 1" using Cons.prems by (intro i32_id) (simp add: in32_def)
  have "f (foldl g (g st c) cs) = f (g st c) + countOf P cs"
    using Cons.prems by (intro Cons.IH) (simp_all add: step i)
  then show ?case by (simp add: step i countOf_def)
qed

lemma summary_counts:
  fixes criteria answers
  assumes "length criteria < 2 ^ 31"
  defines "m \<equiv> answersByID answers" and "s \<equiv> SummarizeHousingEvaluation criteria answers"
  shows "es_Completed s = countOf (completedC m) criteria"
    and "es_NotApplicable s = countOf (notApplicableC m) criteria"
    and "es_Rated s = countOf (scored m) criteria"
    and "es_Total s = int (length criteria)"
proof -
  have n: "int (length criteria) < 2 ^ 31" using assms(1) by simp
  let ?st = "\<lparr>ev_summary = \<lparr>es_Score = None, es_Total = i32 (int (length criteria)), es_Completed = 0,
                     es_NotApplicable = 0, es_Rated = 0, es_Weighted = False\<rparr>, ev_sum = Fin 0, ev_weights = Fin 0\<rparr>"
  have upd: "f s = f (ev_summary (foldl (summarizeStep m) ?st criteria))"
    if "\<And>x y. f (x\<lparr>es_Score := y\<rparr>) = f x" for f :: "HousingEvaluationSummary \<Rightarrow> int"
    using that by (simp add: s_def SummarizeHousingEvaluation_def Let_def m_def)
  show "es_Completed s = countOf (completedC m) criteria"
    using counter_loop [where f = "\<lambda>st. es_Completed (ev_summary st)" and g = "summarizeStep m"
        and P = "completedC m" and st = ?st and cs = criteria] n by (simp add: upd step_counts)
  show "es_NotApplicable s = countOf (notApplicableC m) criteria"
    using counter_loop [where f = "\<lambda>st. es_NotApplicable (ev_summary st)" and g = "summarizeStep m"
        and P = "notApplicableC m" and st = ?st and cs = criteria] n by (simp add: upd step_counts)
  show "es_Rated s = countOf (scored m) criteria"
    using counter_loop [where f = "\<lambda>st. es_Rated (ev_summary st)" and g = "summarizeStep m"
        and P = "scored m" and st = ?st and cs = criteria] n by (simp add: upd step_counts)
  have "es_Total (ev_summary (foldl (summarizeStep m) st cs)) = es_Total (ev_summary st)" for st cs
    by (induction cs arbitrary: st) (simp_all add: step_counts)
  then show "es_Total s = int (length criteria)" using n by (simp add: upd in32_def)
qed

section \<open>The score with integral weights\<close>

lemma integralWeight_Fin:
  assumes "integralWeight c"
  shows "weightOf c = Fin (of_int (intWeight c))" and "1 \<le> intWeight c" and "intWeight c \<le> 1000"
  using assms by (auto simp: integralWeight_def weightOf_def intWeight_def split: option.splits float64.splits)

lemma answersByID_in: "answersByID answers k = Some a \<Longrightarrow> a \<in> set answers"
  by (induction answers rule: rev_induct) (auto simp: answersByID_def split: if_splits)

lemma scored_rating:
  assumes "\<forall>a\<in>set answers. validRating a" and "scored (answersByID answers) c"
  shows "1 \<le> ratingOf (answersByID answers) c" and "ratingOf (answersByID answers) c \<le> 5"
proof -
  from assms(2) obtain a r where a: "answersByID answers (hc_ID c) = Some a" "ha_Rating a = Some r"
    by (auto simp: scored_def lookupAnswer_def zeroAnswer_def split: option.splits)
  from a(1) have "a \<in> set answers" by (rule answersByID_in)
  with assms(1) a show "1 \<le> ratingOf (answersByID answers) c" and "ratingOf (answersByID answers) c \<le> 5"
    by (auto simp: validRating_def ratingOf_def lookupAnswer_def)
qed

definition weightedSum :: "(ID \<rightharpoonup> HousingAnswer) \<Rightarrow> HousingCriterion list \<Rightarrow> int" where
  "weightedSum m cs = (\<Sum>c\<leftarrow>filter (scored m) cs. ratingOf m c * intWeight c)"

definition weightTotal :: "(ID \<rightharpoonup> HousingAnswer) \<Rightarrow> HousingCriterion list \<Rightarrow> int" where
  "weightTotal m cs = (\<Sum>c\<leftarrow>filter (scored m) cs. intWeight c)"

lemma weight_sums_bounds:
  assumes "\<forall>a\<in>set answers. validRating a" and "\<forall>c\<in>set cs. integralWeight c"
  defines "m \<equiv> answersByID answers"
  shows "0 \<le> weightTotal m cs" "weightTotal m cs \<le> 1000 * int (length cs)"
    and "weightTotal m cs \<le> weightedSum m cs" "weightedSum m cs \<le> 5 * weightTotal m cs"
    and "int (length (filter (scored m) cs)) \<le> weightTotal m cs"
proof -
  have "0 \<le> weightTotal m cs \<and> weightTotal m cs \<le> 1000 * int (length cs)
    \<and> weightTotal m cs \<le> weightedSum m cs \<and> weightedSum m cs \<le> 5 * weightTotal m cs
    \<and> int (length (filter (scored m) cs)) \<le> weightTotal m cs"
    using assms(2)
  proof (induction cs)
    case Nil
    then show ?case by (simp add: weightTotal_def weightedSum_def)
  next
    case (Cons c cs)
    have w: "1 \<le> intWeight c" "intWeight c \<le> 1000" using Cons.prems integralWeight_Fin by auto
    have r: "intWeight c \<le> ratingOf m c * intWeight c" "ratingOf m c * intWeight c \<le> 5 * intWeight c"
      if "scored m c"
      using scored_rating [OF assms(1), of c] that w
      by (simp_all add: m_def mult_right_mono)
    have sums: "weightTotal m (c # cs) = (if scored m c then intWeight c else 0) + weightTotal m cs"
      "weightedSum m (c # cs) = (if scored m c then ratingOf m c * intWeight c else 0) + weightedSum m cs"
      by (simp_all add: weightTotal_def weightedSum_def)
    have ih: "0 \<le> weightTotal m cs" "weightTotal m cs \<le> 1000 * int (length cs)"
      "weightTotal m cs \<le> weightedSum m cs" "weightedSum m cs \<le> 5 * weightTotal m cs"
      "int (length (filter (scored m) cs)) \<le> weightTotal m cs"
      using Cons by simp_all
    show ?case
    proof (cases "scored m c")
      case True
      define p where "p = ratingOf m c * intWeight c"
      have "intWeight c \<le> p" "p \<le> 5 * intWeight c" using r [OF True] by (simp_all only: p_def)
      with True ih w show ?thesis by (simp add: sums p_def [symmetric])
    next
      case False
      with ih show ?thesis by (simp add: sums)
    qed
  qed
  then show "0 \<le> weightTotal m cs" "weightTotal m cs \<le> 1000 * int (length cs)"
    "weightTotal m cs \<le> weightedSum m cs" "weightedSum m cs \<le> 5 * weightTotal m cs"
    "int (length (filter (scored m) cs)) \<le> weightTotal m cs"
    by simp_all
qed

lemma sums_exact:
  assumes "\<forall>a\<in>set answers. validRating a" and "\<forall>c\<in>set cs. integralWeight c" and "length cs < 2 ^ 31"
  defines "m \<equiv> answersByID answers"
  shows "sumsOf m cs = (Fin (of_int (weightedSum m cs)), Fin (of_int (weightTotal m cs)))"
  using assms(2,3)
proof (induction cs rule: rev_induct)
  case Nil
  then show ?case by (simp add: sumsOf_def weightedSum_def weightTotal_def)
next
  case (snoc c cs)
  have len: "int (length cs) < 2 ^ 31" using snoc.prems by simp
  have ih: "sumsOf m cs = (Fin (of_int (weightedSum m cs)), Fin (of_int (weightTotal m cs)))"
    using snoc by simp
  have "\<forall>c\<in>set cs. integralWeight c" using snoc.prems by simp
  note b = weight_sums_bounds [OF assms(1) this, folded m_def]
  show ?case
  proof (cases "scored m c")
    case False
    then show ?thesis using ih by (simp add: sumsOf_def weightedSum_def weightTotal_def)
  next
    case True
    define r n where "r = ratingOf m c" and "n = intWeight c"
    have r: "1 \<le> r" "r \<le> 5" using scored_rating [OF assms(1)] True by (simp_all add: r_def m_def)
    have w: "weightOf c = Fin (of_int n)" "1 \<le> n" "n \<le> 1000"
      using integralWeight_Fin [of c] snoc.prems by (simp_all add: n_def)
    have rn: "0 \<le> r * n" "r * n \<le> 5 * 1000" using r w by (simp, intro mult_mono) simp_all
    have big: "weightTotal m cs \<le> 1000 * 2 ^ 31" using b(2) len by linarith
    have small: "\<bar>r\<bar> < 2 ^ 53" "\<bar>r * n\<bar> < 2 ^ 53" using r rn by (simp_all add: abs_of_nonneg)
    have "fmul (fofint r) (weightOf c) = Fin (of_int (r * n))"
      by (simp only: fofint_exact [OF small(1)] w(1) fmul_int [OF small(2)])
    moreover have "fadd (Fin (of_int (weightedSum m cs))) (Fin (of_int (r * n))) = Fin (of_int (weightedSum m cs + r * n))"
      using b rn big by (intro fadd_int) simp
    moreover have "fadd (Fin (of_int (weightTotal m cs))) (Fin (of_int n)) = Fin (of_int (weightTotal m cs + n))"
      using b w big by (intro fadd_int) simp
    ultimately show ?thesis
      using True ih w(1)
      by (simp add: sumsOf_def weightedSum_def weightTotal_def r_def [symmetric] n_def [symmetric] del: fadd.simps fmul.simps)
  qed
qed

section \<open>Properties\<close>



text \<open>
  Missing ratings and not-applicable criteria never enter the score: dropping
  them from the checklist leaves the score unchanged, for any weights.
\<close>

theorem unrated_criteria_do_not_affect_score:
  "es_Score (SummarizeHousingEvaluation criteria answers) =
   es_Score (SummarizeHousingEvaluation
     (filter (\<lambda>c. ha_State (lookupAnswer (answersByID answers) (hc_ID c)) \<noteq> ''not_applicable''
        \<and> ha_Rating (lookupAnswer (answersByID answers) (hc_ID c)) \<noteq> None) criteria) answers)"
proof -
  have f: "(\<lambda>c. ha_State (lookupAnswer (answersByID answers) (hc_ID c)) \<noteq> ''not_applicable''
        \<and> ha_Rating (lookupAnswer (answersByID answers) (hc_ID c)) \<noteq> None) = scored (answersByID answers)"
    by (simp only: fun_eq_iff scored_def) simp
  show ?thesis by (simp only: f score_eq sumsOf_def filter_filter conj_absorb)
qed

text \<open>
  The counters of the summary describe the checklist: not-applicable and completed
  criteria together never exceed the total, and every rated criterion is applicable.
\<close>

theorem summary_counters_partition:
  assumes "length criteria < 2 ^ 31"
  shows "let s = SummarizeHousingEvaluation criteria answers
         in es_Total s = int (length criteria) \<and> 0 \<le> es_Completed s \<and> 0 \<le> es_NotApplicable s \<and> 0 \<le> es_Rated s
            \<and> es_Completed s + es_NotApplicable s \<le> es_Total s \<and> es_Rated s + es_NotApplicable s \<le> es_Total s"
proof -
  have *: "countOf P cs + countOf Q cs \<le> int (length cs)" if "\<And>c. \<not> (P c \<and> Q c)" for P Q cs
    using that by (induction cs) (auto simp: countOf_def)
  show ?thesis
    using summary_counts [OF assms, of answers]
      * [of "completedC (answersByID answers)" "notApplicableC (answersByID answers)" criteria]
      * [of "scored (answersByID answers)" "notApplicableC (answersByID answers)" criteria]
    by (auto simp: Let_def completedC_def notApplicableC_def scored_def) (simp_all add: countOf_def)
qed

theorem summary_counters_partition_witness:
  "es_Total (SummarizeHousingEvaluation example_criteria example_answers) = 2
   \<and> es_Completed (SummarizeHousingEvaluation example_criteria example_answers) = 1"
  using summary_counters_partition [of example_criteria example_answers]
    summary_counts [of example_criteria example_answers]
  by (simp add: Let_def example_criteria_def example_answers_def countOf_def completedC_def lookupAnswer_def
      answersByID_def)

end
