(* ===== verification/Repo_Checklist.thy ===== *)
theory Repo_Checklist
  imports Repo_People Checklist_Domain
begin

text \<open>
  \<open>internal/repository/postgres/housing_checklist.go\<close>: the ordered checklist of a family and
  the answers to it. The criteria of a family are an abstract list, the active rows in display
  order; the lemmas show that saving, deleting and reordering refine the operations on that
  list, with positions 0 to n-1 left in the table. The columns no statement reads
  (\<open>created_at\<close>, \<open>updated_at\<close>) are left out of the rows, as are the length checks that the
  validation of the domain already implies.
\<close>

section \<open>Reading\<close>

abbreviation crID :: "criterion_row \<Rightarrow> ID" where "crID r \<equiv> hc_ID (cr_Criterion r)"
abbreviation crFamily :: "criterion_row \<Rightarrow> ID" where "crFamily r \<equiv> hc_FamilyID (cr_Criterion r)"
abbreviation crOrder :: "criterion_row \<Rightarrow> int32" where "crOrder r \<equiv> hc_DisplayOrder (cr_Criterion r)"

definition criterionLE :: "criterion_row \<Rightarrow> criterion_row \<Rightarrow> bool" where
  "criterionLE a b \<longleftrightarrow> crOrder a < crOrder b \<or> (crOrder a = crOrder b \<and> textLE (crID a) (crID b))"

definition activeCriteria :: "database \<Rightarrow> ID \<Rightarrow> criterion_row list" where
  "activeCriteria d f = orderBy criterionLE (filter (\<lambda>r. crFamily r = f \<and> cr_DeletedAt r = None) (db_criteria d))"

definition repoListHousingCriteria :: "env \<Rightarrow> ID \<Rightarrow> ID \<Rightarrow> (go_error, HousingCriterion list) io" where
  "repoListHousingCriteria e familyID actorID =
     bindP (hasFamilyAccess e actorID familyID) (\<lambda>allowed.
       if \<not> allowed then throwP ErrForbidden
       else query e (\<lambda>n d. bindS (castUUID e familyID) (\<lambda>f. Inr (map cr_Criterion (activeCriteria d f), d))))"

text \<open>The join of an answer with its criterion.\<close>

definition activeAnswer :: "database \<Rightarrow> answer_row \<Rightarrow> bool" where
  "activeAnswer d a \<longleftrightarrow> list_ex (\<lambda>r. crID r = ha_CriterionID (ar_Answer a) \<and> cr_DeletedAt r = None) (db_criteria d)"

definition repoListHousingAnswers :: "env \<Rightarrow> ID \<Rightarrow> ID \<Rightarrow> (go_error, HousingAnswer list) io" where
  "repoListHousingAnswers e familyID actorID =
     bindP (hasFamilyAccess e actorID familyID) (\<lambda>allowed.
       if \<not> allowed then throwP ErrForbidden
       else query e (\<lambda>n d. bindS (castUUID e familyID) (\<lambda>f.
              Inr (map ar_Answer (filter (\<lambda>a. ar_FamilyID a = f \<and> activeAnswer d a) (db_answers d)), d))))"

section \<open>Writing\<close>

definition lockFamily :: "env \<Rightarrow> ID \<Rightarrow> unit stmt" where
  "lockFamily e familyID n d =
     bindS (castUUID e familyID) (\<lambda>f. bindS (firstRow (filter (\<lambda>fam. fa_ID fam = f) (db_families d))) (\<lambda>_. Inr ((), d)))"

definition checklistTransaction :: "env \<Rightarrow> ID \<Rightarrow> ID \<Rightarrow> (time \<Rightarrow> (go_error, 'a) io) \<Rightarrow> (go_error, 'a) io" where
  "checklistTransaction e familyID actorID body =
     bindP (assertFamilyWriter e actorID familyID) (\<lambda>_.
       transaction e (\<lambda>t. bindP (query e (lockFamily e familyID)) (\<lambda>_. body (pgTime t))))"

definition checklistIDs :: "env \<Rightarrow> ID \<Rightarrow> (go_error, ID list) io" where
  "checklistIDs e familyID = query e (\<lambda>n d. bindS (castUUID e familyID) (\<lambda>f. Inr (map crID (activeCriteria d f), d)))"

definition setOrder :: "env \<Rightarrow> ID \<Rightarrow> int \<Rightarrow> unit stmt" where
  "setOrder e criterionID i n d =
     bindS (castUUID e criterionID) (\<lambda>c.
     Inr ((), d\<lparr>db_criteria := updateRows (\<lambda>r. crID r = c) (\<lambda>r. r\<lparr>cr_Criterion := (cr_Criterion r)\<lparr>hc_DisplayOrder := i\<rparr>\<rparr>) (db_criteria d)\<rparr>))"

fun writeChecklistOrder :: "env \<Rightarrow> int \<Rightarrow> ID list \<Rightarrow> (go_error, unit) io" where
  "writeChecklistOrder e i [] = retP ()"
| "writeChecklistOrder e i (c # ids) = bindP (query e (setOrder e c i)) (\<lambda>_. writeChecklistOrder e (i + 1) ids)"

definition insertCriterion :: "env \<Rightarrow> HousingCriterion \<Rightarrow> ID stmt" where
  "insertCriterion e c n d =
     bindS (castUUID e (hc_FamilyID c)) (\<lambda>f.
     let row = \<lparr>cr_Criterion = c\<lparr>hc_ID := uuid_at e n, hc_FamilyID := f\<rparr>, cr_DeletedAt = None\<rparr>
     in bindS (checkS (crID row \<notin> crID ` set (db_criteria d)) ''23505'' ''housing_checklist_criteria_pkey'') (\<lambda>_.
        bindS (checkS (f \<in> fa_ID ` set (db_families d)) ''23503'' ''housing_checklist_criteria_family_id_fkey'') (\<lambda>_.
        Inr (crID row, d\<lparr>db_criteria := db_criteria d @ [row]\<rparr>))))"

definition updateCriterion :: "env \<Rightarrow> HousingCriterion \<Rightarrow> unit stmt" where
  "updateCriterion e c n d =
     bindS (castUUID e (hc_ID c)) (\<lambda>i.
     Inr ((), d\<lparr>db_criteria := updateRows (\<lambda>r. crID r = i) (\<lambda>r. r\<lparr>cr_Criterion := (cr_Criterion r)\<lparr>hc_Name := hc_Name c,
                   hc_Description := hc_Description c, hc_Weight := hc_Weight c\<rparr>\<rparr>) (db_criteria d)\<rparr>))"

text \<open>The list operation of \<open>SaveHousingCriterion\<close>: the slice grows by one and the tail is copied up.\<close>

definition insertAt :: "nat \<Rightarrow> 'a \<Rightarrow> 'a list \<Rightarrow> 'a list" where
  "insertAt pos x ids = take pos ids @ x # drop pos ids"

definition repoSaveHousingCriterion :: "env \<Rightarrow> HousingCriterion \<Rightarrow> ID \<Rightarrow> (go_error, HousingCriterion) io" where
  "repoSaveHousingCriterion e c0 actorID =
     (let c = c0\<lparr>hc_Name := trimSpace (hc_Name c0)\<rparr> in
      case ValidateHousingCriterion c of Some err \<Rightarrow> throwP err
      | None \<Rightarrow> checklistTransaction e (hc_FamilyID c) actorID (\<lambda>t.
          bindP (checklistIDs e (hc_FamilyID c)) (\<lambda>ids0.
          if hc_ID c \<noteq> [] \<and> hc_ID c \<notin> set ids0 then throwP ErrNotFound
          else let ids = (if hc_ID c \<noteq> [] then remove1 (hc_ID c) ids0 else ids0) in
            if hc_DisplayOrder c > int (length ids) then throwP ErrInvalidArgument
            else bindP (if hc_ID c = [] then query e (insertCriterion e c)
                        else bindP (query e (updateCriterion e c)) (\<lambda>_. retP (hc_ID c))) (\<lambda>cid.
              bindP (writeChecklistOrder e 0 (insertAt (nat (hc_DisplayOrder c)) cid ids)) (\<lambda>_.
              retP (c\<lparr>hc_ID := cid\<rparr>))))))"

definition retireCriterion :: "env \<Rightarrow> ID \<Rightarrow> ID \<Rightarrow> time \<Rightarrow> nat stmt" where
  "retireCriterion e criterionID familyID t n d =
     bindS (castUUID e criterionID) (\<lambda>c. bindS (castUUID e familyID) (\<lambda>f.
     let P = (\<lambda>r. crID r = c \<and> crFamily r = f \<and> cr_DeletedAt r = None) in
     Inr (length (filter P (db_criteria d)),
          d\<lparr>db_criteria := updateRows P (\<lambda>r. r\<lparr>cr_DeletedAt := Some t\<rparr>) (db_criteria d)\<rparr>)))"

definition repoDeleteHousingCriterion :: "env \<Rightarrow> ID \<Rightarrow> ID \<Rightarrow> ID \<Rightarrow> (go_error, unit) io" where
  "repoDeleteHousingCriterion e familyID criterionID actorID =
     checklistTransaction e familyID actorID (\<lambda>t.
       bindP (query e (retireCriterion e criterionID familyID t)) (\<lambda>rows.
       if rows = 0 then throwP ErrNotFound
       else bindP (checklistIDs e familyID) (\<lambda>ids. writeChecklistOrder e 0 ids)))"

text \<open>The check of \<open>ReorderHousingCriteria\<close>: each id is taken out of the remaining ones.\<close>

fun takesAll :: "ID list \<Rightarrow> ID list \<Rightarrow> bool" where
  "takesAll remaining [] = True"
| "takesAll remaining (i # ids) = (i \<in> set remaining \<and> takesAll (removeAll i remaining) ids)"

definition repoReorderHousingCriteria :: "env \<Rightarrow> ID \<Rightarrow> ID list \<Rightarrow> ID \<Rightarrow> (go_error, unit) io" where
  "repoReorderHousingCriteria e familyID ids actorID =
     checklistTransaction e familyID actorID (\<lambda>t.
       bindP (checklistIDs e familyID) (\<lambda>current.
       if length ids \<noteq> length current then throwP ErrInvalidArgument
       else if \<not> takesAll current ids then throwP ErrInvalidArgument
       else writeChecklistOrder e 0 ids))"

text \<open>The criterion, the option and the membership must meet in one family.\<close>

definition answerFamily :: "env \<Rightarrow> HousingAnswer \<Rightarrow> ID \<Rightarrow> ID stmt" where
  "answerFamily e a actorID n d =
     bindS (castUUID e (ha_HousingID a)) (\<lambda>h. bindS (castUUID e (ha_CriterionID a)) (\<lambda>c. bindS (castUUID e actorID) (\<lambda>u.
     bindS (firstRow (filter (\<lambda>o'. ho_ID o' = h \<and> isWriter d (ho_FamilyID o') u
                \<and> list_ex (\<lambda>r. crID r = c \<and> crFamily r = ho_FamilyID o' \<and> cr_DeletedAt r = None) (db_criteria d)) (db_housing_options d))) (\<lambda>o'.
     Inr (ho_FamilyID o', d)))))"

definition upsertAnswer :: "env \<Rightarrow> HousingAnswer \<Rightarrow> ID \<Rightarrow> unit stmt" where
  "upsertAnswer e a familyID n d =
     bindS (castUUID e (ha_HousingID a)) (\<lambda>h. bindS (castUUID e (ha_CriterionID a)) (\<lambda>c. bindS (castUUID e familyID) (\<lambda>f.
     let P = (\<lambda>r. ha_HousingID (ar_Answer r) = h \<and> ha_CriterionID (ar_Answer r) = c) in
     if list_ex P (db_answers d)
     then Inr ((), d\<lparr>db_answers := updateRows P (\<lambda>r. r\<lparr>ar_Answer := (ar_Answer r)\<lparr>ha_State := ha_State a, ha_Rating := ha_Rating a,
                       ha_Notes := ha_Notes a\<rparr>\<rparr>) (db_answers d)\<rparr>)
     else bindS (checkS (list_ex (\<lambda>o'. ho_ID o' = h \<and> ho_FamilyID o' = f) (db_housing_options d)
                  \<and> list_ex (\<lambda>r. crID r = c \<and> crFamily r = f) (db_criteria d)) ''23503'' ''housing_checklist_answers_fkey'') (\<lambda>_.
          Inr ((), d\<lparr>db_answers := db_answers d @ [\<lparr>ar_Answer = a\<lparr>ha_HousingID := h, ha_CriterionID := c\<rparr>, ar_FamilyID = f\<rparr>]\<rparr>)))))"

definition repoSaveHousingAnswer :: "env \<Rightarrow> HousingAnswer \<Rightarrow> ID \<Rightarrow> (go_error, HousingAnswer) io" where
  "repoSaveHousingAnswer e a actorID =
     (case ValidateHousingAnswer a of Some err \<Rightarrow> throwP err
      | None \<Rightarrow> transaction e (\<lambda>t.
          bindP (query e (answerFamily e a actorID)) (\<lambda>familyID.
          bindP (query e (upsertAnswer e a familyID)) (\<lambda>_. retP a))))"

definition attachHousingEvaluations :: "env \<Rightarrow> HousingOption list \<Rightarrow> ID \<Rightarrow> ID \<Rightarrow> (go_error, HousingOption list) io" where
  "attachHousingEvaluations e options familyID actorID =
     (if options = [] then retP options
      else bindP (repoListHousingCriteria e familyID actorID) (\<lambda>criteria.
           bindP (repoListHousingAnswers e familyID actorID) (\<lambda>answers.
           retP (map (\<lambda>o'. o'\<lparr>ho_Evaluation := Some (SummarizeHousingEvaluation criteria
                    (filter (\<lambda>a. ha_HousingID a = ho_ID o') answers))\<rparr>) options))))"

section \<open>The checklist as a list\<close>

definition checklist :: "database \<Rightarrow> ID \<Rightarrow> ID list" where
  "checklist d f = map crID (activeCriteria d f)"

definition contiguous :: "database \<Rightarrow> ID \<Rightarrow> bool" where
  "contiguous d f \<longleftrightarrow> map crOrder (activeCriteria d f) = map int [0..<length (activeCriteria d f)]"

definition criteria_ok :: "env \<Rightarrow> database \<Rightarrow> bool" where
  "criteria_ok e d \<longleftrightarrow> distinct (map crID (db_criteria d)) \<and> (\<forall>r\<in>set (db_criteria d). uuid_in e (crID r) = Some (crID r))"

abbreviation activeRow :: "ID \<Rightarrow> criterion_row \<Rightarrow> bool" where
  "activeRow f r \<equiv> crFamily r = f \<and> cr_DeletedAt r = None"

text \<open>The position an id is given by \<open>writeChecklistOrder\<close>.\<close>

fun orderOf :: "int \<Rightarrow> ID list \<Rightarrow> ID \<Rightarrow> int option" where
  "orderOf i [] c = None"
| "orderOf i (x # xs) c = (if x = c then Some i else orderOf (i + 1) xs c)"

definition placed :: "int \<Rightarrow> ID list \<Rightarrow> criterion_row \<Rightarrow> criterion_row" where
  "placed i ids r = (case orderOf i ids (crID r) of None \<Rightarrow> r
     | Some k \<Rightarrow> r\<lparr>cr_Criterion := (cr_Criterion r)\<lparr>hc_DisplayOrder := k\<rparr>\<rparr>)"

lemma orderOf_None: "orderOf i ids c = None \<longleftrightarrow> c \<notin> set ids"
  by (induction ids arbitrary: i) auto

lemma orderOf_Some: "orderOf i ids c = Some k \<Longrightarrow> \<exists>j<length ids. ids ! j = c \<and> k = i + int j"
proof (induction ids arbitrary: i)
  case (Cons x xs)
  show ?case
  proof (cases "x = c")
    case True
    then show ?thesis using Cons.prems by (intro exI [of _ 0]) simp
  next
    case False
    with Cons obtain j where "j < length xs" "xs ! j = c" "k = i + 1 + int j" by fastforce
    then show ?thesis by (intro exI [of _ "Suc j"]) simp
  qed
qed simp

lemma placed_simps [simp]:
  "crID (placed i ids r) = crID r" "crFamily (placed i ids r) = crFamily r" "cr_DeletedAt (placed i ids r) = cr_DeletedAt r"
  by (simp_all add: placed_def split: option.splits)

lemma placed_outside: "crID r \<notin> set ids \<Longrightarrow> placed i ids r = r"
  by (simp add: placed_def orderOf_None [THEN iffD2])

lemma placed_order: "crID r \<in> set ids \<Longrightarrow> orderOf i ids (crID r) = Some (crOrder (placed i ids r))"
  using orderOf_None [of i ids "crID r"] by (auto simp: placed_def split: option.splits)

lemma writeChecklistOrder_Inr:
  assumes "writeChecklistOrder e i ids w = (Inr (), w')" and "distinct ids" and "\<forall>c\<in>set ids. uuid_in e c = Some c"
  shows "wo_db w' = (wo_db w)\<lparr>db_criteria := map (placed i ids) (db_criteria (wo_db w))\<rparr>"
  using assms
proof (induction ids arbitrary: i w)
  case Nil
  have "placed i [] = id" by (rule ext) (simp add: placed_def)
  with Nil show ?case by simp
next
  case (Cons c ids)
  from Cons.prems(1) obtain w1 where w1: "query e (setOrder e c i) w = (Inr (), w1)"
    "writeChecklistOrder e (i + 1) ids w1 = (Inr (), w')"
    by (auto elim!: bindP_InrE)
  from query_InrD [OF w1(1)] Cons.prems(3)
  have d1: "wo_db w1 = (wo_db w)\<lparr>db_criteria := updateRows (\<lambda>r. crID r = c)
      (\<lambda>r. r\<lparr>cr_Criterion := (cr_Criterion r)\<lparr>hc_DisplayOrder := i\<rparr>\<rparr>) (db_criteria (wo_db w))\<rparr>"
    by (simp add: setOrder_def castUUID_def)
  have step: "placed (i + 1) ids (if crID r = c then r\<lparr>cr_Criterion := (cr_Criterion r)\<lparr>hc_DisplayOrder := i\<rparr>\<rparr> else r) = placed i (c # ids) r" for r
  proof (cases "crID r = c")
    case True
    then have "placed (i + 1) ids (r\<lparr>cr_Criterion := (cr_Criterion r)\<lparr>hc_DisplayOrder := i\<rparr>\<rparr>) = r\<lparr>cr_Criterion := (cr_Criterion r)\<lparr>hc_DisplayOrder := i\<rparr>\<rparr>"
      using Cons.prems(2) by (intro placed_outside) simp
    with True show ?thesis by (simp add: placed_def [of i])
  next
    case False
    then show ?thesis by (simp add: placed_def)
  qed
  have "wo_db w' = (wo_db w1)\<lparr>db_criteria := map (placed (i + 1) ids) (db_criteria (wo_db w1))\<rparr>"
    using Cons.prems by (intro Cons.IH [OF w1(2)]) simp_all
  then show ?case by (simp add: d1 updateRows_def comp_def step)
qed

lemma criterionLE_total: "criterionLE a b \<or> criterionLE b a"
  using textLE_total by (auto simp: criterionLE_def)

lemma criterionLE_trans: "criterionLE a b \<Longrightarrow> criterionLE b c \<Longrightarrow> criterionLE a c"
  by (auto simp: criterionLE_def intro: textLE_trans)

lemma activeCriteria_sorted: "sorted_wrt criterionLE (orderBy criterionLE rows)"
  by (rule orderBy_sorted) (rule criterionLE_total, erule (1) criterionLE_trans)

text \<open>Rows whose positions are their places in \<open>ids\<close> come out in the order of \<open>ids\<close>.\<close>

lemma ordered_rows:
  assumes "distinct (map crID rows)" and "distinct ids" and "crID ` set rows = set ids"
    and ord: "\<forall>r\<in>set rows. orderOf 0 ids (crID r) = Some (crOrder r)"
  shows "map crID (orderBy criterionLE rows) = ids"
    and "map crOrder (orderBy criterionLE rows) = map int [0..<length ids]"
proof -
  let ?xs = "orderBy criterionLE rows" and ?n = "length ids"
  have len: "length ?xs = ?n"
    using assms(1-3) by (simp) (metis distinct_card length_map list.set_map)
  have place: "0 \<le> crOrder r \<and> nat (crOrder r) < ?n \<and> ids ! nat (crOrder r) = crID r" if "r \<in> set rows" for r
    using ord that orderOf_Some [of 0 ids "crID r" "crOrder r"] by auto
  have "sorted_wrt criterionLE ?xs" by (rule activeCriteria_sorted)
  then have sorted: "sorted (map crOrder ?xs)"
    unfolding sorted_map by (rule sorted_wrt_mono_rel [rotated]) (auto simp: criterionLE_def)
  have inj: "inj_on crOrder (set rows)"
    using assms(1) place unfolding distinct_map by (intro inj_onI) (metis inj_onD)
  have dist: "distinct (map crOrder ?xs)"
    using assms(1) inj by (simp add: distinct_map) (metis assms(1) distinct_map mset_eq_imp_distinct_iff mset_orderBy)
  have sub: "crOrder ` set rows \<subseteq> int ` {0..<?n}"
    using place by force
  have "card (crOrder ` set rows) = card (int ` {0..<?n})"
    using inj len dist by (simp add: card_image) (metis assms(1) distinct_card distinct_map length_orderBy)
  then have set: "crOrder ` set rows = int ` {0..<?n}"
    using sub by (intro card_subset_eq) simp_all
  show orders: "map crOrder ?xs = map int [0..<?n]"
  proof (rule sorted_distinct_set_unique [OF sorted dist])
    show "sorted (map int [0..<?n])" by (simp add: sorted_map sorted_wrt_iff_nth_less)
    show "distinct (map int [0..<?n])" by (simp add: distinct_map)
    show "set (map crOrder ?xs) = set (map int [0..<?n])" using set by simp
  qed
  show "map crID ?xs = ids"
  proof (rule nth_equalityI)
    fix k assume "k < length (map crID ?xs)"
    then have k: "k < length ?xs" by simp
    then have "?xs ! k \<in> set rows" by (metis nth_mem set_orderBy)
    moreover have "crOrder (?xs ! k) = int k"
      using orders k len by (metis (no_types, lifting) add_0 length_map nth_map nth_upt)
    ultimately show "map crID ?xs ! k = ids ! k" using place [of "?xs ! k"] k by simp
  qed (simp add: len [simplified])
qed

lemma activeCriteria_set: "set (activeCriteria d f) = {r \<in> set (db_criteria d). activeRow f r}"
  by (auto simp: activeCriteria_def)

lemma distinct_map_filter_rows: "distinct (map g xs) \<Longrightarrow> distinct (map g (filter P xs))"
  by (induction xs) auto

lemma checklist_distinct: "distinct (map crID (db_criteria d)) \<Longrightarrow> distinct (checklist d f)"
proof -
  assume "distinct (map crID (db_criteria d))"
  then have "distinct (map crID (filter (activeRow f) (db_criteria d)))" by (rule distinct_map_filter_rows)
  moreover have "mset (checklist d f) = mset (map crID (filter (activeRow f) (db_criteria d)))"
    by (simp add: checklist_def activeCriteria_def)
  ultimately show ?thesis by (metis mset_eq_imp_distinct_iff)
qed

lemma checklist_set: "set (checklist d f) = crID ` {r \<in> set (db_criteria d). activeRow f r}"
  by (simp add: checklist_def activeCriteria_set)

text \<open>Writing the positions of all active criteria of a family makes \<open>ids\<close> its checklist and
  leaves the other families alone.\<close>

lemma renumber:
  assumes dist: "distinct (map crID (db_criteria d))" and "distinct ids" and set: "set ids = set (checklist d f)"
  defines "d' \<equiv> d\<lparr>db_criteria := map (placed 0 ids) (db_criteria d)\<rparr>"
  shows "checklist d' f = ids" and "contiguous d' f" and "g \<noteq> f \<Longrightarrow> activeCriteria d' g = activeCriteria d g"
proof -
  let ?rows = "filter (activeRow f) (db_criteria d)"
  have rows: "filter (activeRow f) (db_criteria d') = map (placed 0 ids) (filter (activeRow f) (db_criteria d))" for f
    by (simp add: d'_def filter_map comp_def)
  have ids: "crID ` set ?rows = set ids" using set by (simp add: checklist_set)
  have dm: "distinct (map crID (map (placed 0 ids) ?rows))"
    using distinct_map_filter_rows [OF dist] by (simp add: comp_def)
  have im: "crID ` set (map (placed 0 ids) ?rows) = set ids" using ids by (simp add: image_image)
  have ord: "\<forall>r\<in>set (map (placed 0 ids) ?rows). orderOf 0 ids (crID r) = Some (crOrder r)"
    using ids placed_order [of _ ids 0] by fastforce
  note res = ordered_rows [OF dm assms(2) im ord]
  have act: "activeCriteria d' f = orderBy criterionLE (map (placed 0 ids) ?rows)" by (simp only: activeCriteria_def rows)
  show "checklist d' f = ids" by (simp only: checklist_def act res(1))
  have "length (activeCriteria d' f) = length ids" using res(1) by (metis act length_map)
  then show "contiguous d' f" by (simp only: contiguous_def act res(2))
  show "activeCriteria d' g = activeCriteria d g" if "g \<noteq> f"
  proof -
    have "placed 0 ids r = r" if r: "r \<in> set (filter (activeRow g) (db_criteria d))" for r
    proof (rule placed_outside)
      show "crID r \<notin> set ids"
      proof
        assume "crID r \<in> set ids"
        then obtain s where "s \<in> set (db_criteria d)" "crFamily s = f" "crID s = crID r" using ids by force
        with dist r have "s = r" unfolding distinct_map by (auto dest: inj_onD)
        with \<open>crFamily s = f\<close> r \<open>g \<noteq> f\<close> show False by simp
      qed
    qed
    then have "map (placed 0 ids) (filter (activeRow g) (db_criteria d)) = filter (activeRow g) (db_criteria d)"
      by (rule map_idI)
    then show ?thesis by (simp only: activeCriteria_def rows)
  qed
qed

lemma checklistIDs_Inr:
  assumes "checklistIDs e familyID w = (Inr ids, w')" and "uuid_in e familyID = Some f"
  shows "ids = checklist (wo_db w) f" and "wo_db w' = wo_db w"
  using query_InrD [OF assms(1) [unfolded checklistIDs_def]] assms(2)
  by (auto simp: castUUID_def checklist_def)

lemma lockFamily_Inr: "query e (lockFamily e familyID) w = (Inr x, w') \<Longrightarrow> wo_db w' = wo_db w"
  by (drule query_InrD) (auto simp: lockFamily_def bindS_Inr)

lemma checklistTransaction_cases:
  assumes "checklistTransaction e familyID actorID body w = (r, w')"
  obtains (failed) err where "r = Inl err" "wo_db w' = wo_db w"
  | (committed) f u t w1 w2 x where "uuid_in e familyID = Some f" "uuid_in e actorID = Some u" "isWriter (wo_db w) f u"
      "wo_db w1 = wo_db w" "body t w1 = (Inr x, w2)" "wo_db w' = wo_db w2" "\<And>y. r = Inr y \<Longrightarrow> y = x"
proof -
  obtain q v where q: "assertFamilyWriter e actorID familyID w = (q, v)" by fastforce
  have "db_kept (assertFamilyWriter e actorID familyID)"
    by (rule preserves_access) simp
  from preservesD [OF this q] have v: "wo_db v = wo_db w" .
  show thesis
  proof (cases q)
    case (Inl err)
    then have "r = Inl err" "w' = v" using assms q by (simp_all add: checklistTransaction_def bindP_def)
    with v show thesis using failed by simp
  next
    case (Inr x)
    then have "q = Inr ()" by simp
    with q obtain f u where fu: "uuid_in e familyID = Some f" "uuid_in e actorID = Some u" "isWriter (wo_db w) f u"
      by (auto elim: assertFamilyWriter_Inr)
    have "transaction e (\<lambda>t. bindP (query e (lockFamily e familyID)) (\<lambda>_. body (pgTime t))) v = (r, w')"
      using assms q Inr by (simp add: checklistTransaction_def bindP_def)
    then show thesis
    proof (cases rule: transaction_cases)
      case (failed err)
      then show thesis using \<open>wo_db v = wo_db w\<close> by (intro that(1)) simp_all
    next
      case (committed t w1 w2 y)
      from committed(2) obtain w3 where w3: "query e (lockFamily e familyID) w1 = (Inr (), w3)" "body (pgTime t) w3 = (Inr y, w2)"
        by (auto elim!: bindP_InrE)
      have "wo_db w3 = wo_db w" using lockFamily_Inr [OF w3(1)] committed(1) v by simp
      then show thesis using fu w3(2) committed(3,4) by (intro that(2))
    qed
  qed
qed

lemma orderBy_filter:
  assumes total: "\<And>x y. le x y \<or> le y x" and trans: "\<And>x y z. le x y \<Longrightarrow> le y z \<Longrightarrow> le x z"
  shows "orderBy le (filter P xs) = filter P (orderBy le xs)"
proof (induction xs)
  case Nil
  then show ?case by (simp add: orderBy_def)
next
  case (Cons x xs)
  have ins: "filter P (insertBy le x ys) = (if P x then insertBy le x (filter P ys) else filter P ys)" if "sorted_wrt le ys" for ys
    using that
  proof (induction ys)
    case (Cons y ys)
    show ?case
    proof (cases "le x y")
      case True
      have "insertBy le x (filter P ys) = x # filter P ys" if "\<forall>z\<in>set ys. le x z" for ys
        using that by (induction ys) auto
      moreover have "\<forall>z\<in>set ys. le x z" using True Cons.prems trans by auto
      ultimately show ?thesis using True by simp
    next
      case False
      with Cons show ?thesis by simp
    qed
  qed simp
  have "sorted_wrt le (orderBy le xs)" using total trans by (rule orderBy_sorted)
  from ins [OF this] Cons show ?case by (simp add: orderBy_def)
qed

lemma takesAll_set: "takesAll rem ids \<Longrightarrow> set ids \<subseteq> set rem \<and> distinct ids"
  by (induction rem ids rule: takesAll.induct) auto

lemma set_insertAt [simp]: "set (insertAt k x xs) = insert x (set xs)"
proof -
  have "set xs = set (take k xs) \<union> set (drop k xs)" by (metis append_take_drop_id set_append)
  then show ?thesis by (simp add: insertAt_def)
qed

lemma distinct_insertAt: "distinct xs \<Longrightarrow> x \<notin> set xs \<Longrightarrow> distinct (insertAt k x xs)"
proof -
  assume xs: "distinct xs" "x \<notin> set xs"
  have "set xs = set (take k xs) \<union> set (drop k xs)" by (metis append_take_drop_id set_append)
  moreover have "distinct (take k xs @ drop k xs)" using xs(1) by simp
  ultimately show ?thesis using xs(2) by (simp add: insertAt_def del: append_take_drop_id)
qed

section \<open>Refinement\<close>

text \<open>What one operation on the abstract list \<open>l\<close> of family \<open>f\<close> means for the tables: the checklist
  becomes \<open>l\<close> with positions 0 to n-1, no other family's criteria and no other table change.\<close>

definition checklistStep :: "env \<Rightarrow> ID \<Rightarrow> ID list \<Rightarrow> database \<Rightarrow> database \<Rightarrow> bool" where
  "checklistStep e f l d d' \<longleftrightarrow> checklist d' f = l \<and> contiguous d' f \<and> criteria_ok e d'
     \<and> (\<forall>g. g \<noteq> f \<longrightarrow> activeCriteria d' g = activeCriteria d g) \<and> d'\<lparr>db_criteria := db_criteria d\<rparr> = d"

lemma checklist_ids_cast: "criteria_ok e d \<Longrightarrow> c \<in> set (checklist d f) \<Longrightarrow> uuid_in e c = Some c"
  by (auto simp: checklist_set criteria_ok_def)

lemma writeChecklistOrder_step:
  assumes ok: "criteria_ok e (wo_db w)" and "distinct ids" and "set ids = set (checklist (wo_db w) f)"
    and run: "writeChecklistOrder e 0 ids w = (Inr (), w')"
  shows "checklistStep e f ids (wo_db w) (wo_db w')"
proof -
  let ?d = "wo_db w"
  have dist: "distinct (map crID (db_criteria ?d))" using ok by (simp add: criteria_ok_def)
  have cast: "\<forall>c\<in>set ids. uuid_in e c = Some c" using checklist_ids_cast [OF ok] assms(3) by simp
  have d': "wo_db w' = ?d\<lparr>db_criteria := map (placed 0 ids) (db_criteria ?d)\<rparr>"
    by (rule writeChecklistOrder_Inr [OF run assms(2) cast])
  note ren = renumber [OF dist assms(2,3), folded d']
  have "criteria_ok e (wo_db w')" using ok by (simp add: d' criteria_ok_def comp_def)
  then show ?thesis using ren by (simp add: checklistStep_def d')
qed

lemma insertCriterion_Inr:
  assumes "insertCriterion e c n d = Inr (cid, d')" and "uuid_in e (hc_FamilyID c) = Some f"
  shows "cid = uuid_at e n" and "cid \<notin> crID ` set (db_criteria d)"
    and "d' = d\<lparr>db_criteria := db_criteria d @ [\<lparr>cr_Criterion = c\<lparr>hc_ID := cid, hc_FamilyID := f\<rparr>, cr_DeletedAt = None\<rparr>]\<rparr>"
  using assms unfolding insertCriterion_def Let_def by (auto simp: bindS_Inr castUUID_def)

text \<open>Both ways to store a criterion keep the table in order, add its id to the active ones of the
  family at most, and store the fields.\<close>

lemma stored_new:
  assumes ok: "criteria_ok e d" and "uuid_ok e" and ins: "insertCriterion e c n d = Inr (cid, d')" and f: "uuid_in e (hc_FamilyID c) = Some f"
  shows "criteria_ok e d'" and "set (checklist d' f) = insert cid (set (checklist d f))"
    and "g \<noteq> f \<Longrightarrow> activeCriteria d' g = activeCriteria d g" and "d'\<lparr>db_criteria := db_criteria d\<rparr> = d"
proof -
  note ins = insertCriterion_Inr [OF ins f]
  have "uuid_in e cid = Some cid" using ins(1) assms(2) by (simp add: uuid_ok_def)
  then show "criteria_ok e d'" using ok ins(2) by (simp add: ins(3) criteria_ok_def)
  define row where "row = \<lparr>cr_Criterion = c\<lparr>hc_ID := cid, hc_FamilyID := f\<rparr>, cr_DeletedAt = None\<rparr>"
  have row: "crID row = cid" "activeRow f row" by (simp_all add: row_def)
  have "{r \<in> set (db_criteria d'). activeRow f r} = insert row {r \<in> set (db_criteria d). activeRow f r}"
    using row(2) by (auto simp: ins(3) row_def [symmetric])
  then show "set (checklist d' f) = insert cid (set (checklist d f))" by (simp add: checklist_set row(1))
  show "activeCriteria d' g = activeCriteria d g" if "g \<noteq> f" using that by (simp add: activeCriteria_def ins(3))
  show "d'\<lparr>db_criteria := db_criteria d\<rparr> = d" by (simp add: ins(3))
qed

lemma updateCriterion_Inr:
  assumes "updateCriterion e c n d = Inr (u, d')" and "uuid_in e (hc_ID c) = Some i"
  shows "d' = d\<lparr>db_criteria := updateRows (\<lambda>r. crID r = i) (\<lambda>r. r\<lparr>cr_Criterion := (cr_Criterion r)\<lparr>hc_Name := hc_Name c,
                   hc_Description := hc_Description c, hc_Weight := hc_Weight c\<rparr>\<rparr>) (db_criteria d)\<rparr>"
  using assms unfolding updateCriterion_def by (auto simp: castUUID_def)

lemma filter_map_eq: "(\<And>r. P (h r) = P r) \<Longrightarrow> filter P (map h xs) = map h (filter P xs)"
  by (induction xs) auto

lemma stored_old:
  assumes ok: "criteria_ok e d" and up: "updateCriterion e c n d = Inr (u, d')" and "hc_ID c \<in> set (checklist d f)"
  shows "criteria_ok e d'" and "set (checklist d' f) = set (checklist d f)"
    and "g \<noteq> f \<Longrightarrow> activeCriteria d' g = activeCriteria d g" and "d'\<lparr>db_criteria := db_criteria d\<rparr> = d"
proof -
  define h where "h = (\<lambda>r. if crID r = hc_ID c then r\<lparr>cr_Criterion := (cr_Criterion r)\<lparr>hc_Name := hc_Name c,
                   hc_Description := hc_Description c, hc_Weight := hc_Weight c\<rparr>\<rparr> else r)"
  have h [simp]: "crID (h r) = crID r" "crFamily (h r) = crFamily r" "cr_DeletedAt (h r) = cr_DeletedAt r" for r
    by (simp_all add: h_def)
  have d': "d' = d\<lparr>db_criteria := map h (db_criteria d)\<rparr>"
    using updateCriterion_Inr [OF up checklist_ids_cast [OF ok assms(3)]] by (simp add: updateRows_def h_def)
  show "criteria_ok e d'" using ok by (simp add: criteria_ok_def d' comp_def)
  have "{r \<in> set (db_criteria d'). activeRow f r} = h ` {r \<in> set (db_criteria d). activeRow f r}" by (auto simp: d')
  then show "set (checklist d' f) = set (checklist d f)" by (simp add: checklist_set image_image)
  show "d'\<lparr>db_criteria := db_criteria d\<rparr> = d" by (simp add: d')
  show "activeCriteria d' g = activeCriteria d g" if "g \<noteq> f"
  proof -
    have "h r = r" if r: "r \<in> set (filter (activeRow g) (db_criteria d))" for r
    proof -
      obtain s where s: "s \<in> set (db_criteria d)" "crFamily s = f" "crID s = hc_ID c" using assms(3) by (auto simp: checklist_set)
      have "crID r \<noteq> hc_ID c"
      proof
        assume "crID r = hc_ID c"
        moreover have "inj_on crID (set (db_criteria d))" using ok by (simp add: criteria_ok_def distinct_map)
        ultimately have "s = r" using s r by (simp add: inj_on_def)
        with s r \<open>g \<noteq> f\<close> show False by simp
      qed
      then show ?thesis by (simp add: h_def)
    qed
    then have "map h (filter (activeRow g) (db_criteria d)) = filter (activeRow g) (db_criteria d)" by (rule map_idI)
    then show ?thesis by (simp add: activeCriteria_def d' filter_map_eq)
  qed
qed

lemma checklistStep_after:
  assumes "checklistStep e f l d1 d'" and "\<And>g. g \<noteq> f \<Longrightarrow> activeCriteria d1 g = activeCriteria d g" and "d1\<lparr>db_criteria := db_criteria d\<rparr> = d"
  shows "checklistStep e f l d d'"
proof -
  have "d'\<lparr>db_criteria := db_criteria d\<rparr> = d1\<lparr>db_criteria := db_criteria d\<rparr>"
    using assms(1) unfolding checklistStep_def by (metis database.surjective database.update_convs(11))
  then show ?thesis using assms unfolding checklistStep_def by simp
qed

text \<open>The abstract effect of saving \<open>c\<close> on the checklist \<open>l\<close>: out of its old place, into the wanted one.\<close>

definition savedList :: "HousingCriterion \<Rightarrow> ID \<Rightarrow> ID list \<Rightarrow> ID list" where
  "savedList c cid l = insertAt (nat (hc_DisplayOrder c)) cid (if hc_ID c = [] then l else remove1 (hc_ID c) l)"

lemma saveCriterion_body:
  assumes ok: "criteria_ok e (wo_db w)" and "uuid_ok e" and f: "uuid_in e (hc_FamilyID c) = Some f"
    and run: "bindP (checklistIDs e (hc_FamilyID c)) (\<lambda>ids0.
          if hc_ID c \<noteq> [] \<and> hc_ID c \<notin> set ids0 then throwP ErrNotFound
          else let ids = (if hc_ID c \<noteq> [] then remove1 (hc_ID c) ids0 else ids0) in
            if hc_DisplayOrder c > int (length ids) then throwP ErrInvalidArgument
            else bindP (if hc_ID c = [] then query e (insertCriterion e c)
                        else bindP (query e (updateCriterion e c)) (\<lambda>_. retP (hc_ID c))) (\<lambda>cid.
              bindP (writeChecklistOrder e 0 (insertAt (nat (hc_DisplayOrder c)) cid ids)) (\<lambda>_.
              retP (c\<lparr>hc_ID := cid\<rparr>)))) w = (Inr c', w')"
  shows "\<exists>cid. c' = c\<lparr>hc_ID := cid\<rparr> \<and> (if hc_ID c = [] then cid \<notin> crID ` set (db_criteria (wo_db w))
      else cid = hc_ID c \<and> cid \<in> set (checklist (wo_db w) f))
      \<and> checklistStep e f (savedList c cid (checklist (wo_db w) f)) (wo_db w) (wo_db w')"
proof -
  let ?d = "wo_db w" and ?l = "checklist (wo_db w) f"
  from run obtain ids0 w0 where ids0: "checklistIDs e (hc_FamilyID c) w = (Inr ids0, w0)" by (auto elim: bindP_InrE)
  note read = checklistIDs_Inr [OF ids0 f]
  have dist: "distinct ?l" using ok checklist_distinct by (simp add: criteria_ok_def)
  have ok0: "criteria_ok e (wo_db w0)" using ok read by simp
  show ?thesis
  proof (cases "hc_ID c = []")
    case True
    with run ids0 read obtain cid w1 where ins: "query e (insertCriterion e c) w0 = (Inr cid, w1)"
      and wr: "writeChecklistOrder e 0 (insertAt (nat (hc_DisplayOrder c)) cid ?l) w1 = (Inr (), w')" and c': "c' = c\<lparr>hc_ID := cid\<rparr>"
      by (auto simp: Let_def split: if_splits elim!: bindP_InrE)
    from query_InrD [OF ins] read have i: "insertCriterion e c (wo_tick w0) ?d = Inr (cid, wo_db w1)" by simp
    note new = stored_new [OF ok assms(2) i f]
    have fresh: "cid \<notin> crID ` set (db_criteria ?d)" by (rule insertCriterion_Inr(2) [OF i f])
    then have "cid \<notin> set ?l" by (auto simp: checklist_set)
    with dist new(2) have "checklistStep e f (insertAt (nat (hc_DisplayOrder c)) cid ?l) (wo_db w1) (wo_db w')"
      by (intro writeChecklistOrder_step [OF new(1) _ _ wr]) (simp_all add: distinct_insertAt)
    from checklistStep_after [OF this new(3,4)] have "checklistStep e f (savedList c cid ?l) ?d (wo_db w')"
      by (simp add: savedList_def True)
    with True c' fresh show ?thesis by auto
  next
    case False
    with run ids0 read obtain w1 where mem: "hc_ID c \<in> set ?l" and up: "query e (updateCriterion e c) w0 = (Inr (), w1)"
      and wr: "writeChecklistOrder e 0 (insertAt (nat (hc_DisplayOrder c)) (hc_ID c) (remove1 (hc_ID c) ?l)) w1 = (Inr (), w')" and c': "c' = c"
      by (auto simp: Let_def split: if_splits elim!: bindP_InrE)
    from query_InrD [OF up] read have u: "updateCriterion e c (wo_tick w0) ?d = Inr ((), wo_db w1)" by simp
    note old = stored_old [OF ok u mem]
    have "insert (hc_ID c) (set ?l - {hc_ID c}) = set ?l" using mem by blast
    with dist old(2) have "checklistStep e f (insertAt (nat (hc_DisplayOrder c)) (hc_ID c) (remove1 (hc_ID c) ?l)) (wo_db w1) (wo_db w')"
      by (intro writeChecklistOrder_step [OF old(1) _ _ wr]) (simp_all add: distinct_insertAt)
    from checklistStep_after [OF this old(3,4)] have "checklistStep e f (savedList c (hc_ID c) ?l) ?d (wo_db w')"
      by (simp add: savedList_def False)
    with False c' mem show ?thesis by (intro exI [of _ "hc_ID c"]) simp
  qed
qed

lemma filter_retired:
  "filter (activeRow g) (updateRows (\<lambda>r. crID r = c \<and> activeRow f r) (\<lambda>r. r\<lparr>cr_DeletedAt := Some t\<rparr>) rows)
   = filter (\<lambda>r. \<not> (g = f \<and> crID r = c)) (filter (activeRow g) rows)"
  by (induction rows) auto

lemma retired_checklist:
  assumes "retireCriterion e criterionID familyID t n d = Inr (k, d')" and "uuid_in e criterionID = Some c" and "uuid_in e familyID = Some f"
  shows "activeCriteria d' f = filter (\<lambda>r. crID r \<noteq> c) (activeCriteria d f)"
    and "g \<noteq> f \<Longrightarrow> activeCriteria d' g = activeCriteria d g" and "criteria_ok e d \<Longrightarrow> criteria_ok e d'"
    and "d'\<lparr>db_criteria := db_criteria d\<rparr> = d" and "k \<noteq> 0 \<Longrightarrow> c \<in> set (checklist d f)"
proof -
  let ?P = "\<lambda>r. crID r = c \<and> activeRow f r"
  have d': "d' = d\<lparr>db_criteria := updateRows ?P (\<lambda>r. r\<lparr>cr_DeletedAt := Some t\<rparr>) (db_criteria d)\<rparr>"
    and k: "k = length (filter ?P (db_criteria d))"
    using assms by (auto simp: retireCriterion_def Let_def castUUID_def)
  show "activeCriteria d' f = filter (\<lambda>r. crID r \<noteq> c) (activeCriteria d f)"
    unfolding activeCriteria_def using filter_retired [of f c f t "db_criteria d"]
    by (simp add: d' orderBy_filter [OF criterionLE_total criterionLE_trans])
  show "activeCriteria d' g = activeCriteria d g" if "g \<noteq> f"
    unfolding activeCriteria_def using filter_retired [of g c f t "db_criteria d"] that by (simp add: d')
  have "map crID (db_criteria d') = map crID (db_criteria d)" unfolding d' by (simp add: map_updateRows)
  then show "criteria_ok e d \<Longrightarrow> criteria_ok e d'" unfolding criteria_ok_def by (metis (no_types, lifting) image_iff list.set_map)
  show "d'\<lparr>db_criteria := db_criteria d\<rparr> = d" by (simp add: d')
  show "c \<in> set (checklist d f)" if "k \<noteq> 0"
  proof -
    from that k obtain r where "r \<in> set (filter ?P (db_criteria d))" by (cases "filter ?P (db_criteria d)") auto
    then show ?thesis by (auto simp: checklist_set)
  qed
qed

lemma map_filter_remove1: "distinct (map g xs) \<Longrightarrow> map g (filter (\<lambda>x. g x \<noteq> c) xs) = remove1 c (map g xs)"
proof (induction xs)
  case (Cons x xs)
  have "filter (\<lambda>x. g x \<noteq> c) xs = xs" if "g x = c" using Cons.prems that by (auto simp: filter_id_conv) (metis imageI)
  with Cons show ?case by auto
qed simp

lemma deleteCriterion_body:
  assumes ok: "criteria_ok e (wo_db w)" and f: "uuid_in e familyID = Some f"
    and run: "bindP (query e (retireCriterion e criterionID familyID t)) (\<lambda>rows.
       if rows = 0 then throwP ErrNotFound
       else bindP (checklistIDs e familyID) (\<lambda>ids. writeChecklistOrder e 0 ids)) w = (Inr x, w')"
  shows "\<exists>c. uuid_in e criterionID = Some c \<and> c \<in> set (checklist (wo_db w) f)
     \<and> checklistStep e f (remove1 c (checklist (wo_db w) f)) (wo_db w) (wo_db w')"
proof -
  let ?d = "wo_db w"
  from run obtain k w1 ids w2 where k: "query e (retireCriterion e criterionID familyID t) w = (Inr k, w1)" "k \<noteq> 0"
    and ids: "checklistIDs e familyID w1 = (Inr ids, w2)" and wr: "writeChecklistOrder e 0 ids w2 = (Inr (), w')"
    by (auto split: if_splits elim!: bindP_InrE)
  from query_InrD [OF k(1)] have r: "retireCriterion e criterionID familyID t (wo_tick w) ?d = Inr (k, wo_db w1)" .
  then obtain c where c: "uuid_in e criterionID = Some c" by (auto simp: retireCriterion_def bindS_Inr castUUID_def split: option.splits)
  note ret = retired_checklist [OF r c f]
  note read = checklistIDs_Inr [OF ids f]
  have dist: "distinct (checklist ?d f)" using ok checklist_distinct by (simp add: criteria_ok_def)
  have l: "checklist (wo_db w1) f = remove1 c (checklist ?d f)"
    using dist by (simp add: checklist_def ret(1) map_filter_remove1)
  have "checklistStep e f ids (wo_db w2) (wo_db w')"
    using read l dist by (intro writeChecklistOrder_step [OF _ _ _ wr]) (simp_all add: ret(3) [OF ok])
  then have "checklistStep e f (remove1 c (checklist ?d f)) (wo_db w1) (wo_db w')" by (simp add: read l)
  from checklistStep_after [OF this ret(2,4)] c ret(5) k(2) show ?thesis by blast
qed

lemma reorder_body:
  assumes ok: "criteria_ok e (wo_db w)" and f: "uuid_in e familyID = Some f"
    and run: "bindP (checklistIDs e familyID) (\<lambda>current.
       if length ids \<noteq> length current then throwP ErrInvalidArgument
       else if \<not> takesAll current ids then throwP ErrInvalidArgument
       else writeChecklistOrder e 0 ids) w = (Inr x, w')"
  shows "mset ids = mset (checklist (wo_db w) f) \<and> checklistStep e f ids (wo_db w) (wo_db w')"
proof -
  let ?l = "checklist (wo_db w) f"
  from run obtain current w1 where cur: "checklistIDs e familyID w = (Inr current, w1)" and len: "length ids = length current"
    and all: "takesAll current ids" and wr: "writeChecklistOrder e 0 ids w1 = (Inr (), w')"
    by (auto split: if_splits elim!: bindP_InrE)
  note read = checklistIDs_Inr [OF cur f]
  have dist: "distinct ?l" using ok checklist_distinct by (simp add: criteria_ok_def)
  from takesAll_set [OF all] read have ids: "set ids \<subseteq> set ?l" "distinct ids" by simp_all
  have "card (set ids) = card (set ?l)" using len read ids(2) dist by (simp add: distinct_card)
  with ids(1) have set: "set ids = set ?l" by (intro card_subset_eq) simp_all
  have "checklistStep e f ids (wo_db w1) (wo_db w')"
    using read ok set ids by (intro writeChecklistOrder_step [OF _ _ _ wr]) simp_all
  with set ids dist read show ?thesis by (simp add: set_eq_iff_mset_eq_distinct)
qed

text \<open>Whatever the answer of one of the three operations, either nothing is stored or the list operation is.\<close>

lemma save_cases:
  assumes "criteria_ok e (wo_db w)" and "uuid_ok e" and "repoSaveHousingCriterion e c actorID w = (r, w')"
  obtains (none) "isl r" "wo_db w' = wo_db w"
  | (saved) f u cid where "uuid_in e (hc_FamilyID c) = Some f" "uuid_in e actorID = Some u" "isWriter (wo_db w) f u"
      "if hc_ID c = [] then cid \<notin> crID ` set (db_criteria (wo_db w)) else cid = hc_ID c \<and> cid \<in> set (checklist (wo_db w) f)"
      "checklistStep e f (savedList c cid (checklist (wo_db w) f)) (wo_db w) (wo_db w')"
      "\<And>c'. r = Inr c' \<Longrightarrow> c' = c\<lparr>hc_Name := trimSpace (hc_Name c), hc_ID := cid\<rparr>"
proof -
  define c1 where "c1 = c\<lparr>hc_Name := trimSpace (hc_Name c)\<rparr>"
  have c1: "hc_ID c1 = hc_ID c" "hc_FamilyID c1 = hc_FamilyID c" "hc_DisplayOrder c1 = hc_DisplayOrder c" by (simp_all add: c1_def)
  show thesis
  proof (cases "ValidateHousingCriterion c1")
    case (Some err)
    with assms(3) show thesis by (intro none) (simp_all add: repoSaveHousingCriterion_def c1_def Let_def)
  next
    case None
    with assms(3) have "checklistTransaction e (hc_FamilyID c1) actorID (\<lambda>t.
          bindP (checklistIDs e (hc_FamilyID c1)) (\<lambda>ids0.
          if hc_ID c1 \<noteq> [] \<and> hc_ID c1 \<notin> set ids0 then throwP ErrNotFound
          else let ids = (if hc_ID c1 \<noteq> [] then remove1 (hc_ID c1) ids0 else ids0) in
            if hc_DisplayOrder c1 > int (length ids) then throwP ErrInvalidArgument
            else bindP (if hc_ID c1 = [] then query e (insertCriterion e c1)
                        else bindP (query e (updateCriterion e c1)) (\<lambda>_. retP (hc_ID c1))) (\<lambda>cid.
              bindP (writeChecklistOrder e 0 (insertAt (nat (hc_DisplayOrder c1)) cid ids)) (\<lambda>_.
              retP (c1\<lparr>hc_ID := cid\<rparr>))))) w = (r, w')"
      unfolding repoSaveHousingCriterion_def c1_def [symmetric] Let_def [of c1] by simp
    then show thesis
    proof (cases rule: checklistTransaction_cases)
      case (failed err)
      then show thesis by (intro none) simp_all
    next
      case (committed f u t w1 w2 x)
      have "criteria_ok e (wo_db w1)" using assms(1) committed(4) by simp
      from saveCriterion_body [OF this assms(2) committed(1,5)] obtain cid where cid: "x = c1\<lparr>hc_ID := cid\<rparr>"
        "if hc_ID c = [] then cid \<notin> crID ` set (db_criteria (wo_db w)) else cid = hc_ID c \<and> cid \<in> set (checklist (wo_db w) f)"
        "checklistStep e f (savedList c cid (checklist (wo_db w) f)) (wo_db w) (wo_db w')"
        unfolding c1 committed(4,6) savedList_def by blast
      show thesis
        by (rule saved [OF committed(1) [unfolded c1] committed(2,3) cid(2,3)]) (drule committed(7), simp add: cid(1) c1_def)
    qed
  qed
qed

lemma delete_cases:
  assumes "criteria_ok e (wo_db w)" and "repoDeleteHousingCriterion e familyID criterionID actorID w = (r, w')"
  obtains (none) "isl r" "wo_db w' = wo_db w"
  | (deleted) f u c where "uuid_in e familyID = Some f" "uuid_in e actorID = Some u" "isWriter (wo_db w) f u"
      "uuid_in e criterionID = Some c" "c \<in> set (checklist (wo_db w) f)"
      "checklistStep e f (remove1 c (checklist (wo_db w) f)) (wo_db w) (wo_db w')"
  using assms(2) unfolding repoDeleteHousingCriterion_def
proof (cases rule: checklistTransaction_cases)
  case (failed err)
  then show thesis by (intro none) simp_all
next
  case (committed f u t w1 w2 x)
  have "criteria_ok e (wo_db w1)" using assms(1) committed(4) by simp
  from deleteCriterion_body [OF this committed(1,5)] committed show thesis
    by (elim exE conjE, intro deleted [of f u]) simp_all
qed

lemma reorder_cases:
  assumes "criteria_ok e (wo_db w)" and "repoReorderHousingCriteria e familyID ids actorID w = (r, w')"
  obtains (none) "isl r" "wo_db w' = wo_db w"
  | (reordered) f u where "uuid_in e familyID = Some f" "uuid_in e actorID = Some u" "isWriter (wo_db w) f u"
      "mset ids = mset (checklist (wo_db w) f)" "checklistStep e f ids (wo_db w) (wo_db w')"
  using assms(2) unfolding repoReorderHousingCriteria_def
proof (cases rule: checklistTransaction_cases)
  case (failed err)
  then show thesis by (intro none) simp_all
next
  case (committed f u t w1 w2 x)
  have "criteria_ok e (wo_db w1)" using assms(1) committed(4) by simp
  from reorder_body [OF this committed(1,5)] committed show thesis
    by (elim conjE, intro reordered [of f u]) simp_all
qed

section \<open>An abstract list machine\<close>

text \<open>The contract the operations share: each keeps the well-formedness \<open>ok\<close>, and either shows no
  change or makes one step of the abstract machine in one of the lists. Its consequence for every
  run is proved once.\<close>

locale list_machine =
  fixes ok :: "'s \<Rightarrow> bool" and view :: "'s \<Rightarrow> 'k \<Rightarrow> 'x list" and tidy :: "'s \<Rightarrow> 'k \<Rightarrow> bool"
    and run :: "'op \<Rightarrow> 's \<Rightarrow> 's" and astep :: "'x list \<Rightarrow> 'x list \<Rightarrow> bool"
  assumes ok_run: "ok s \<Longrightarrow> ok (run p s)"
    and sim: "ok s \<Longrightarrow> (view (run p s) k = view s k \<or> astep (view s k) (view (run p s) k)) \<and> (tidy s k \<longrightarrow> tidy (run p s) k)"
begin

lemma runs:
  assumes "ok s"
  shows "ok (foldl (\<lambda>s p. run p s) s ops) \<and> astep\<^sup>*\<^sup>* (view s k) (view (foldl (\<lambda>s p. run p s) s ops) k)
    \<and> (tidy s k \<longrightarrow> tidy (foldl (\<lambda>s p. run p s) s ops) k)"
  using assms
proof (induction ops arbitrary: s)
  case (Cons p ops)
  have "astep\<^sup>*\<^sup>* (view s k) (view (run p s) k)" using sim [OF Cons.prems, of p k] by auto
  with Cons.IH [OF ok_run [OF Cons.prems], of p] sim [OF Cons.prems, of p k] show ?case
    by (auto intro: rtranclp_trans)
qed simp

end

text \<open>The abstract checklist: a list without repetitions.\<close>

inductive listStep :: "ID list \<Rightarrow> ID list \<Rightarrow> bool" where
  Add: "c \<notin> set l \<Longrightarrow> listStep l (insertAt k c l)"
| Move: "c \<in> set l \<Longrightarrow> listStep l (insertAt k c (remove1 c l))"
| Remove: "c \<in> set l \<Longrightarrow> listStep l (remove1 c l)"
| Arrange: "mset ids = mset l \<Longrightarrow> listStep l ids"

datatype checklistOp = SaveCriterion HousingCriterion ID | DeleteCriterion ID ID ID | ReorderCriteria ID "ID list" ID

fun runChecklistOp :: "env \<Rightarrow> checklistOp \<Rightarrow> world \<Rightarrow> world" where
  "runChecklistOp e (SaveCriterion c actor) w = snd (repoSaveHousingCriterion e c actor w)"
| "runChecklistOp e (DeleteCriterion f c actor) w = snd (repoDeleteHousingCriterion e f c actor w)"
| "runChecklistOp e (ReorderCriteria f ids actor) w = snd (repoReorderHousingCriteria e f ids actor w)"

lemma checklistStep_sim:
  assumes "checklistStep e f l d d'" and "listStep (checklist d f) l"
  shows "(checklist d' k = checklist d k \<or> listStep (checklist d k) (checklist d' k)) \<and> (contiguous d k \<longrightarrow> contiguous d' k)"
  using assms by (cases "k = f") (simp_all add: checklistStep_def checklist_def contiguous_def)

lemma checklist_op_cases:
  assumes "criteria_ok e (wo_db w)" and "uuid_ok e"
  obtains "wo_db (runChecklistOp e p w) = wo_db w"
  | f l where "checklistStep e f l (wo_db w) (wo_db (runChecklistOp e p w))" "listStep (checklist (wo_db w) f) l"
proof (cases p)
  case (SaveCriterion c actor)
  obtain r w' where r: "repoSaveHousingCriterion e c actor w = (r, w')" by fastforce
  from assms r show thesis
  proof (cases rule: save_cases)
    case none
    with r show thesis by (intro that(1)) (simp add: SaveCriterion)
  next
    case (saved f u cid)
    have "cid \<notin> set (checklist (wo_db w) f)" if "hc_ID c = []" using saved(4) that by (auto simp: checklist_set)
    then have "listStep (checklist (wo_db w) f) (savedList c cid (checklist (wo_db w) f))"
      using saved(4) by (auto simp: savedList_def intro: listStep.intros)
    with saved(5) r show thesis by (intro that(2)) (simp_all add: SaveCriterion)
  qed
next
  case (DeleteCriterion f c actor)
  obtain r w' where r: "repoDeleteHousingCriterion e f c actor w = (r, w')" by fastforce
  from assms(1) r show thesis
  proof (cases rule: delete_cases)
    case none
    with r show thesis by (intro that(1)) (simp add: DeleteCriterion)
  next
    case (deleted f u c)
    show thesis by (rule that(2) [OF _ listStep.Remove [OF deleted(5)]]) (simp add: DeleteCriterion r deleted(6))
  qed
next
  case (ReorderCriteria f ids actor)
  obtain r w' where r: "repoReorderHousingCriteria e f ids actor w = (r, w')" by fastforce
  from assms(1) r show thesis
  proof (cases rule: reorder_cases)
    case none
    with r show thesis by (intro that(1)) (simp add: ReorderCriteria)
  next
    case (reordered f u)
    show thesis by (rule that(2) [OF _ listStep.Arrange [OF reordered(4)]]) (simp add: ReorderCriteria r reordered(5))
  qed
qed

interpretation cl: list_machine "\<lambda>w. criteria_ok e (wo_db w) \<and> uuid_ok e" "\<lambda>w. checklist (wo_db w)" "\<lambda>w. contiguous (wo_db w)"
    "runChecklistOp e" listStep for e
proof
  fix s :: world and p
  assume ok: "criteria_ok e (wo_db s) \<and> uuid_ok e"
  then have ok': "criteria_ok e (wo_db s)" "uuid_ok e" by simp_all
  then show "criteria_ok e (wo_db (runChecklistOp e p s)) \<and> uuid_ok e"
    by (rule checklist_op_cases [of e s p]) (simp_all add: checklistStep_def ok')
  fix k
  from ok' show "(checklist (wo_db (runChecklistOp e p s)) k = checklist (wo_db s) k
      \<or> listStep (checklist (wo_db s) k) (checklist (wo_db (runChecklistOp e p s)) k))
      \<and> (contiguous (wo_db s) k \<longrightarrow> contiguous (wo_db (runChecklistOp e p s)) k)"
    by (rule checklist_op_cases [of e s p]) (simp_all add: checklistStep_sim)
qed

section \<open>Properties\<close>


definition example_criterion :: HousingCriterion where
  "example_criterion = \<lparr>hc_ID = [], hc_FamilyID = ''f1'', hc_Name = ''Light'', hc_Description = [], hc_DisplayOrder = 0, hc_Weight = None\<rparr>"

definition example_home :: world where
  "example_home = example_world\<lparr>wo_db := (wo_db example_world)\<lparr>db_families := [example_family],
     db_family_members := [\<lparr>fm_FamilyID = ''f1'', fm_UserID = ''u1'', fm_Role = ''owner'', fm_JoinedAt = 0\<rparr>],
     db_criteria := [\<lparr>cr_Criterion = example_criterion\<lparr>hc_ID := ''c1''\<rparr>, cr_DeletedAt = None\<rparr>,
       \<lparr>cr_Criterion = example_criterion\<lparr>hc_ID := ''c2'', hc_DisplayOrder := 1\<rparr>, cr_DeletedAt = None\<rparr>]\<rparr>\<rparr>"

lemma example_home_ok: "criteria_ok example_env (wo_db example_home)"
  by (simp add: criteria_ok_def example_home_def example_env_def example_criterion_def)


text \<open>
  Saving a criterion puts it at the requested place. Whatever \<open>SaveHousingCriterion\<close>
  answers, either the tables are unchanged and the answer is an error, or the user is a writer of
  the family and the family's checklist is the old one with the criterion taken out of its old
  place (a new one gets a fresh id) and inserted at \<open>DisplayOrder\<close>, renumbered from 0, with no
  other family's criteria and no other table touched; a successful answer carries that id.
\<close>

theorem save_criterion_places:
  assumes "criteria_ok e (wo_db w)" and "uuid_ok e" and "repoSaveHousingCriterion e c actorID w = (r, w')"
  shows "(isl r \<and> wo_db w' = wo_db w) \<or>
    (\<exists>f u cid. uuid_in e (hc_FamilyID c) = Some f \<and> uuid_in e actorID = Some u \<and> isWriter (wo_db w) f u
       \<and> (if hc_ID c = [] then cid \<notin> crID ` set (db_criteria (wo_db w)) else cid = hc_ID c \<and> cid \<in> set (checklist (wo_db w) f))
       \<and> checklistStep e f (savedList c cid (checklist (wo_db w) f)) (wo_db w) (wo_db w')
       \<and> (isl r \<or> r = Inr (c\<lparr>hc_Name := trimSpace (hc_Name c), hc_ID := cid\<rparr>)))"
  using assms
proof (cases rule: save_cases)
  case none
  then show ?thesis by simp
next
  case (saved f u cid)
  have "isl r \<or> r = Inr (c\<lparr>hc_Name := trimSpace (hc_Name c), hc_ID := cid\<rparr>)" using saved(6) by (cases r) simp_all
  with saved(1-5) show ?thesis by blast
qed

theorem save_criterion_places_witness:
  "\<exists>cid. checklist (wo_db (snd (repoSaveHousingCriterion example_env (example_criterion\<lparr>hc_DisplayOrder := 1\<rparr>) ''u1'' example_home))) ''f1''
     = [''c1'', cid, ''c2'']"
proof -
  let ?run = "repoSaveHousingCriterion example_env (example_criterion\<lparr>hc_DisplayOrder := 1\<rparr>) ''u1'' example_home"
  obtain r w' where r: "?run = (r, w')" by fastforce
  have ok: "\<not> isl (fst ?run)" by code_simp
  have l: "checklist (wo_db example_home) ''f1'' = [''c1'', ''c2'']" by code_simp
  have f: "uuid_in example_env (hc_FamilyID (example_criterion\<lparr>hc_DisplayOrder := 1\<rparr>)) = Some ''f1''"
    "hc_ID (example_criterion\<lparr>hc_DisplayOrder := 1\<rparr>) = []" by (simp_all add: example_env_def example_criterion_def)
  from save_criterion_places [OF example_home_ok example_env_ok r] ok r f obtain cid where
    "checklistStep example_env ''f1'' (savedList (example_criterion\<lparr>hc_DisplayOrder := 1\<rparr>) cid [''c1'', ''c2'']) (wo_db example_home) (wo_db w')"
    by (auto simp: l)
  with r show ?thesis by (auto simp: checklistStep_def savedList_def insertAt_def example_criterion_def)
qed

section \<open>Answers\<close>

definition answerKey :: "answer_row \<Rightarrow> ID \<times> ID" where
  "answerKey r = (ha_HousingID (ar_Answer r), ha_CriterionID (ar_Answer r))"

text \<open>The answers as a partial function of the option and the criterion.\<close>

definition answerMap :: "database \<Rightarrow> ID \<times> ID \<rightharpoonup> string \<times> int32 option \<times> string" where
  "answerMap d k = map_option (\<lambda>r. (ha_State (ar_Answer r), ha_Rating (ar_Answer r), ha_Notes (ar_Answer r)))
     (find (\<lambda>r. answerKey r = k) (db_answers d))"

lemma find_updateRows:
  assumes "\<And>r. key (g r) = key r"
  shows "find (\<lambda>r. key r = k) (updateRows (\<lambda>r. key r = k0) g rows)
    = (if k = k0 then map_option g (find (\<lambda>r. key r = k) rows) else find (\<lambda>r. key r = k) rows)"
  using assms by (induction rows) auto

lemma find_append_None: "find P (xs @ [x]) = (case find P xs of None \<Rightarrow> if P x then Some x else None | Some y \<Rightarrow> Some y)"
  by (induction xs) auto

lemma list_ex_find: "list_ex P xs \<Longrightarrow> \<exists>x. find P xs = Some x"
  by (induction xs) auto

lemma upsertAnswer_Inr:
  assumes "upsertAnswer e a familyID n d = Inr (x, d')" and h: "uuid_in e (ha_HousingID a) = Some h" and c: "uuid_in e (ha_CriterionID a) = Some c"
  shows "answerMap d' = (answerMap d)((h, c) \<mapsto> (ha_State a, ha_Rating a, ha_Notes a)) \<and> d'\<lparr>db_answers := db_answers d\<rparr> = d"
proof -
  have P: "(\<lambda>r. ha_HousingID (ar_Answer r) = h \<and> ha_CriterionID (ar_Answer r) = c) = (\<lambda>r. answerKey r = (h, c))"
    by (auto simp: answerKey_def)
  define g where "g = (\<lambda>r :: answer_row. r\<lparr>ar_Answer := (ar_Answer r)\<lparr>ha_State := ha_State a, ha_Rating := ha_Rating a, ha_Notes := ha_Notes a\<rparr>\<rparr>)"
  have stored: "ha_State (ar_Answer (g r)) = ha_State a" "ha_Rating (ar_Answer (g r)) = ha_Rating a"
    "ha_Notes (ar_Answer (g r)) = ha_Notes a" for r by (simp_all add: g_def)
  have key: "answerKey (g r) = answerKey r" for r by (simp add: g_def answerKey_def)
  show ?thesis
  proof (cases "list_ex (\<lambda>r. answerKey r = (h, c)) (db_answers d)")
    case True
    with assms have d': "d' = d\<lparr>db_answers := updateRows (\<lambda>r. answerKey r = (h, c)) g (db_answers d)\<rparr>"
      by (auto simp: upsertAnswer_def castUUID_def P Let_def g_def bindS_Inr)
    from list_ex_find [OF True] obtain r where "find (\<lambda>r. answerKey r = (h, c)) (db_answers d) = Some r" by blast
    then have "answerMap d' k = ((answerMap d)((h, c) \<mapsto> (ha_State a, ha_Rating a, ha_Notes a))) k" for k
      by (simp add: answerMap_def d' find_updateRows [where key = answerKey and g = g, OF key] stored)
    with d' show ?thesis by (simp add: fun_eq_iff)
  next
    case False
    with assms obtain f where d': "d' = d\<lparr>db_answers := db_answers d @ [\<lparr>ar_Answer = a\<lparr>ha_HousingID := h, ha_CriterionID := c\<rparr>, ar_FamilyID = f\<rparr>]\<rparr>"
      by (auto simp: upsertAnswer_def castUUID_def P Let_def bindS_Inr)
    have "find (\<lambda>r. answerKey r = (h, c)) (db_answers d) = None" using False by (simp add: find_None_iff list_ex_iff)
    then have "answerMap d' k = ((answerMap d)((h, c) \<mapsto> (ha_State a, ha_Rating a, ha_Notes a))) k" for k
      by (auto simp: answerMap_def d' find_append_None answerKey_def split: option.splits)
    with d' show ?thesis by (simp add: fun_eq_iff)
  qed
qed

lemma answerFamily_Inr:
  assumes "answerFamily e a actorID n d = Inr (f, d')"
  obtains h c u where "uuid_in e (ha_HousingID a) = Some h" "uuid_in e (ha_CriterionID a) = Some c" "uuid_in e actorID = Some u"
    "d' = d" "isWriter d f u" "c \<in> set (checklist d f)" "\<exists>opt\<in>set (db_housing_options d). ho_ID opt = h \<and> ho_FamilyID opt = f"
proof -
  from assms obtain h c u opt rest where k: "uuid_in e (ha_HousingID a) = Some h" "uuid_in e (ha_CriterionID a) = Some c" "uuid_in e actorID = Some u" "d' = d"
    and f: "f = ho_FamilyID opt" and row: "filter (\<lambda>o'. ho_ID o' = h \<and> isWriter d (ho_FamilyID o') u
                \<and> list_ex (\<lambda>r. crID r = c \<and> crFamily r = ho_FamilyID o' \<and> cr_DeletedAt r = None) (db_criteria d)) (db_housing_options d) = opt # rest"
    unfolding answerFamily_def bindS_Inr firstRow_Inr castUUID_Inr by auto
  from row have "opt \<in> set (filter (\<lambda>o'. ho_ID o' = h \<and> isWriter d (ho_FamilyID o') u
                \<and> list_ex (\<lambda>r. crID r = c \<and> crFamily r = ho_FamilyID o' \<and> cr_DeletedAt r = None) (db_criteria d)) (db_housing_options d))"
    by simp
  then show thesis using k f by (intro that) (auto simp: checklist_set list_ex_iff)
qed

text \<open>
  Property C18: an answer is stored only by a writer of the family that owns both the option and a
  criterion still on its checklist. Whatever \<open>SaveHousingAnswer\<close> answers, the tables are unchanged
  or the answers, read as a function of option and criterion, are updated at exactly that pair
  with the given state, rating and notes and no other table changes; an invalid answer is
  rejected without touching the database.
\<close>

theorem save_answer_upsert:
  assumes "repoSaveHousingAnswer e a actorID w = (r, w')"
  shows "(isl r \<and> wo_db w' = wo_db w) \<or>
    (ValidateHousingAnswer a = None \<and> (isl r \<or> r = Inr a)
     \<and> (\<exists>h c f u. uuid_in e (ha_HousingID a) = Some h \<and> uuid_in e (ha_CriterionID a) = Some c \<and> uuid_in e actorID = Some u
          \<and> isWriter (wo_db w) f u \<and> c \<in> set (checklist (wo_db w) f)
          \<and> (\<exists>opt\<in>set (db_housing_options (wo_db w)). ho_ID opt = h \<and> ho_FamilyID opt = f)
          \<and> answerMap (wo_db w') = (answerMap (wo_db w))((h, c) \<mapsto> (ha_State a, ha_Rating a, ha_Notes a))
          \<and> (wo_db w')\<lparr>db_answers := db_answers (wo_db w)\<rparr> = wo_db w))"
proof (cases "ValidateHousingAnswer a")
  case (Some err)
  with assms show ?thesis by (simp add: repoSaveHousingAnswer_def)
next
  case None
  with assms have "transaction e (\<lambda>t.
          bindP (query e (answerFamily e a actorID)) (\<lambda>familyID.
          bindP (query e (upsertAnswer e a familyID)) (\<lambda>_. retP a))) w = (r, w')"
    by (simp add: repoSaveHousingAnswer_def)
  then show ?thesis
  proof (cases rule: transaction_cases)
    case (failed err)
    then show ?thesis by simp
  next
    case (committed t w1 w2 x)
    from committed(2) obtain f w3 where f: "query e (answerFamily e a actorID) w1 = (Inr f, w3)"
      and up: "query e (upsertAnswer e a f) w3 = (Inr (), w2)" and x: "x = a" by (auto elim!: bindP_InrE)
    have r: "isl r \<or> r = Inr a" using committed(4) x by (cases r) simp_all
    from query_InrD [OF f] show ?thesis
    proof (rule answerFamily_Inr)
      fix h c u
      assume k: "uuid_in e (ha_HousingID a) = Some h" "uuid_in e (ha_CriterionID a) = Some c" "uuid_in e actorID = Some u"
        "wo_db w3 = wo_db w1" "isWriter (wo_db w1) f u" "c \<in> set (checklist (wo_db w1) f)"
        "\<exists>opt\<in>set (db_housing_options (wo_db w1)). ho_ID opt = h \<and> ho_FamilyID opt = f"
      from upsertAnswer_Inr [OF query_InrD [OF up] k(1,2)] None r k committed(1,3) show ?thesis by auto
    qed
  qed
qed

definition example_option :: HousingOption where
  "example_option = \<lparr>ho_Notes = [], ho_Evaluation = None, ho_ID = ''h1'', ho_FamilyID = ''f1'', ho_GroupID = [], ho_Name = ''Flat'',
     ho_Type = ''bto'', ho_Location = [], ho_UnitType = [], ho_PurchasePriceCents = 0, ho_GrantAmountCents = 0, ho_LoanType = ''hdb'',
     ho_LoanAmountCents = 0, ho_InterestRateBps = 260, ho_LoanTenureMonths = 300, ho_DownpaymentPercentBps = 0,
     ho_RenovationBudgetCents = 0, ho_FurnitureBudgetCents = 0, ho_LegalFeesCents = 0, ho_BuyerStampDutyCents = 0,
     ho_MonthlyMaintenanceCents = 0, ho_VisibleOnDashboard = True, ho_ExpectedKeyCollectionDate = None, ho_DIAIncomeOverrides = [],
     ho_CreatedAt = 0, ho_UpdatedAt = 0\<rparr>"

definition example_flat :: world where
  "example_flat = example_home\<lparr>wo_db := (wo_db example_home)\<lparr>db_housing_options := [example_option]\<rparr>\<rparr>"

definition example_answer :: HousingAnswer where
  "example_answer = \<lparr>ha_HousingID = ''h1'', ha_CriterionID = ''c1'', ha_State = ''complete'', ha_Rating = Some 4, ha_Notes = []\<rparr>"

theorem save_answer_upsert_witness:
  "answerMap (wo_db (snd (repoSaveHousingAnswer example_env example_answer ''u1'' example_flat)))
     = (answerMap (wo_db example_flat))((''h1'', ''c1'') \<mapsto> (''complete'', Some 4, []))"
proof -
  obtain r w' where r: "repoSaveHousingAnswer example_env example_answer ''u1'' example_flat = (r, w')" by fastforce
  have ok: "\<not> isl (fst (repoSaveHousingAnswer example_env example_answer ''u1'' example_flat))" by code_simp
  have k: "uuid_in example_env (ha_HousingID example_answer) = Some ''h1''" "uuid_in example_env (ha_CriterionID example_answer) = Some ''c1''"
    "ha_State example_answer = ''complete''" "ha_Rating example_answer = Some 4" "ha_Notes example_answer = []"
    by (simp_all add: example_env_def example_answer_def)
  from ok r have "\<not> isl r" by simp
  with save_answer_upsert [OF r] k show ?thesis unfolding r by auto
qed

end
