(* ===== verification/Repo_Housing.thy ===== *)
theory Repo_Housing
  imports Repo_Checklist
begin

text \<open>
  \<open>internal/repository/postgres/housing.go\<close> and \<open>housing_notes.go\<close>: the housing options of a
  family, the groups they are sorted into, and the notepad. The checks of \<open>db/migrations\<close> on
  these tables fail with the codes of the database. The JSON column of the income overrides is the
  list it encodes.
\<close>

section \<open>Rows\<close>

fun cleanDIAOverrides :: "HousingDIAIncomeOverride list \<Rightarrow> HousingDIAIncomeOverride list" where
  "cleanDIAOverrides [] = []"
| "cleanDIAOverrides (v # vs) =
     (let personID = trimSpace (dia_PersonID v);
          projected = (if dia_ProjectedIncomeCents v < 0 then 0 else dia_ProjectedIncomeCents v)
      in if personID = [] then cleanDIAOverrides vs
         else \<lparr>dia_PersonID = personID, dia_ProjectedIncomeCents = projected\<rparr> # cleanDIAOverrides vs)"

definition marshalDIAIncomeOverrides :: "HousingDIAIncomeOverride list \<Rightarrow> HousingDIAIncomeOverride list" where
  "marshalDIAIncomeOverrides vs = map (\<lambda>v. v\<lparr>dia_PersonID := jsonText (dia_PersonID v)\<rparr>) (cleanDIAOverrides vs)"

definition unmarshalDIAIncomeOverrides :: "HousingDIAIncomeOverride list \<Rightarrow> HousingDIAIncomeOverride list" where
  "unmarshalDIAIncomeOverrides raw = cleanDIAOverrides raw"

definition scanHousingRow :: "HousingOption \<Rightarrow> HousingOption" where
  "scanHousingRow row = row\<lparr>ho_Evaluation := None, ho_GroupID := trimSpace (ho_GroupID row),
     ho_ExpectedKeyCollectionDate := parseOptionalDate (optionalDateString (ho_ExpectedKeyCollectionDate row)),
     ho_DIAIncomeOverrides := unmarshalDIAIncomeOverrides (ho_DIAIncomeOverrides row)\<rparr>"

definition scanHousingGroupRow :: "HousingGroup \<Rightarrow> HousingGroup" where
  "scanHousingGroupRow row = \<lparr>hg_ID = hg_ID row, hg_FamilyID = hg_FamilyID row, hg_Name = hg_Name row,
     hg_CreatedAt = hg_CreatedAt row, hg_UpdatedAt = hg_UpdatedAt row\<rparr>"

definition housingCheck :: "HousingOption \<Rightarrow> bool" where
  "housingCheck h \<longleftrightarrow>
     ho_Type h \<in> {''bto'', ''resale_hdb'', ''executive_condo'', ''private_condo'', ''landed'', ''other''}
     \<and> ho_LoanType h \<in> {''hdb'', ''bank'', ''cash''}
     \<and> 0 \<le> ho_PurchasePriceCents h \<and> 0 \<le> ho_GrantAmountCents h \<and> 0 \<le> ho_LoanAmountCents h \<and> 0 \<le> ho_InterestRateBps h
     \<and> 0 \<le> ho_LoanTenureMonths h \<and> 0 \<le> ho_DownpaymentPercentBps h \<and> 0 \<le> ho_RenovationBudgetCents h
     \<and> 0 \<le> ho_FurnitureBudgetCents h \<and> 0 \<le> ho_LegalFeesCents h \<and> 0 \<le> ho_BuyerStampDutyCents h \<and> 0 \<le> ho_MonthlyMaintenanceCents h
     \<and> runeCount (ho_Notes h) \<le> 10000"

definition groupExists :: "database \<Rightarrow> ID \<Rightarrow> bool" where
  "groupExists d g \<longleftrightarrow> g = [] \<or> list_ex (\<lambda>r. hg_ID r = g) (db_housing_groups d)"

definition optionConstraints :: "database \<Rightarrow> HousingOption \<Rightarrow> db_error + unit" where
  "optionConstraints d h =
     bindS (checkS (housingCheck h) ''23514'' ''housing_options_check'') (\<lambda>_.
     checkS (groupExists d (ho_GroupID h)) ''23503'' ''housing_options_housing_group_id_fkey'')"

text \<open>The casts of the parameters to the column types.\<close>

definition castHousing :: "env \<Rightarrow> HousingOption \<Rightarrow> db_error + HousingOption" where
  "castHousing e h =
     bindS (castUUIDOpt e (ho_GroupID h)) (\<lambda>g.
     bindS (castInt4 (ho_InterestRateBps h)) (\<lambda>rate.
     bindS (castInt4 (ho_LoanTenureMonths h)) (\<lambda>tenure.
     bindS (castInt4 (ho_DownpaymentPercentBps h)) (\<lambda>down.
     bindS (castDate (optionalDateString (ho_ExpectedKeyCollectionDate h))) (\<lambda>key.
     Inr (h\<lparr>ho_Evaluation := None, ho_GroupID := g, ho_InterestRateBps := rate, ho_LoanTenureMonths := tenure,
            ho_DownpaymentPercentBps := down, ho_ExpectedKeyCollectionDate := key,
            ho_DIAIncomeOverrides := marshalDIAIncomeOverrides (ho_DIAIncomeOverrides h)\<rparr>))))))"

section \<open>Groups of an option\<close>

definition validateHousingGroupAssignment :: "env \<Rightarrow> ID \<Rightarrow> ID \<Rightarrow> (go_error, unit) io" where
  "validateHousingGroupAssignment e familyID groupID =
     (let groupIDText = trimSpace groupID in
      if groupIDText = [] then retP ()
      else bindP (query e (\<lambda>n d. bindS (castUUID e groupIDText) (\<lambda>g. bindS (castUUID e familyID) (\<lambda>f.
             Inr (list_ex (\<lambda>r. hg_ID r = g \<and> hg_FamilyID r = f) (db_housing_groups d), d))))) (\<lambda>exists.
           if \<not> exists then throwP ErrInvalidArgument else retP ()))"

definition getHousingGroupFamilyID :: "env \<Rightarrow> ID \<Rightarrow> (go_error, ID) io" where
  "getHousingGroupFamilyID e groupID =
     (if blank groupID then throwP ErrInvalidArgument
      else query e (\<lambda>n d. bindS (castUUID e groupID) (\<lambda>g.
             bindS (firstRow (filter (\<lambda>r. hg_ID r = g) (db_housing_groups d))) (\<lambda>r. Inr (hg_FamilyID r, d)))))"

section \<open>Options\<close>

definition insertOption :: "env \<Rightarrow> HousingOption \<Rightarrow> HousingOption stmt" where
  "insertOption e opt n d =
     bindS (castUUID e (ho_FamilyID opt)) (\<lambda>f.
     bindS (castHousing e opt) (\<lambda>h.
     let row = h\<lparr>ho_ID := uuid_at e n, ho_FamilyID := f, ho_CreatedAt := dbNow e n, ho_UpdatedAt := dbNow e n\<rparr>
     in bindS (optionConstraints d row) (\<lambda>_.
        bindS (checkS (ho_ID row \<notin> ho_ID ` set (db_housing_options d)) ''23505'' ''housing_options_pkey'') (\<lambda>_.
        bindS (checkS (f \<in> fa_ID ` set (db_families d)) ''23503'' ''housing_options_family_id_fkey'') (\<lambda>_.
        Inr (row, d\<lparr>db_housing_options := db_housing_options d @ [row]\<rparr>))))))"

definition repoCreateHousingOption :: "env \<Rightarrow> HousingOption \<Rightarrow> ID \<Rightarrow> (go_error, HousingOption) io" where
  "repoCreateHousingOption e opt actorID =
     (case ValidateHousingNotes (ho_Notes opt) of Some err \<Rightarrow> throwP err
      | None \<Rightarrow> if blank (ho_FamilyID opt) \<or> blank (ho_Name opt) then throwP ErrInvalidArgument
        else bindP (assertFamilyWriter e actorID (ho_FamilyID opt)) (\<lambda>_.
             bindP (validateHousingGroupAssignment e (ho_FamilyID opt) (ho_GroupID opt)) (\<lambda>_.
             bindP (query e (insertOption e opt)) (\<lambda>row. retP (scanHousingRow row)))))"

definition repoGetHousingOption :: "env \<Rightarrow> ID \<Rightarrow> ID \<Rightarrow> (go_error, HousingOption) io" where
  "repoGetHousingOption e housingID viewerID =
     bindP (query e (\<lambda>n d. bindS (castUUID e housingID) (\<lambda>h. bindS (castUUID e viewerID) (\<lambda>u.
       bindS (firstRow (filter (\<lambda>r. ho_ID r = h \<and> isMember d (ho_FamilyID r) u) (db_housing_options d))) (\<lambda>row.
       Inr (scanHousingRow row, d)))))) (\<lambda>opt.
     bindP (attachHousingEvaluations e [opt] (ho_FamilyID opt) viewerID) (\<lambda>opts. retP (hd opts)))"

definition repoListHousingOptions :: "env \<Rightarrow> ID \<Rightarrow> ID \<Rightarrow> (go_error, HousingOption list) io" where
  "repoListHousingOptions e familyID viewerID =
     bindP (hasFamilyAccess e viewerID familyID) (\<lambda>allowed.
     if \<not> allowed then throwP ErrForbidden
     else bindP (query e (\<lambda>n d. bindS (castUUID e familyID) (\<lambda>f.
            Inr (map scanHousingRow (orderBy (\<lambda>a b. ho_CreatedAt b \<le> ho_CreatedAt a)
                   (filter (\<lambda>r. ho_FamilyID r = f) (db_housing_options d))), d)))) (\<lambda>options.
          attachHousingEvaluations e options familyID viewerID))"

text \<open>\<open>UPDATE housing_options h ... FROM family_members fm\<close>: the row with the id in a family where the
  actor may write, if it satisfies \<open>ok\<close>.\<close>

definition updateOption :: "env \<Rightarrow> ID \<Rightarrow> ID \<Rightarrow> (HousingOption \<Rightarrow> bool) \<Rightarrow> (HousingOption \<Rightarrow> HousingOption) \<Rightarrow> HousingOption stmt" where
  "updateOption e housingID actorID ok f n d =
     bindS (castUUID e housingID) (\<lambda>h. bindS (castUUID e actorID) (\<lambda>u.
     let P = (\<lambda>r. ho_ID r = h \<and> isWriter d (ho_FamilyID r) u \<and> ok r);
         g = (\<lambda>r. (f r)\<lparr>ho_UpdatedAt := dbNow e n\<rparr>)
     in bindS (firstRow (filter P (db_housing_options d))) (\<lambda>old.
        bindS (optionConstraints d (g old)) (\<lambda>_.
        Inr (g old, d\<lparr>db_housing_options := updateRows P g (db_housing_options d)\<rparr>)))))"

text \<open>The assigned columns of \<open>UpdateHousingOption\<close>; the identity, the family, the notes and the
  creation time stay.\<close>

definition setOption :: "HousingOption \<Rightarrow> HousingOption \<Rightarrow> HousingOption" where
  "setOption h old = h\<lparr>ho_ID := ho_ID old, ho_FamilyID := ho_FamilyID old, ho_Notes := ho_Notes old, ho_CreatedAt := ho_CreatedAt old\<rparr>"

definition writeOption :: "env \<Rightarrow> HousingOption \<Rightarrow> ID \<Rightarrow> HousingOption stmt" where
  "writeOption e opt actorID n d =
     bindS (castHousing e opt) (\<lambda>h. updateOption e (ho_ID opt) actorID (\<lambda>r. True) (setOption h) n d)"

definition repoUpdateHousingOption :: "env \<Rightarrow> HousingOption \<Rightarrow> ID \<Rightarrow> (go_error, HousingOption) io" where
  "repoUpdateHousingOption e opt actorID =
     (if blank (ho_ID opt) \<or> blank (ho_Name opt) then throwP ErrInvalidArgument
      else if blank (ho_FamilyID opt) then throwP ErrInvalidArgument
      else bindP (validateHousingGroupAssignment e (ho_FamilyID opt) (ho_GroupID opt)) (\<lambda>_.
           bindP (query e (writeOption e opt actorID)) (\<lambda>row. retP (scanHousingRow row))))"

text \<open>Deleting an option cascades to its answers.\<close>

definition deleteOption :: "env \<Rightarrow> ID \<Rightarrow> ID \<Rightarrow> nat stmt" where
  "deleteOption e housingID actorID n d =
     bindS (castUUID e housingID) (\<lambda>h. bindS (castUUID e actorID) (\<lambda>u.
     let P = (\<lambda>r. ho_ID r = h \<and> isWriter d (ho_FamilyID r) u);
         gone = filter P (db_housing_options d)
     in Inr (length gone, d\<lparr>db_housing_options := filter (\<lambda>r. \<not> P r) (db_housing_options d),
               db_answers := filter (\<lambda>a. ha_HousingID (ar_Answer a) \<notin> ho_ID ` set gone) (db_answers d)\<rparr>)))"

definition repoDeleteHousingOption :: "env \<Rightarrow> ID \<Rightarrow> ID \<Rightarrow> (go_error, unit) io" where
  "repoDeleteHousingOption e housingID actorID =
     bindP (query e (deleteOption e housingID actorID)) (\<lambda>rows. if rows = 0 then throwP ErrNotFound else retP ())"

section \<open>Groups\<close>

text \<open>The unique index on the family and \<open>lower(name)\<close>.\<close>

definition groupNameTaken :: "env \<Rightarrow> HousingGroup list \<Rightarrow> ID \<Rightarrow> string \<Rightarrow> bool" where
  "groupNameTaken e groups f name \<longleftrightarrow>
     list_ex (\<lambda>r. hg_FamilyID r = f \<and> toLower (uni_lower e) (hg_Name r) = toLower (uni_lower e) name) groups"

definition insertGroup :: "env \<Rightarrow> HousingGroup \<Rightarrow> HousingGroup stmt" where
  "insertGroup e g n d =
     bindS (castUUID e (hg_FamilyID g)) (\<lambda>f.
     let row = \<lparr>hg_ID = uuid_at e n, hg_FamilyID = f, hg_Name = hg_Name g, hg_CreatedAt = dbNow e n, hg_UpdatedAt = dbNow e n\<rparr>
     in bindS (checkS (hg_ID row \<notin> hg_ID ` set (db_housing_groups d) \<and> \<not> groupNameTaken e (db_housing_groups d) f (hg_Name g))
                 ''23505'' ''housing_groups_family_id_name_key'') (\<lambda>_.
        bindS (checkS (f \<in> fa_ID ` set (db_families d)) ''23503'' ''housing_groups_family_id_fkey'') (\<lambda>_.
        Inr (row, d\<lparr>db_housing_groups := db_housing_groups d @ [row]\<rparr>))))"

definition repoCreateHousingGroup :: "env \<Rightarrow> HousingGroup \<Rightarrow> ID \<Rightarrow> (go_error, HousingGroup) io" where
  "repoCreateHousingGroup e g actorID =
     (if blank (hg_FamilyID g) \<or> blank (hg_Name g) then throwP ErrInvalidArgument
      else bindP (assertFamilyWriter e actorID (hg_FamilyID g)) (\<lambda>_.
           bindP (query e (insertGroup e g)) (\<lambda>row. retP (scanHousingGroupRow row))))"

definition repoListHousingGroups :: "env \<Rightarrow> ID \<Rightarrow> ID \<Rightarrow> (go_error, HousingGroup list) io" where
  "repoListHousingGroups e familyID viewerID =
     bindP (hasFamilyAccess e viewerID familyID) (\<lambda>allowed.
     if \<not> allowed then throwP ErrForbidden
     else query e (\<lambda>n d. bindS (castUUID e familyID) (\<lambda>f.
            Inr (map scanHousingGroupRow (orderBy (\<lambda>a b. hg_CreatedAt b \<le> hg_CreatedAt a)
                   (filter (\<lambda>r. hg_FamilyID r = f) (db_housing_groups d))), d))))"

definition updateGroup :: "env \<Rightarrow> HousingGroup \<Rightarrow> ID \<Rightarrow> HousingGroup stmt" where
  "updateGroup e g actorID n d =
     bindS (castUUID e (hg_ID g)) (\<lambda>i. bindS (castUUID e actorID) (\<lambda>u.
     let P = (\<lambda>r. hg_ID r = i \<and> isWriter d (hg_FamilyID r) u);
         h = (\<lambda>r. r\<lparr>hg_Name := hg_Name g, hg_UpdatedAt := dbNow e n\<rparr>)
     in bindS (firstRow (filter P (db_housing_groups d))) (\<lambda>old.
        bindS (checkS (\<not> groupNameTaken e (filter (\<lambda>r. \<not> P r) (db_housing_groups d)) (hg_FamilyID old) (hg_Name g))
                 ''23505'' ''housing_groups_family_id_name_key'') (\<lambda>_.
        Inr (h old, d\<lparr>db_housing_groups := updateRows P h (db_housing_groups d)\<rparr>)))))"

definition repoUpdateHousingGroup :: "env \<Rightarrow> HousingGroup \<Rightarrow> ID \<Rightarrow> (go_error, HousingGroup) io" where
  "repoUpdateHousingGroup e g actorID =
     (if blank (hg_ID g) \<or> blank (hg_Name g) then throwP ErrInvalidArgument
      else bindP (query e (updateGroup e g actorID)) (\<lambda>row. retP (scanHousingGroupRow row)))"

text \<open>Deleting a group leaves its options without one.\<close>

definition deleteGroup :: "env \<Rightarrow> ID \<Rightarrow> nat stmt" where
  "deleteGroup e groupID n d =
     bindS (castUUID e groupID) (\<lambda>g.
     Inr (length (filter (\<lambda>r. hg_ID r = g) (db_housing_groups d)),
          d\<lparr>db_housing_groups := filter (\<lambda>r. hg_ID r \<noteq> g) (db_housing_groups d),
            db_housing_options := updateRows (\<lambda>r. ho_GroupID r = g) (\<lambda>r. r\<lparr>ho_GroupID := []\<rparr>) (db_housing_options d)\<rparr>))"

definition repoDeleteHousingGroup :: "env \<Rightarrow> ID \<Rightarrow> ID \<Rightarrow> (go_error, unit) io" where
  "repoDeleteHousingGroup e groupID actorID =
     bindP (getHousingGroupFamilyID e groupID) (\<lambda>familyID.
     bindP (assertFamilyWriter e actorID familyID) (\<lambda>_.
     bindP (query e (deleteGroup e groupID)) (\<lambda>rows. if rows = 0 then throwP ErrNotFound else retP ())))"

definition assignGroup :: "env \<Rightarrow> ID \<Rightarrow> string \<Rightarrow> ID option \<Rightarrow> ID \<Rightarrow> HousingOption stmt" where
  "assignGroup e housingID groupIDText groupFamilyID actorID n d =
     bindS (castUUIDOpt e groupIDText) (\<lambda>g.
     bindS (case groupFamilyID of None \<Rightarrow> Inr None | Some s \<Rightarrow> bindS (castUUID e s) (\<lambda>f. Inr (Some f))) (\<lambda>gf.
     updateOption e housingID actorID (\<lambda>r. case gf of None \<Rightarrow> True | Some f \<Rightarrow> ho_FamilyID r = f) (\<lambda>r. r\<lparr>ho_GroupID := g\<rparr>) n d))"

definition repoAssignHousingOptionGroup :: "env \<Rightarrow> ID \<Rightarrow> ID \<Rightarrow> ID \<Rightarrow> (go_error, HousingOption) io" where
  "repoAssignHousingOptionGroup e housingID groupID actorID =
     (let groupIDText = trimSpace groupID in
      bindP (if groupIDText \<noteq> [] then bindP (getHousingGroupFamilyID e groupIDText) (\<lambda>f. retP (Some f)) else retP None) (\<lambda>groupFamilyID.
      bindP (query e (assignGroup e housingID groupIDText groupFamilyID actorID)) (\<lambda>row. retP (scanHousingRow row))))"

definition repoUpdateHousingOptionVisibility :: "env \<Rightarrow> ID \<Rightarrow> bool \<Rightarrow> ID \<Rightarrow> (go_error, HousingOption) io" where
  "repoUpdateHousingOptionVisibility e housingID visible actorID =
     bindP (query e (updateOption e housingID actorID (\<lambda>r. True) (\<lambda>r. r\<lparr>ho_VisibleOnDashboard := visible\<rparr>))) (\<lambda>row. retP (scanHousingRow row))"

definition showGroup :: "env \<Rightarrow> ID \<Rightarrow> bool \<Rightarrow> HousingOption list stmt" where
  "showGroup e groupID visible n d =
     bindS (castUUID e groupID) (\<lambda>g.
     let P = (\<lambda>r. ho_GroupID r = g); h = (\<lambda>r. r\<lparr>ho_VisibleOnDashboard := visible, ho_UpdatedAt := dbNow e n\<rparr>)
     in Inr (map h (filter P (db_housing_options d)), d\<lparr>db_housing_options := updateRows P h (db_housing_options d)\<rparr>))"

definition repoBulkUpdateHousingGroupVisibility :: "env \<Rightarrow> ID \<Rightarrow> bool \<Rightarrow> ID \<Rightarrow> (go_error, HousingOption list) io" where
  "repoBulkUpdateHousingGroupVisibility e groupID visible actorID =
     bindP (getHousingGroupFamilyID e groupID) (\<lambda>familyID.
     bindP (assertFamilyWriter e actorID familyID) (\<lambda>_.
     bindP (query e (showGroup e groupID visible)) (\<lambda>rows. retP (map scanHousingRow rows))))"

definition repoUpdateHousingNotes :: "env \<Rightarrow> ID \<Rightarrow> string \<Rightarrow> ID \<Rightarrow> (go_error, string) io" where
  "repoUpdateHousingNotes e housingID notes actorID =
     (if blank housingID then throwP ErrInvalidArgument
      else case ValidateHousingNotes notes of Some err \<Rightarrow> throwP err
      | None \<Rightarrow> bindP (query e (updateOption e housingID actorID (\<lambda>r. True) (\<lambda>r. r\<lparr>ho_Notes := notes\<rparr>))) (\<lambda>row. retP (ho_Notes row)))"

end
