(* ===== verification/Family_Isolation.thy ===== *)
theory Family_Isolation
  imports Repo_Housing
begin

text \<open>
  Who can change what belongs to a family. A locale states the contract of a store shared by
  tenants, and proves once that a run of requests by users without write access to a tenant
  leaves the tenant's data alone; its interpretation goes through every writing operation of the
  people, housing and checklist repositories. The contract needs the referential integrity of the
  tables, in particular that an option's group belongs to the option's family, which
  \<open>UpdateHousingOption\<close> preserves only when the request names the option's own family.
\<close>

section \<open>The data of a family\<close>

record family_rows =
  fr_people :: "PersonProfile list"
  fr_history :: "history_row list"
  fr_groups :: "HousingGroup list"
  fr_options :: "HousingOption list"
  fr_criteria :: "criterion_row list"
  fr_answers :: "answer_row list"

definition familyRows :: "database \<Rightarrow> ID \<Rightarrow> family_rows" where
  "familyRows d f = \<lparr>fr_people = filter (\<lambda>p. pp_FamilyID p = f) (db_person_profiles d),
     fr_history = filter (\<lambda>h. hr_FamilyID h = f) (db_person_income_history d),
     fr_groups = filter (\<lambda>g. hg_FamilyID g = f) (db_housing_groups d),
     fr_options = filter (\<lambda>h. ho_FamilyID h = f) (db_housing_options d),
     fr_criteria = activeCriteria d f, fr_answers = filter (\<lambda>a. ar_FamilyID a = f) (db_answers d)\<rparr>"

definition mayWrite :: "env \<Rightarrow> database \<Rightarrow> ID \<Rightarrow> ID \<Rightarrow> bool" where
  "mayWrite e d f actor \<longleftrightarrow> (\<exists>u. uuid_in e actor = Some u \<and> isWriter d f u)"

text \<open>Primary keys, and the foreign keys with the families they stay inside.\<close>

abbreviation personKey :: "PersonProfile \<Rightarrow> ID \<times> ID" where "personKey p \<equiv> (pp_ID p, pp_FamilyID p)"
abbreviation historyKey :: "history_row \<Rightarrow> ID \<times> ID" where "historyKey h \<equiv> (hr_PersonID h, hr_FamilyID h)"
abbreviation optionKey :: "HousingOption \<Rightarrow> ID \<times> ID" where "optionKey h \<equiv> (ho_ID h, ho_FamilyID h)"
abbreviation answerOption :: "answer_row \<Rightarrow> ID \<times> ID" where "answerOption a \<equiv> (ha_HousingID (ar_Answer a), ar_FamilyID a)"
abbreviation groupKey :: "HousingGroup \<Rightarrow> ID \<times> ID" where "groupKey g \<equiv> (hg_ID g, hg_FamilyID g)"
abbreviation optionGroup :: "HousingOption \<Rightarrow> ID \<times> ID" where "optionGroup h \<equiv> (ho_GroupID h, ho_FamilyID h)"

text \<open>A table of rows with distinct ids that another table refers to.\<close>

definition refs_ok :: "(ID \<times> ID) list \<Rightarrow> (ID \<times> ID) list \<Rightarrow> bool" where
  "refs_ok keys refs \<longleftrightarrow> distinct (map fst keys) \<and> set refs \<subseteq> set keys"

definition people_ok :: "database \<Rightarrow> bool" where
  "people_ok d \<longleftrightarrow> refs_ok (map personKey (db_person_profiles d)) (map historyKey (db_person_income_history d))"

definition options_ok :: "database \<Rightarrow> bool" where
  "options_ok d \<longleftrightarrow> refs_ok (map optionKey (db_housing_options d)) (map answerOption (db_answers d))"

definition groups_ok :: "database \<Rightarrow> bool" where
  "groups_ok d \<longleftrightarrow> refs_ok (map groupKey (db_housing_groups d))
     (map optionGroup (filter (\<lambda>h. ho_GroupID h \<noteq> []) (db_housing_options d)))"

lemma refs_same_family:
  assumes "refs_ok keys refs" and "(i, f) \<in> set refs" and "(i, g) \<in> set keys"
  shows "g = f"
proof -
  have "(i, f) \<in> set keys" using assms(1,2) by (auto simp: refs_ok_def)
  moreover have "inj_on fst (set keys)" using assms(1) by (simp add: refs_ok_def distinct_map)
  ultimately show ?thesis using assms(3) by (metis fst_conv inj_onD prod.inject)
qed

lemma refs_ok_add:
  "refs_ok keys refs \<Longrightarrow> fst k \<notin> fst ` set keys \<Longrightarrow> set refs' \<subseteq> insert k (set refs) \<Longrightarrow> refs_ok (keys @ [k]) refs'"
  by (auto simp: refs_ok_def)

lemma refs_ok_subset: "refs_ok keys refs \<Longrightarrow> set refs' \<subseteq> set refs \<union> set keys \<Longrightarrow> refs_ok keys refs'"
  by (auto simp: refs_ok_def)

lemma refs_ok_filter:
  assumes "refs_ok (map key rows) refs" and "\<And>r. r \<in> set rows \<Longrightarrow> key r \<in> set refs' \<Longrightarrow> P r" and "set refs' \<subseteq> set refs"
  shows "refs_ok (map key (filter P rows)) refs'"
proof -
  have "distinct (map fst (map key (filter P rows)))"
    using assms(1) distinct_map_filter_rows [of "\<lambda>r. fst (key r)" rows P] by (simp add: refs_ok_def comp_def)
  moreover have "set refs' \<subseteq> key ` set (filter P rows)" using assms by (auto simp: refs_ok_def)
  ultimately show ?thesis by (simp add: refs_ok_def)
qed

text \<open>Texts the database reads as a uuid have no white space around them, no uuid is empty, and the text
  of a uuid reads back as itself.\<close>

definition ids_ok :: "env \<Rightarrow> bool" where
  "ids_ok e \<longleftrightarrow> uuid_ok e \<and> (\<forall>s u. uuid_in e s = Some u \<longrightarrow> trimSpace s = s \<and> u \<noteq> [] \<and> uuid_in e u = Some u)"

definition canonical :: "env \<Rightarrow> database \<Rightarrow> bool" where
  "canonical e d \<longleftrightarrow> (\<forall>g\<in>set (db_housing_groups d). uuid_in e (hg_FamilyID g) = Some (hg_FamilyID g))"

definition family_ok :: "env \<Rightarrow> database \<Rightarrow> bool" where
  "family_ok e d \<longleftrightarrow> ids_ok e \<and> canonical e d \<and> people_ok d \<and> options_ok d \<and> groups_ok d \<and> criteria_ok e d"

text \<open>What a step of \<open>actor\<close> may do to the tables.\<close>

definition confined :: "env \<Rightarrow> ID \<Rightarrow> database \<Rightarrow> database \<Rightarrow> bool" where
  "confined e actor d d' \<longleftrightarrow> (family_ok e d \<longrightarrow> family_ok e d' \<and> db_family_members d' = db_family_members d
     \<and> (\<forall>f. \<not> mayWrite e d f actor \<longrightarrow> familyRows d' f = familyRows d f))"

lemma mayWrite_members: "db_family_members d' = db_family_members d \<Longrightarrow> mayWrite e d' = mayWrite e d"
  by (simp add: mayWrite_def isWriter_def fun_eq_iff)

lemma confined_refl [simp]: "confined e actor d d"
  by (simp add: confined_def)

lemma confined_trans:
  assumes "confined e actor d d'" and "confined e actor d' d''"
  shows "confined e actor d d''"
  using assms mayWrite_members [of d' d e] unfolding confined_def by simp

lemma confined_frame: "frame_rel (confined e actor)"
  unfolding frame_rel_def by (auto intro: confined_trans)

text \<open>Under a check that \<open>actor\<close> may write to \<open>f\<close>.\<close>

definition confinedIn :: "env \<Rightarrow> ID \<Rightarrow> ID \<Rightarrow> database \<Rightarrow> database \<Rightarrow> bool" where
  "confinedIn e actor f d d' \<longleftrightarrow> (family_ok e d \<and> mayWrite e d f actor \<longrightarrow> confined e actor d d')"

lemma confinedIn_frame: "frame_rel (confinedIn e actor f)"
  unfolding frame_rel_def
proof (intro conjI allI impI)
  fix d d' d''
  assume a: "confinedIn e actor f d d'" "confinedIn e actor f d' d''"
  show "confinedIn e actor f d d''"
    unfolding confinedIn_def
  proof
    assume ok: "family_ok e d \<and> mayWrite e d f actor"
    with a(1) have c: "confined e actor d d'" by (simp add: confinedIn_def)
    with ok have "family_ok e d'" "mayWrite e d' f actor" using mayWrite_members [of d' d e] by (simp_all add: confined_def)
    with a(2) c show "confined e actor d d''" unfolding confinedIn_def by (blast intro: confined_trans)
  qed
qed (simp add: confinedIn_def)

lemma confined_In: "confined e actor d d' \<Longrightarrow> confinedIn e actor f d d'"
  by (simp add: confinedIn_def)

abbreviation stays :: "(database \<Rightarrow> database \<Rightarrow> bool) \<Rightarrow> (go_error, 'a) io \<Rightarrow> bool" where
  "stays R m \<equiv> preserves (\<lambda>w w'. R (wo_db w) (wo_db w')) m"

text \<open>Behind a check that leaves the tables alone, what it has checked may be assumed.\<close>

lemma stays_checked:
  assumes "db_kept m" and "\<And>w x w'. m w = (Inr x, w') \<Longrightarrow> Q x (wo_db w)" and "\<And>d. R d d"
    and "\<And>x. stays (\<lambda>d d'. Q x d \<longrightarrow> R d d') (k x)"
  shows "stays R (bindP m k)"
  unfolding preserves_def
proof
  fix w
  obtain r v where r: "m w = (r, v)" by fastforce
  from preservesD [OF assms(1) r] have v: "wo_db v = wo_db w" .
  show "R (wo_db w) (wo_db (snd (bindP m k w)))"
  proof (cases r)
    case (Inl err)
    then show ?thesis using assms(3) by (simp add: bindP_def r v)
  next
    case (Inr x)
    have "Q x (wo_db v) \<longrightarrow> R (wo_db v) (wo_db (snd (k x v)))" using assms(4) [of x] by (simp add: preserves_def)
    then show ?thesis using assms(2) [of w x v] by (simp add: bindP_def r Inr v)
  qed
qed

lemma stays_after:
  assumes "stays R m" and "\<And>x w. snd (k x w) = w"
  shows "stays R (bindP m k)"
  using assms unfolding preserves_def bindP_def by (auto split: prod.splits sum.splits) (metis snd_conv)+

lemma stays_query: "(\<And>d. R d d) \<Longrightarrow> (\<And>n d x d'. st n d = Inr (x, d') \<Longrightarrow> R d d') \<Longrightarrow> stays R (query e st)"
  by (rule preserves_query)

lemma stays_asserted:
  assumes "\<And>f. uuid_in e familyID = Some f \<Longrightarrow> stays (confinedIn e actor f) (k ())"
  shows "stays (confined e actor) (bindP (assertFamilyWriter e actor familyID) k)"
proof (rule stays_checked [where Q = "\<lambda>_ d. \<exists>f. uuid_in e familyID = Some f \<and> mayWrite e d f actor"])
  show "db_kept (assertFamilyWriter e actor familyID)" by (rule preserves_access) simp
  show "\<exists>f. uuid_in e familyID = Some f \<and> mayWrite e (wo_db w) f actor" if "assertFamilyWriter e actor familyID w = (Inr x, w')" for w x w'
    using that by (cases x) (auto simp: mayWrite_def elim: assertFamilyWriter_Inr)
  show "stays (\<lambda>d d'. (\<exists>f. uuid_in e familyID = Some f \<and> mayWrite e d f actor) \<longrightarrow> confined e actor d d') (k x)" for x :: unit
    using assms unfolding preserves_def confinedIn_def by (cases x) (auto simp: confined_def)
qed simp

lemma filter_first: "filter P xs = y # ys \<Longrightarrow> y \<in> set xs \<and> P y"
proof -
  assume "filter P xs = y # ys"
  then have "y \<in> set (filter P xs)" by simp
  then show ?thesis by simp
qed

section \<open>People\<close>

lemma confined_people:
  assumes "d' = d\<lparr>db_person_profiles := ps, db_person_income_history := hs\<rparr>"
    and "people_ok d \<Longrightarrow> refs_ok (map personKey ps) (map historyKey hs)"
    and "\<And>f. people_ok d \<Longrightarrow> \<not> mayWrite e d f actor \<Longrightarrow> filter (\<lambda>p. pp_FamilyID p = f) ps = filter (\<lambda>p. pp_FamilyID p = f) (db_person_profiles d)"
    and "\<And>f. people_ok d \<Longrightarrow> \<not> mayWrite e d f actor \<Longrightarrow> filter (\<lambda>h. hr_FamilyID h = f) hs = filter (\<lambda>h. hr_FamilyID h = f) (db_person_income_history d)"
  shows "confined e actor d d'"
  unfolding confined_def
proof
  assume ok: "family_ok e d"
  then have p: "people_ok d" by (simp add: family_ok_def)
  from ok assms(2) [OF p] have "family_ok e d'"
    by (simp add: assms(1) family_ok_def people_ok_def options_ok_def groups_ok_def criteria_ok_def canonical_def)
  then show "family_ok e d' \<and> db_family_members d' = db_family_members d
      \<and> (\<forall>f. \<not> mayWrite e d f actor \<longrightarrow> familyRows d' f = familyRows d f)"
    using assms(3,4) [OF p] by (simp add: familyRows_def activeCriteria_def assms(1))
qed

lemma personConstraints_Inr:
  "personConstraints d others p = Inr u \<Longrightarrow> pp_ID p \<notin> pp_ID ` set others"
  by (auto simp: personConstraints_def bindS_Inr list_ex_iff)

lemma insertPerson_Inr:
  assumes "insertPerson e history linked profile n d = Inr (row, d')"
  shows "uuid_in e (pp_FamilyID profile) = Some (pp_FamilyID row)" and "pp_ID row \<notin> pp_ID ` set (db_person_profiles d)"
    and "d' = d\<lparr>db_person_profiles := db_person_profiles d @ [row],
                db_person_income_history := db_person_income_history d @ (if history then [historyOf row] else [])\<rparr>"
proof -
  from assms obtain f l p where "castUUID e (pp_FamilyID profile) = Inr f" "castUUIDOpt e linked = Inr l" "castProfile profile = Inr p"
    and row: "row = p\<lparr>pp_ID := uuid_at e n, pp_FamilyID := f, pp_LinkedUserID := l, pp_CreatedAt := dbNow e n, pp_UpdatedAt := dbNow e n\<rparr>"
    and con: "personConstraints d (db_person_profiles d) row = Inr ()"
    and d': "d' = d\<lparr>db_person_profiles := db_person_profiles d @ [row],
                db_person_income_history := db_person_income_history d @ (if history then [historyOf row] else [])\<rparr>"
    unfolding insertPerson_def Let_def bindS_Inr by auto
  then show "uuid_in e (pp_FamilyID profile) = Some (pp_FamilyID row)" by (simp add: castUUID_Inr)
  from con show "pp_ID row \<notin> pp_ID ` set (db_person_profiles d)" by (rule personConstraints_Inr)
  from d' show "d' = d\<lparr>db_person_profiles := db_person_profiles d @ [row],
                db_person_income_history := db_person_income_history d @ (if history then [historyOf row] else [])\<rparr>" .
qed

lemma historyOf_simps [simp]: "hr_PersonID (historyOf p) = pp_ID p" "hr_FamilyID (historyOf p) = pp_FamilyID p"
  by (simp_all add: historyOf_def)

lemma insertPerson_confined:
  assumes "insertPerson e history linked profile n d = Inr (row, d')" and "uuid_in e (pp_FamilyID profile) = Some f"
  shows "confinedIn e actor f d d'"
proof -
  note ins = insertPerson_Inr [OF assms(1)]
  have f: "pp_FamilyID row = f" using ins(1) assms(2) by simp
  have new: "fst (personKey row) \<notin> fst ` set (map personKey (db_person_profiles d))" using ins(2) by (simp add: image_image)
  show ?thesis unfolding confinedIn_def
  proof (intro impI confined_people [OF ins(3)])
    assume ok: "people_ok d"
    show "refs_ok (map personKey (db_person_profiles d @ [row]))
        (map historyKey (db_person_income_history d @ (if history then [historyOf row] else [])))"
      unfolding map_append list.map by (rule refs_ok_add [OF ok [unfolded people_ok_def] new]) auto
  next
    fix g
    assume "family_ok e d \<and> mayWrite e d f actor" "\<not> mayWrite e d g actor"
    then have "g \<noteq> f" by auto
    then show "filter (\<lambda>p. pp_FamilyID p = g) (db_person_profiles d @ [row]) = filter (\<lambda>p. pp_FamilyID p = g) (db_person_profiles d)"
      "filter (\<lambda>h. hr_FamilyID h = g) (db_person_income_history d @ (if history then [historyOf row] else []))
       = filter (\<lambda>h. hr_FamilyID h = g) (db_person_income_history d)"
      using f by simp_all
  qed
qed

lemma updatePerson_Inr:
  assumes "updatePerson e history linked profile actor n d = Inr (row, d')"
  obtains i u old where "uuid_in e actor = Some u" "old \<in> set (db_person_profiles d)" "pp_ID old = i" "isWriter d (pp_FamilyID old) u"
    "pp_ID row = i" "pp_FamilyID row = pp_FamilyID old"
    "d' = d\<lparr>db_person_profiles := updateRows (\<lambda>q. pp_ID q = i \<and> isWriter d (pp_FamilyID q) u) (\<lambda>q. row) (db_person_profiles d),
            db_person_income_history := db_person_income_history d @ (if history then [historyOf row] else [])\<rparr>"
proof -
  from assms obtain i u l p old rest where "castUUID e actor = Inr u"
    and old: "filter (\<lambda>q. pp_ID q = i \<and> isWriter d (pp_FamilyID q) u) (db_person_profiles d) = old # rest"
    and row: "row = p\<lparr>pp_ID := pp_ID old, pp_FamilyID := pp_FamilyID old, pp_LinkedUserID := (if l = [] then pp_LinkedUserID old else l),
                 pp_CreatedAt := pp_CreatedAt old, pp_UpdatedAt := dbNow e n\<rparr>"
    and d': "d' = d\<lparr>db_person_profiles := updateRows (\<lambda>q. pp_ID q = i \<and> isWriter d (pp_FamilyID q) u) (\<lambda>q. row) (db_person_profiles d),
            db_person_income_history := db_person_income_history d @ (if history then [historyOf row] else [])\<rparr>"
    unfolding updatePerson_def Let_def bindS_Inr firstRow_Inr by auto
  from filter_first [OF old] have "old \<in> set (db_person_profiles d)" "pp_ID old = i" "isWriter d (pp_FamilyID old) u" by simp_all
  moreover have "pp_ID row = pp_ID old" "pp_FamilyID row = pp_FamilyID old" by (simp_all add: row)
  ultimately show thesis using \<open>castUUID e actor = Inr u\<close> d' by (intro that [of u old i]) (simp_all only: castUUID_Inr)
qed

lemma updatePerson_confined:
  assumes "updatePerson e history linked profile actor n d = Inr (row, d')"
  shows "confined e actor d d'"
  using assms
proof (rule updatePerson_Inr)
  fix i u old
  assume u: "uuid_in e actor = Some u" and old: "old \<in> set (db_person_profiles d)" "pp_ID old = i" "isWriter d (pp_FamilyID old) u"
    and row: "pp_ID row = i" "pp_FamilyID row = pp_FamilyID old"
    and d': "d' = d\<lparr>db_person_profiles := updateRows (\<lambda>q. pp_ID q = i \<and> isWriter d (pp_FamilyID q) u) (\<lambda>q. row) (db_person_profiles d),
            db_person_income_history := db_person_income_history d @ (if history then [historyOf row] else [])\<rparr>"
  let ?P = "\<lambda>q. pp_ID q = i \<and> isWriter d (pp_FamilyID q) u"
  let ?ps = "updateRows ?P (\<lambda>q. row) (db_person_profiles d)"
  show ?thesis
  proof (rule confined_people [OF d'])
    assume ok: "people_ok d"
    have only: "pp_FamilyID q = pp_FamilyID old" if "?P q" "q \<in> set (db_person_profiles d)" for q
    proof -
      have "inj_on pp_ID (set (db_person_profiles d))" using ok by (simp add: people_ok_def refs_ok_def distinct_map comp_def inj_on_def)
      then show ?thesis using that old(1,2) by (metis inj_onD)
    qed
    have keys: "map personKey ?ps = map personKey (db_person_profiles d)" unfolding updateRows_def by (auto simp: row only)
    have "personKey row \<in> set (map personKey (db_person_profiles d))" using old(1,2) row by force
    then show "refs_ok (map personKey ?ps) (map historyKey (db_person_income_history d @ (if history then [historyOf row] else [])))"
      unfolding keys by (intro refs_ok_subset [OF ok [unfolded people_ok_def]]) auto
  next
    fix f
    assume "\<not> mayWrite e d f actor"
    then have "\<not> isWriter d f u" using u by (simp add: mayWrite_def)
    then show "filter (\<lambda>p. pp_FamilyID p = f) ?ps = filter (\<lambda>p. pp_FamilyID p = f) (db_person_profiles d)"
        "filter (\<lambda>h. hr_FamilyID h = f) (db_person_income_history d @ (if history then [historyOf row] else []))
        = filter (\<lambda>h. hr_FamilyID h = f) (db_person_income_history d)"
      using old(3) row(2) by (intro filter_updateRows, auto)
  qed
qed

lemma deletePerson_confined:
  assumes "deletePerson e personID actor n d = Inr (k, d')"
  shows "confined e actor d d'"
proof -
  from assms obtain i u where u: "uuid_in e actor = Some u"
    and d': "d' = d\<lparr>db_person_profiles := filter (\<lambda>p. \<not> (pp_ID p = i \<and> isWriter d (pp_FamilyID p) u)) (db_person_profiles d),
            db_person_income_history := filter (\<lambda>h. hr_PersonID h \<notin> pp_ID ` set (filter (\<lambda>p. pp_ID p = i \<and> isWriter d (pp_FamilyID p) u)
              (db_person_profiles d))) (db_person_income_history d)\<rparr>"
    unfolding deletePerson_def Let_def bindS_Inr castUUID_Inr by auto
  let ?P = "\<lambda>p. pp_ID p = i \<and> isWriter d (pp_FamilyID p) u" and ?hs = "db_person_income_history d"
  show ?thesis
  proof (rule confined_people [OF d'])
    assume ok: "people_ok d"
    show "refs_ok (map personKey (filter (\<lambda>p. \<not> ?P p) (db_person_profiles d)))
        (map historyKey (filter (\<lambda>h. hr_PersonID h \<notin> pp_ID ` set (filter ?P (db_person_profiles d))) ?hs))"
      by (rule refs_ok_filter [OF ok [unfolded people_ok_def]]) auto
  next
    fix f
    assume ok: "people_ok d" and "\<not> mayWrite e d f actor"
    then have nw: "\<not> isWriter d f u" using u by (simp add: mayWrite_def)
    have hs: "hr_PersonID h \<notin> pp_ID ` set (filter ?P (db_person_profiles d))" if h: "h \<in> set ?hs" "hr_FamilyID h = f" for h
    proof
      assume "hr_PersonID h \<in> pp_ID ` set (filter ?P (db_person_profiles d))"
      then obtain q where q: "q \<in> set (db_person_profiles d)" "pp_ID q = hr_PersonID h" "isWriter d (pp_FamilyID q) u" by auto
      have "pp_FamilyID q = f"
        by (rule refs_same_family [OF ok [unfolded people_ok_def], of "hr_PersonID h"]) (use q h in force)+
      with q(3) nw show False by simp
    qed
    show "filter (\<lambda>p. pp_FamilyID p = f) (filter (\<lambda>p. \<not> ?P p) (db_person_profiles d)) = filter (\<lambda>p. pp_FamilyID p = f) (db_person_profiles d)"
      unfolding filter_filter by (rule filter_cong) (use nw in auto)
    show "filter (\<lambda>h. hr_FamilyID h = f) (filter (\<lambda>h. hr_PersonID h \<notin> pp_ID ` set (filter ?P (db_person_profiles d))) ?hs) = filter (\<lambda>h. hr_FamilyID h = f) ?hs"
      unfolding filter_filter by (rule filter_cong) (use hs in auto)
  qed
qed

section \<open>Options and groups\<close>

lemma confined_options:
  assumes "d' = d\<lparr>db_housing_options := hs, db_housing_groups := gs, db_answers := as\<rparr>"
    and "options_ok d \<Longrightarrow> groups_ok d \<Longrightarrow> refs_ok (map optionKey hs) (map answerOption as)"
    and "options_ok d \<Longrightarrow> groups_ok d \<Longrightarrow> refs_ok (map groupKey gs) (map optionGroup (filter (\<lambda>h. ho_GroupID h \<noteq> []) hs))"
    and "\<And>f. options_ok d \<Longrightarrow> groups_ok d \<Longrightarrow> \<not> mayWrite e d f actor \<Longrightarrow> filter (\<lambda>h. ho_FamilyID h = f) hs = filter (\<lambda>h. ho_FamilyID h = f) (db_housing_options d)"
    and "\<And>f. options_ok d \<Longrightarrow> groups_ok d \<Longrightarrow> \<not> mayWrite e d f actor \<Longrightarrow> filter (\<lambda>g. hg_FamilyID g = f) gs = filter (\<lambda>g. hg_FamilyID g = f) (db_housing_groups d)"
    and "\<And>f. options_ok d \<Longrightarrow> groups_ok d \<Longrightarrow> \<not> mayWrite e d f actor \<Longrightarrow> filter (\<lambda>a. ar_FamilyID a = f) as = filter (\<lambda>a. ar_FamilyID a = f) (db_answers d)"
    and "hg_FamilyID ` set gs \<subseteq> hg_FamilyID ` set (db_housing_groups d) \<union> {f. uuid_in e f = Some f}"
  shows "confined e actor d d'"
  unfolding confined_def
proof
  assume ok: "family_ok e d"
  then have o: "options_ok d" "groups_ok d" by (simp_all add: family_ok_def)
  have "canonical e d'" using ok assms(7) by (auto simp: family_ok_def canonical_def assms(1))
  with ok assms(2,3) [OF o] have "family_ok e d'"
    by (simp add: family_ok_def people_ok_def options_ok_def groups_ok_def criteria_ok_def assms(1))
  then show "family_ok e d' \<and> db_family_members d' = db_family_members d
      \<and> (\<forall>f. \<not> mayWrite e d f actor \<longrightarrow> familyRows d' f = familyRows d f)"
    using assms(4-6) [OF o] by (simp add: familyRows_def activeCriteria_def assms(1))
qed

lemma unchanged_fields:
  "d\<lparr>db_housing_options := hs\<rparr> = d\<lparr>db_housing_options := hs, db_housing_groups := db_housing_groups d, db_answers := db_answers d\<rparr>"
  "d\<lparr>db_housing_groups := gs\<rparr> = d\<lparr>db_housing_options := db_housing_options d, db_housing_groups := gs, db_answers := db_answers d\<rparr>"
  "d\<lparr>db_answers := as\<rparr> = d\<lparr>db_housing_options := db_housing_options d, db_housing_groups := db_housing_groups d, db_answers := as\<rparr>"
  by simp_all

lemma insertOption_Inr:
  assumes "insertOption e opt n d = Inr (row, d')"
  shows "uuid_in e (ho_FamilyID opt) = Some (ho_FamilyID row)" and "castUUIDOpt e (ho_GroupID opt) = Inr (ho_GroupID row)"
    and "ho_ID row \<notin> ho_ID ` set (db_housing_options d)" and "groupExists d (ho_GroupID row)"
    and "d' = d\<lparr>db_housing_options := db_housing_options d @ [row]\<rparr>"
proof -
  from assms obtain f h where f: "castUUID e (ho_FamilyID opt) = Inr f" and h: "castHousing e opt = Inr h"
    and row: "row = h\<lparr>ho_ID := uuid_at e n, ho_FamilyID := f, ho_CreatedAt := dbNow e n, ho_UpdatedAt := dbNow e n\<rparr>"
    and con: "optionConstraints d row = Inr ()" and new: "ho_ID row \<notin> ho_ID ` set (db_housing_options d)"
    and d': "d' = d\<lparr>db_housing_options := db_housing_options d @ [row]\<rparr>"
    unfolding insertOption_def Let_def bindS_Inr by auto
  show "uuid_in e (ho_FamilyID opt) = Some (ho_FamilyID row)" using f by (simp add: castUUID_Inr row)
  have "castUUIDOpt e (ho_GroupID opt) = Inr (ho_GroupID h)" using h by (auto simp: castHousing_def bindS_Inr)
  then show "castUUIDOpt e (ho_GroupID opt) = Inr (ho_GroupID row)" by (simp add: row)
  show "groupExists d (ho_GroupID row)" using con by (simp add: optionConstraints_def bindS_Inr)
  show "ho_ID row \<notin> ho_ID ` set (db_housing_options d)" "d' = d\<lparr>db_housing_options := db_housing_options d @ [row]\<rparr>"
    by (rule new, rule d')
qed

text \<open>A group that \<open>validateHousingGroupAssignment\<close> has accepted.\<close>

definition groupOf :: "env \<Rightarrow> database \<Rightarrow> ID \<Rightarrow> ID \<Rightarrow> bool" where
  "groupOf e d f groupID \<longleftrightarrow> trimSpace groupID = [] \<or>
     (\<exists>g. uuid_in e (trimSpace groupID) = Some g \<and> (\<exists>r\<in>set (db_housing_groups d). hg_ID r = g \<and> hg_FamilyID r = f))"

lemma validateGroup:
  shows "db_kept (validateHousingGroupAssignment e familyID groupID)"
    and "validateHousingGroupAssignment e familyID groupID w = (Inr x, w') \<Longrightarrow> uuid_in e familyID = Some f \<Longrightarrow> groupOf e (wo_db w) f groupID"
proof -
  show "db_kept (validateHousingGroupAssignment e familyID groupID)"
    unfolding validateHousingGroupAssignment_def Let_def
    by (intro preserve_rules frame_rel_eq db_kept_query_read) (auto simp: bindS_Inr)
  show "groupOf e (wo_db w) f groupID" if "validateHousingGroupAssignment e familyID groupID w = (Inr x, w')" "uuid_in e familyID = Some f"
    using that by (auto simp: validateHousingGroupAssignment_def Let_def groupOf_def bindS_Inr castUUID_Inr list_ex_iff split: if_splits
        elim!: bindP_InrE query_Inr)
qed

text \<open>The group id of the request is stored as it was checked.\<close>

lemma groupOf_stored:
  assumes "ids_ok e" and "groupOf e d f groupID" and "castUUIDOpt e groupID = Inr g" and "g \<noteq> []"
  shows "\<exists>r\<in>set (db_housing_groups d). hg_ID r = g \<and> hg_FamilyID r = f"
proof -
  have "groupID \<noteq> []" and g: "uuid_in e groupID = Some g" using assms(3,4) by (auto simp: castUUIDOpt_def castUUID_Inr split: if_splits)
  then have "trimSpace groupID = groupID" using assms(1) by (simp add: ids_ok_def)
  with assms(2) g \<open>groupID \<noteq> []\<close> show ?thesis by (auto simp: groupOf_def)
qed

lemma insertOption_confined:
  assumes "insertOption e opt n d = Inr (row, d')" and f: "uuid_in e (ho_FamilyID opt) = Some f"
    and "ids_ok e" and "groupOf e d f (ho_GroupID opt)" and "mayWrite e d f actor"
  shows "confined e actor d d'"
proof -
  note ins = insertOption_Inr [OF assms(1)]
  have row: "ho_FamilyID row = f" using ins(1) f by simp
  show ?thesis
  proof (rule confined_options [OF trans [OF ins(5) unchanged_fields(1)]])
    assume ok: "options_ok d" "groups_ok d"
    have new: "fst (optionKey row) \<notin> fst ` set (map optionKey (db_housing_options d))" using ins(3) by (simp add: image_image)
    show "refs_ok (map optionKey (db_housing_options d @ [row])) (map answerOption (db_answers d))"
      unfolding map_append list.map by (rule refs_ok_add [OF ok(1) [unfolded options_ok_def] new]) auto
    have "optionGroup row \<in> set (map groupKey (db_housing_groups d))" if "ho_GroupID row \<noteq> []"
      using groupOf_stored [OF assms(3,4) ins(2) that] row by force
    then show "refs_ok (map groupKey (db_housing_groups d)) (map optionGroup (filter (\<lambda>h. ho_GroupID h \<noteq> []) (db_housing_options d @ [row])))"
      by (intro refs_ok_subset [OF ok(2) [unfolded groups_ok_def]]) (auto split: if_splits)
  next
    fix g
    assume "\<not> mayWrite e d g actor"
    then have "g \<noteq> f" using assms(5) by auto
    then show "filter (\<lambda>h. ho_FamilyID h = g) (db_housing_options d @ [row]) = filter (\<lambda>h. ho_FamilyID h = g) (db_housing_options d)"
      using row by simp
  qed (rule refl | simp)+
qed

lemma groups_updated:
  assumes ok: "groups_ok d" and "\<And>r. r \<in> set (db_housing_options d) \<Longrightarrow> P r \<Longrightarrow> ho_FamilyID (g r) = ho_FamilyID r \<and>
      (ho_GroupID (g r) \<in> {[], ho_GroupID r} \<or> (ho_GroupID (g r), ho_FamilyID r) \<in> groupKey ` set (db_housing_groups d))"
  shows "refs_ok (map groupKey (db_housing_groups d)) (map optionGroup (filter (\<lambda>h. ho_GroupID h \<noteq> []) (updateRows P g (db_housing_options d))))"
proof (rule refs_ok_subset [OF ok [unfolded groups_ok_def]], rule subsetI)
  fix k
  assume "k \<in> set (map optionGroup (filter (\<lambda>h. ho_GroupID h \<noteq> []) (updateRows P g (db_housing_options d))))"
  then obtain r where r: "r \<in> set (db_housing_options d)" and k: "k = optionGroup (if P r then g r else r)" "ho_GroupID (if P r then g r else r) \<noteq> []"
    by (auto simp: updateRows_def)
  show "k \<in> set (map optionGroup (filter (\<lambda>h. ho_GroupID h \<noteq> []) (db_housing_options d))) \<union> set (map groupKey (db_housing_groups d))"
    using assms(2) [OF r] k r by (cases "P r") auto
qed

lemma updateOption_confined:
  assumes "updateOption e housingID actor ok f n d = Inr (row, d')"
    and keys: "\<And>r. ho_ID (f r) = ho_ID r \<and> ho_FamilyID (f r) = ho_FamilyID r"
    and group: "\<And>h r. uuid_in e housingID = Some h \<Longrightarrow> r \<in> set (db_housing_options d) \<Longrightarrow> ho_ID r = h \<Longrightarrow> ok r \<Longrightarrow>
      ho_GroupID (f r) \<in> {[], ho_GroupID r} \<or> (ho_GroupID (f r), ho_FamilyID r) \<in> groupKey ` set (db_housing_groups d)"
  shows "confined e actor d d'"
proof -
  from assms(1) obtain h u where h: "uuid_in e housingID = Some h" and u: "uuid_in e actor = Some u"
    and d': "d' = d\<lparr>db_housing_options := updateRows (\<lambda>r. ho_ID r = h \<and> isWriter d (ho_FamilyID r) u \<and> ok r)
        (\<lambda>r. (f r)\<lparr>ho_UpdatedAt := dbNow e n\<rparr>) (db_housing_options d)\<rparr>"
    unfolding updateOption_def Let_def bindS_Inr castUUID_Inr by auto
  let ?P = "\<lambda>r. ho_ID r = h \<and> isWriter d (ho_FamilyID r) u \<and> ok r" and ?g = "\<lambda>r. (f r)\<lparr>ho_UpdatedAt := dbNow e n\<rparr>"
  have k: "map optionKey (updateRows ?P ?g (db_housing_options d)) = map optionKey (db_housing_options d)"
    by (rule map_updateRows) (simp add: keys)
  show ?thesis
  proof (rule confined_options [OF trans [OF d' unchanged_fields(1)]])
    assume ok: "options_ok d" "groups_ok d"
    from ok(1) show "refs_ok (map optionKey (updateRows ?P ?g (db_housing_options d))) (map answerOption (db_answers d))"
      unfolding k by (simp add: options_ok_def)
    show "refs_ok (map groupKey (db_housing_groups d)) (map optionGroup (filter (\<lambda>h. ho_GroupID h \<noteq> []) (updateRows ?P ?g (db_housing_options d))))"
      using keys group [OF h] by (intro groups_updated [OF ok(2)]) simp
  next
    fix x
    assume "\<not> mayWrite e d x actor"
    then have "\<not> isWriter d x u" using u by (simp add: mayWrite_def)
    then show "filter (\<lambda>h. ho_FamilyID h = x) (updateRows ?P ?g (db_housing_options d)) = filter (\<lambda>h. ho_FamilyID h = x) (db_housing_options d)"
      using keys by (intro filter_updateRows) auto
  qed (rule refl | simp)+
qed

lemma deleteOption_confined:
  assumes "deleteOption e housingID actor n d = Inr (k, d')"
  shows "confined e actor d d'"
proof -
  from assms obtain h u where u: "uuid_in e actor = Some u"
    and d': "d' = d\<lparr>db_housing_options := filter (\<lambda>r. \<not> (ho_ID r = h \<and> isWriter d (ho_FamilyID r) u)) (db_housing_options d),
       db_answers := filter (\<lambda>a. ha_HousingID (ar_Answer a) \<notin> ho_ID ` set (filter (\<lambda>r. ho_ID r = h \<and> isWriter d (ho_FamilyID r) u)
         (db_housing_options d))) (db_answers d)\<rparr>"
    unfolding deleteOption_def Let_def bindS_Inr castUUID_Inr by auto
  let ?P = "\<lambda>r. ho_ID r = h \<and> isWriter d (ho_FamilyID r) u"
  let ?hs = "filter (\<lambda>r. \<not> ?P r) (db_housing_options d)"
  let ?as = "filter (\<lambda>a. ha_HousingID (ar_Answer a) \<notin> ho_ID ` set (filter ?P (db_housing_options d))) (db_answers d)"
  have d'': "d' = d\<lparr>db_housing_options := ?hs, db_housing_groups := db_housing_groups d, db_answers := ?as\<rparr>" by (simp add: d')
  show ?thesis
  proof (rule confined_options [OF d''])
    assume ok: "options_ok d" "groups_ok d"
    show "refs_ok (map optionKey ?hs) (map answerOption ?as)"
      by (rule refs_ok_filter [OF ok(1) [unfolded options_ok_def]]) auto
    show "refs_ok (map groupKey (db_housing_groups d)) (map optionGroup (filter (\<lambda>h. ho_GroupID h \<noteq> []) ?hs))"
      by (rule refs_ok_subset [OF ok(2) [unfolded groups_ok_def]]) auto
  next
    fix f
    assume ok: "options_ok d" and "\<not> mayWrite e d f actor"
    then have nw: "\<not> isWriter d f u" using u by (simp add: mayWrite_def)
    show "filter (\<lambda>h. ho_FamilyID h = f) ?hs = filter (\<lambda>h. ho_FamilyID h = f) (db_housing_options d)"
      unfolding filter_filter by (rule filter_cong) (use nw in auto)
    have "ha_HousingID (ar_Answer a) \<notin> ho_ID ` set (filter ?P (db_housing_options d))" if a: "a \<in> set (db_answers d)" "ar_FamilyID a = f" for a
    proof
      assume "ha_HousingID (ar_Answer a) \<in> ho_ID ` set (filter ?P (db_housing_options d))"
      then obtain q where q: "q \<in> set (db_housing_options d)" "ho_ID q = ha_HousingID (ar_Answer a)" "isWriter d (ho_FamilyID q) u" by auto
      have "ho_FamilyID q = f"
        by (rule refs_same_family [OF ok [unfolded options_ok_def], of "ha_HousingID (ar_Answer a)"]) (use q a in force)+
      with q(3) nw show False by simp
    qed
    then show "filter (\<lambda>a. ar_FamilyID a = f) ?as = filter (\<lambda>a. ar_FamilyID a = f) (db_answers d)"
      unfolding filter_filter by (intro filter_cong) auto
  qed (rule refl | simp)+
qed

lemma insertGroup_confined:
  assumes "insertGroup e g n d = Inr (row, d')" and "uuid_in e (hg_FamilyID g) = Some f" and "ids_ok e"
  shows "confinedIn e actor f d d'"
proof -
  from assms have f: "hg_FamilyID row = f" and id: "hg_ID row \<notin> hg_ID ` set (db_housing_groups d)"
    and d': "d' = d\<lparr>db_housing_groups := db_housing_groups d @ [row]\<rparr>"
    unfolding insertGroup_def Let_def bindS_Inr castUUID_Inr by auto
  have new: "fst (groupKey row) \<notin> fst ` set (map groupKey (db_housing_groups d))" using id by (simp add: image_image)
  show ?thesis unfolding confinedIn_def
  proof (rule impI, rule confined_options [OF trans [OF d' unchanged_fields(2)]])
    assume ok: "options_ok d" "groups_ok d"
    from ok(1) show "refs_ok (map optionKey (db_housing_options d)) (map answerOption (db_answers d))" by (simp add: options_ok_def)
    show "refs_ok (map groupKey (db_housing_groups d @ [row])) (map optionGroup (filter (\<lambda>h. ho_GroupID h \<noteq> []) (db_housing_options d)))"
      unfolding map_append list.map by (rule refs_ok_add [OF ok(2) [unfolded groups_ok_def] new]) auto
  next
    fix x
    assume "family_ok e d \<and> mayWrite e d f actor" "\<not> mayWrite e d x actor"
    then have "x \<noteq> f" by auto
    then show "filter (\<lambda>g. hg_FamilyID g = x) (db_housing_groups d @ [row]) = filter (\<lambda>g. hg_FamilyID g = x) (db_housing_groups d)" using f by simp
  next
    have "uuid_in e f = Some f" using assms(2,3) by (simp add: ids_ok_def)
    then show "hg_FamilyID ` set (db_housing_groups d @ [row]) \<subseteq> hg_FamilyID ` set (db_housing_groups d) \<union> {f. uuid_in e f = Some f}"
      using f by auto
  qed (rule refl)+
qed

lemma updateGroup_confined:
  assumes "updateGroup e g actor n d = Inr (row, d')"
  shows "confined e actor d d'"
proof -
  from assms obtain i u where u: "uuid_in e actor = Some u"
    and d': "d' = d\<lparr>db_housing_groups := updateRows (\<lambda>r. hg_ID r = i \<and> isWriter d (hg_FamilyID r) u)
       (\<lambda>r. r\<lparr>hg_Name := hg_Name g, hg_UpdatedAt := dbNow e n\<rparr>) (db_housing_groups d)\<rparr>"
    unfolding updateGroup_def Let_def bindS_Inr castUUID_Inr by auto
  let ?gs = "updateRows (\<lambda>r. hg_ID r = i \<and> isWriter d (hg_FamilyID r) u) (\<lambda>r. r\<lparr>hg_Name := hg_Name g, hg_UpdatedAt := dbNow e n\<rparr>) (db_housing_groups d)"
  have k: "map groupKey ?gs = map groupKey (db_housing_groups d)" by (rule map_updateRows) simp
  show ?thesis
  proof (rule confined_options [OF trans [OF d' unchanged_fields(2)]])
    assume ok: "options_ok d" "groups_ok d"
    from ok show "refs_ok (map optionKey (db_housing_options d)) (map answerOption (db_answers d))"
      "refs_ok (map groupKey ?gs) (map optionGroup (filter (\<lambda>h. ho_GroupID h \<noteq> []) (db_housing_options d)))"
      unfolding k by (simp_all add: options_ok_def groups_ok_def)
  next
    fix x
    assume "\<not> mayWrite e d x actor"
    then have "\<not> isWriter d x u" using u by (simp add: mayWrite_def)
    then show "filter (\<lambda>g. hg_FamilyID g = x) ?gs = filter (\<lambda>g. hg_FamilyID g = x) (db_housing_groups d)"
      by (intro filter_updateRows) auto
  next
    have "map hg_FamilyID ?gs = map hg_FamilyID (db_housing_groups d)" by (rule map_updateRows) simp
    then have "hg_FamilyID ` set ?gs = hg_FamilyID ` set (db_housing_groups d)" by (metis list.set_map)
    then show "hg_FamilyID ` set ?gs \<subseteq> hg_FamilyID ` set (db_housing_groups d) \<union> {f. uuid_in e f = Some f}" by simp
  qed (rule refl)+
qed

text \<open>Statements on a whole group run only after its family has been looked up and checked.\<close>

definition groupWriter :: "env \<Rightarrow> database \<Rightarrow> ID \<Rightarrow> ID \<Rightarrow> bool" where
  "groupWriter e d groupID actor \<longleftrightarrow> (\<exists>g r. uuid_in e groupID = Some g \<and> r \<in> set (db_housing_groups d) \<and> hg_ID r = g
     \<and> mayWrite e d (hg_FamilyID r) actor)"

lemma group_options_writable:
  assumes ok: "groups_ok d" and "groupWriter e d groupID actor" and g: "uuid_in e groupID = Some g" "g \<noteq> []"
    and h: "h \<in> set (db_housing_options d)" "ho_GroupID h = g"
  shows "mayWrite e d (ho_FamilyID h) actor"
proof -
  from assms(2) g obtain r where r: "r \<in> set (db_housing_groups d)" "hg_ID r = g" "mayWrite e d (hg_FamilyID r) actor"
    by (auto simp: groupWriter_def)
  have "hg_FamilyID r = ho_FamilyID h"
    by (rule refs_same_family [OF ok [unfolded groups_ok_def], of g]) (use g h r in force)+
  with r(3) show ?thesis by simp
qed

lemma deleteGroup_confined:
  assumes "deleteGroup e groupID n d = Inr (k, d')" and "ids_ok e" and gw: "groupWriter e d groupID actor"
  shows "confined e actor d d'"
proof -
  from assms(1) obtain g where g: "uuid_in e groupID = Some g"
    and d': "d' = d\<lparr>db_housing_groups := filter (\<lambda>r. hg_ID r \<noteq> g) (db_housing_groups d),
            db_housing_options := updateRows (\<lambda>r. ho_GroupID r = g) (\<lambda>r. r\<lparr>ho_GroupID := []\<rparr>) (db_housing_options d)\<rparr>"
    unfolding deleteGroup_def bindS_Inr castUUID_Inr by auto
  have ne: "g \<noteq> []" using g assms(2) by (simp add: ids_ok_def)
  let ?hs = "updateRows (\<lambda>r. ho_GroupID r = g) (\<lambda>r. r\<lparr>ho_GroupID := []\<rparr>) (db_housing_options d)"
  let ?gs = "filter (\<lambda>r. hg_ID r \<noteq> g) (db_housing_groups d)"
  have d'': "d' = d\<lparr>db_housing_options := ?hs, db_housing_groups := ?gs, db_answers := db_answers d\<rparr>" by (simp add: d')
  have k: "map optionKey ?hs = map optionKey (db_housing_options d)" by (rule map_updateRows) simp
  show ?thesis
  proof (rule confined_options [OF d''])
    assume ok: "options_ok d" "groups_ok d"
    from ok(1) show "refs_ok (map optionKey ?hs) (map answerOption (db_answers d))" unfolding k by (simp add: options_ok_def)
    show "refs_ok (map groupKey ?gs) (map optionGroup (filter (\<lambda>h. ho_GroupID h \<noteq> []) ?hs))"
      by (rule refs_ok_filter [OF ok(2) [unfolded groups_ok_def]]) (auto simp: updateRows_def split: if_splits)
  next
    fix f
    assume ok: "groups_ok d" and nw: "\<not> mayWrite e d f actor"
    have keep: "h\<lparr>ho_GroupID := []\<rparr> = h \<or> ho_FamilyID h \<noteq> f" if "h \<in> set (db_housing_options d)" "ho_GroupID h = g" for h
      using group_options_writable [OF ok gw g ne that] nw by auto
    have "filter (\<lambda>h. ho_FamilyID h = f) (updateRows (\<lambda>r. ho_GroupID r = g) (\<lambda>r. r\<lparr>ho_GroupID := []\<rparr>) hs) = filter (\<lambda>h. ho_FamilyID h = f) hs"
      if "set hs \<subseteq> set (db_housing_options d)" for hs
      using that by (induction hs) (use keep in auto)
    then show "filter (\<lambda>h. ho_FamilyID h = f) ?hs = filter (\<lambda>h. ho_FamilyID h = f) (db_housing_options d)" by simp
    have "hg_ID r \<noteq> g" if "r \<in> set (db_housing_groups d)" "hg_FamilyID r = f" for r
    proof
      assume "hg_ID r = g"
      from gw g obtain s where s: "s \<in> set (db_housing_groups d)" "hg_ID s = g" "mayWrite e d (hg_FamilyID s) actor"
        by (auto simp: groupWriter_def)
      have "inj_on hg_ID (set (db_housing_groups d))" using ok by (simp add: groups_ok_def refs_ok_def distinct_map comp_def inj_on_def)
      with s that \<open>hg_ID r = g\<close> have "s = r" by (simp add: inj_on_def)
      with s(3) that nw show False by simp
    qed
    then show "filter (\<lambda>r. hg_FamilyID r = f) ?gs = filter (\<lambda>r. hg_FamilyID r = f) (db_housing_groups d)"
      unfolding filter_filter by (intro filter_cong) auto
  next
    show "hg_FamilyID ` set ?gs \<subseteq> hg_FamilyID ` set (db_housing_groups d) \<union> {f. uuid_in e f = Some f}" by auto
  qed (rule refl)
qed

lemma showGroup_confined:
  assumes "showGroup e groupID visible n d = Inr (rows, d')" and "ids_ok e" and gw: "groupWriter e d groupID actor"
  shows "confined e actor d d'"
proof -
  from assms(1) obtain g where g: "uuid_in e groupID = Some g"
    and d': "d' = d\<lparr>db_housing_options := updateRows (\<lambda>r. ho_GroupID r = g) (\<lambda>r. r\<lparr>ho_VisibleOnDashboard := visible, ho_UpdatedAt := dbNow e n\<rparr>)
              (db_housing_options d)\<rparr>"
    unfolding showGroup_def Let_def bindS_Inr castUUID_Inr by auto
  have ne: "g \<noteq> []" using g assms(2) by (simp add: ids_ok_def)
  let ?h = "\<lambda>r :: HousingOption. r\<lparr>ho_VisibleOnDashboard := visible, ho_UpdatedAt := dbNow e n\<rparr>"
  let ?hs = "updateRows (\<lambda>r. ho_GroupID r = g) ?h (db_housing_options d)"
  have k: "map optionKey ?hs = map optionKey (db_housing_options d)" by (rule map_updateRows) simp
  show ?thesis
  proof (rule confined_options [OF trans [OF d' unchanged_fields(1)]])
    assume ok: "options_ok d" "groups_ok d"
    from ok(1) show "refs_ok (map optionKey ?hs) (map answerOption (db_answers d))" unfolding k by (simp add: options_ok_def)
    show "refs_ok (map groupKey (db_housing_groups d)) (map optionGroup (filter (\<lambda>h. ho_GroupID h \<noteq> []) ?hs))"
      by (rule groups_updated [OF ok(2)]) simp
  next
    fix f
    assume ok: "groups_ok d" and nw: "\<not> mayWrite e d f actor"
    have keep: "ho_FamilyID h \<noteq> f" if "h \<in> set (db_housing_options d)" "ho_GroupID h = g" for h
      using group_options_writable [OF ok gw g ne that] nw by auto
    have "filter (\<lambda>h. ho_FamilyID h = f) (updateRows (\<lambda>r. ho_GroupID r = g) ?h hs) = filter (\<lambda>h. ho_FamilyID h = f) hs"
      if "set hs \<subseteq> set (db_housing_options d)" for hs
      using that by (induction hs) (use keep in auto)
    then show "filter (\<lambda>h. ho_FamilyID h = f) ?hs = filter (\<lambda>h. ho_FamilyID h = f) (db_housing_options d)" by simp
  qed (rule refl | simp)+
qed

section \<open>Checklist\<close>

lemma checklistStep_confined:
  assumes "checklistStep e f l d d'" and "mayWrite e d f actor"
  shows "confined e actor d d'"
  unfolding confined_def
proof
  assume ok: "family_ok e d"
  have d': "d' = d\<lparr>db_criteria := db_criteria d'\<rparr>" using assms(1) unfolding checklistStep_def
    by (metis database.surjective database.update_convs(11))
  have "people_ok d' = people_ok d" "options_ok d' = options_ok d" "groups_ok d' = groups_ok d" "canonical e d' = canonical e d"
    by (subst d', simp add: people_ok_def options_ok_def groups_ok_def canonical_def)+
  moreover have "criteria_ok e d'" using assms(1) by (simp add: checklistStep_def)
  ultimately have ok': "family_ok e d'" using ok by (simp add: family_ok_def)
  have mem: "db_family_members d' = db_family_members d" by (subst d') simp
  have "familyRows d' g = familyRows d g" if "\<not> mayWrite e d g actor" for g
  proof -
    have "g \<noteq> f" using that assms(2) by auto
    then have act: "activeCriteria d' g = activeCriteria d g" using assms(1) by (simp add: checklistStep_def)
    show ?thesis unfolding familyRows_def act by (subst (1 2 3 4 5) d') simp
  qed
  with ok' mem show "family_ok e d' \<and> db_family_members d' = db_family_members d
      \<and> (\<forall>f. \<not> mayWrite e d f actor \<longrightarrow> familyRows d' f = familyRows d f)" by simp
qed

lemma upsertAnswer_confined:
  assumes "upsertAnswer e a fam n d = Inr (x, d')" and h: "uuid_in e (ha_HousingID a) = Some h" and c: "uuid_in e (ha_CriterionID a) = Some c"
    and opt: "opt \<in> set (db_housing_options d)" "ho_ID opt = h" and "mayWrite e d (ho_FamilyID opt) actor"
  shows "confined e actor d d'"
proof (cases "list_ex (\<lambda>r. answerKey r = (h, c)) (db_answers d)")
  case True
  have P: "(\<lambda>r. ha_HousingID (ar_Answer r) = h \<and> ha_CriterionID (ar_Answer r) = c) = (\<lambda>r. answerKey r = (h, c))"
    by (auto simp: answerKey_def)
  let ?g = "\<lambda>r :: answer_row. r\<lparr>ar_Answer := (ar_Answer r)\<lparr>ha_State := ha_State a, ha_Rating := ha_Rating a, ha_Notes := ha_Notes a\<rparr>\<rparr>"
  let ?as = "updateRows (\<lambda>r. answerKey r = (h, c)) ?g (db_answers d)"
  from True assms(1) h c have d': "d' = d\<lparr>db_answers := ?as\<rparr>" by (auto simp: upsertAnswer_def castUUID_def P Let_def bindS_Inr)
  have k: "map answerOption ?as = map answerOption (db_answers d)" by (rule map_updateRows) simp
  show ?thesis
  proof (rule confined_options [OF trans [OF d' unchanged_fields(3)]])
    assume "options_ok d" "groups_ok d"
    then show "refs_ok (map optionKey (db_housing_options d)) (map answerOption ?as)"
      "refs_ok (map groupKey (db_housing_groups d)) (map optionGroup (filter (\<lambda>h. ho_GroupID h \<noteq> []) (db_housing_options d)))"
      unfolding k by (simp_all add: options_ok_def groups_ok_def)
  next
    fix f
    assume ok: "options_ok d" and nw: "\<not> mayWrite e d f actor"
    have "ar_FamilyID r \<noteq> f" if r: "r \<in> set (db_answers d)" "answerKey r = (h, c)" for r
    proof -
      have "ho_FamilyID opt = ar_FamilyID r"
        by (rule refs_same_family [OF ok [unfolded options_ok_def], of h]) (use opt r in \<open>force simp: answerKey_def\<close>)+
      with assms(6) nw show ?thesis by auto
    qed
    then have "filter (\<lambda>a. ar_FamilyID a = f) (updateRows (\<lambda>r. answerKey r = (h, c)) ?g as) = filter (\<lambda>a. ar_FamilyID a = f) as"
      if "set as \<subseteq> set (db_answers d)" for as using that by (induction as) auto
    then show "filter (\<lambda>a. ar_FamilyID a = f) ?as = filter (\<lambda>a. ar_FamilyID a = f) (db_answers d)" by simp
  qed (rule refl | simp)+
next
  case False
  have P: "(\<lambda>r. ha_HousingID (ar_Answer r) = h \<and> ha_CriterionID (ar_Answer r) = c) = (\<lambda>r. answerKey r = (h, c))"
    by (auto simp: answerKey_def)
  from False assms(1) h c obtain f' where f': "list_ex (\<lambda>o'. ho_ID o' = h \<and> ho_FamilyID o' = f') (db_housing_options d)"
    and d': "d' = d\<lparr>db_answers := db_answers d @ [\<lparr>ar_Answer = a\<lparr>ha_HousingID := h, ha_CriterionID := c\<rparr>, ar_FamilyID = f'\<rparr>]\<rparr>"
    by (auto simp: upsertAnswer_def castUUID_def P Let_def bindS_Inr split: option.splits)
  let ?row = "\<lparr>ar_Answer = a\<lparr>ha_HousingID := h, ha_CriterionID := c\<rparr>, ar_FamilyID = f'\<rparr>"
  show ?thesis
  proof (rule confined_options [OF trans [OF d' unchanged_fields(3)]])
    assume ok: "options_ok d" "groups_ok d"
    show "refs_ok (map optionKey (db_housing_options d)) (map answerOption (db_answers d @ [?row]))"
      by (rule refs_ok_subset [OF ok(1) [unfolded options_ok_def]]) (use f' in \<open>auto simp: list_ex_iff\<close>)
    from ok(2) show "refs_ok (map groupKey (db_housing_groups d)) (map optionGroup (filter (\<lambda>h. ho_GroupID h \<noteq> []) (db_housing_options d)))"
      by (simp add: groups_ok_def)
  next
    fix f
    assume ok: "options_ok d" and nw: "\<not> mayWrite e d f actor"
    from f' obtain o' where o': "o' \<in> set (db_housing_options d)" "ho_ID o' = h" "ho_FamilyID o' = f'" by (auto simp: list_ex_iff)
    have "inj_on ho_ID (set (db_housing_options d))" using ok by (simp add: options_ok_def refs_ok_def distinct_map comp_def inj_on_def)
    with o' opt have "o' = opt" by (simp add: inj_on_def)
    with o'(3) assms(6) nw have "f' \<noteq> f" by auto
    then show "filter (\<lambda>a. ar_FamilyID a = f) (db_answers d @ [?row]) = filter (\<lambda>a. ar_FamilyID a = f) (db_answers d)" by simp
  qed (rule refl | simp)+
qed

section \<open>Operations\<close>

lemma confined_assume: "(family_ok e d \<Longrightarrow> confined e actor d d') \<Longrightarrow> confined e actor d d'"
  by (simp add: confined_def)

lemma ids_of_ok: "family_ok e d \<Longrightarrow> ids_ok e"
  by (simp add: family_ok_def)

lemma stays_sql: "(\<And>d. R d d) \<Longrightarrow> (\<And>n d x d'. st n d = Inr (x, d') \<Longrightarrow> R d d') \<Longrightarrow>
  preserves (\<lambda>w w'. R (wo_db w) (wo_db w')) (sql e st)"
  by (rule preserves_sql)

lemma createPerson_stays: "stays (confined e actor) (repoCreatePersonProfile e profile actor)"
proof -
  let ?linked = "normalizeOptionalUUID (uni_lower e) (pp_LinkedUserID profile)"
  have st: "preserves (\<lambda>w w'. confinedIn e actor f (wo_db w) (wo_db w')) (sql e (insertPerson e history linked profile))"
    if "uuid_in e (pp_FamilyID profile) = Some f" for f history linked
    by (rule stays_sql [where R = "confinedIn e actor f"]) (simp add: confinedIn_def, erule insertPerson_confined [OF _ that])
  have "stays (confinedIn e actor f) (catchP (bindP (sql e (insertPerson e True ?linked profile)) (\<lambda>row. retP (scanPersonRow row))) (\<lambda>err.
          if isMissingIncomeHistoryRelationError e err \<or> isLinkedUserCompatibilityError e err
          then mapErr normalizeError (bindP (sql e (insertPerson e False [] profile)) (\<lambda>row. retP (scanLegacyPersonRow row)))
          else throwP (normalizeError err)))" if f: "uuid_in e (pp_FamilyID profile) = Some f" for f
    by (intro preserves_catch preserves_bind preserves_if preserves_mapErr preserves_ret preserves_throw
        frame_rel_db confinedIn_frame st [OF f])
  then show ?thesis unfolding repoCreatePersonProfile_def Let_def
    by (intro preserves_if preserves_throw frame_rel_db confined_frame stays_asserted)
qed

lemma updatePerson_stays: "stays (confined e actor) (repoUpdatePersonProfile e profile actor)"
proof -
  have st: "preserves (\<lambda>w w'. confined e actor (wo_db w) (wo_db w')) (sql e (updatePerson e history linked profile actor))" for history linked
    by (rule stays_sql [where R = "confined e actor"]) (simp, erule updatePerson_confined)
  show ?thesis unfolding repoUpdatePersonProfile_def Let_def
    by (intro preserves_catch preserves_bind preserves_if preserves_mapErr preserves_ret preserves_throw frame_rel_db confined_frame st)
qed

lemma rows_unchanged [simp]: "snd (retP x w) = w" "snd (throwP err w) = w" "snd ((if b then throwP err else retP x) w) = w"
  by (simp_all add: retP_def throwP_def)

lemma deletePerson_stays: "stays (confined e actor) (repoDeletePersonProfile e personID actor)"
  unfolding repoDeletePersonProfile_def
  by (rule stays_after [OF stays_query]) (simp, erule deletePerson_confined, simp)

lemma option_update_stays:
  assumes "\<And>r. ho_ID (f r) = ho_ID r \<and> ho_FamilyID (f r) = ho_FamilyID r \<and> ho_GroupID (f r) = ho_GroupID r"
  shows "stays (confined e actor) (bindP (query e (updateOption e housingID actor ok f)) (\<lambda>row. retP (g row)))"
  by (rule stays_after [OF stays_query]) (simp, erule updateOption_confined, simp_all add: assms)

lemma visibility_stays: "stays (confined e actor) (repoUpdateHousingOptionVisibility e housingID visible actor)"
  unfolding repoUpdateHousingOptionVisibility_def by (rule option_update_stays) simp

lemma notes_stays: "stays (confined e actor) (repoUpdateHousingNotes e housingID notes actor)"
  unfolding repoUpdateHousingNotes_def
  by (intro preserves_if preserves_throw preserves_case_option frame_rel_db confined_frame option_update_stays) simp

lemma deleteOption_stays: "stays (confined e actor) (repoDeleteHousingOption e housingID actor)"
  unfolding repoDeleteHousingOption_def
  by (rule stays_after [OF stays_query]) (simp, erule deleteOption_confined, simp)

lemma createGroup_stays: "stays (confined e actor) (repoCreateHousingGroup e g actor)"
proof -
  have "stays (confinedIn e actor f) (bindP (query e (insertGroup e g)) (\<lambda>row. retP (scanHousingGroupRow row)))"
    if f: "uuid_in e (hg_FamilyID g) = Some f" for f
  proof (rule stays_after [OF stays_query])
    fix n d x d'
    assume "insertGroup e g n d = Inr (x, d')"
    then show "confinedIn e actor f d d'"
      using insertGroup_confined [OF _ f ids_of_ok] unfolding confinedIn_def by blast
  qed (simp_all add: confinedIn_def)
  then show ?thesis unfolding repoCreateHousingGroup_def
    by (intro preserves_if preserves_throw frame_rel_db confined_frame stays_asserted)
qed

lemma updateGroup_stays: "stays (confined e actor) (repoUpdateHousingGroup e g actor)"
  unfolding repoUpdateHousingGroup_def
  by (intro preserves_if preserves_throw frame_rel_db confined_frame stays_after stays_query)
     (simp, erule updateGroup_confined, simp)

lemma groupFamily:
  shows "db_kept (getHousingGroupFamilyID e groupID)"
    and "getHousingGroupFamilyID e groupID w = (Inr fam, w') \<Longrightarrow>
      \<exists>g r. uuid_in e groupID = Some g \<and> r \<in> set (db_housing_groups (wo_db w)) \<and> hg_ID r = g \<and> hg_FamilyID r = fam"
proof -
  show "db_kept (getHousingGroupFamilyID e groupID)"
    unfolding getHousingGroupFamilyID_def
    by (intro preserves_if preserves_throw frame_rel_eq db_kept_query_read) (auto simp: bindS_Inr)
  assume run: "getHousingGroupFamilyID e groupID w = (Inr fam, w')"
  then have q: "query e (\<lambda>n d. bindS (castUUID e groupID) (\<lambda>g.
             bindS (firstRow (filter (\<lambda>r. hg_ID r = g) (db_housing_groups d))) (\<lambda>r. Inr (hg_FamilyID r, d)))) w = (Inr fam, w')"
    by (simp add: getHousingGroupFamilyID_def split: if_splits)
  from query_InrD [OF q] obtain g r rest where g: "uuid_in e groupID = Some g" "fam = hg_FamilyID r"
    "filter (\<lambda>r. hg_ID r = g) (db_housing_groups (wo_db w)) = r # rest"
    by (auto simp: bindS_Inr castUUID_Inr firstRow_Inr)
  from filter_first [OF g(3)] g(1,2) show "\<exists>g r. uuid_in e groupID = Some g \<and> r \<in> set (db_housing_groups (wo_db w)) \<and> hg_ID r = g \<and> hg_FamilyID r = fam"
    by blast
qed

text \<open>The shape of the operations on a whole group.\<close>

lemma group_op_stays:
  assumes "\<And>n d x d'. st n d = Inr (x, d') \<Longrightarrow> ids_ok e \<Longrightarrow> groupWriter e d groupID actor \<Longrightarrow> confined e actor d d'"
    and "\<And>x w. snd (k x w) = w"
  shows "stays (confined e actor) (bindP (getHousingGroupFamilyID e groupID) (\<lambda>familyID.
     bindP (assertFamilyWriter e actor familyID) (\<lambda>_. bindP (query e st) k)))"
proof -
  define Q where "Q = (\<lambda>fam (d :: database). \<exists>r. uuid_in e groupID = Some (hg_ID r) \<and> r \<in> set (db_housing_groups d) \<and> hg_FamilyID r = fam)"
  define W where "W = (\<lambda>fam d. \<exists>f. uuid_in e fam = Some f \<and> mayWrite e d f actor)"
  have st: "confined e actor d d'" if "st n d = Inr (x, d')" "W fam d" "Q fam d" for n d x d' fam
  proof (rule confined_assume)
    assume ok: "family_ok e d"
    from that(3) obtain r where r: "uuid_in e groupID = Some (hg_ID r)" "r \<in> set (db_housing_groups d)" "hg_FamilyID r = fam"
      unfolding Q_def by blast
    from ok r(2,3) have "uuid_in e fam = Some fam" unfolding family_ok_def canonical_def by blast
    with that(2) r have "groupWriter e d groupID actor" unfolding groupWriter_def W_def by auto
    with that(1) ids_of_ok [OF ok] show "confined e actor d d'" by (rule assms(1))
  qed
  have inner: "stays (\<lambda>d d'. Q fam d \<longrightarrow> confined e actor d d') (bindP (assertFamilyWriter e actor fam) (\<lambda>_. bindP (query e st) k))" for fam
  proof (rule stays_checked [where Q = "\<lambda>_. W fam"])
    show "db_kept (assertFamilyWriter e actor fam)" by (rule preserves_access) simp
    show "W fam (wo_db w)" if "assertFamilyWriter e actor fam w = (Inr x, w')" for w x w'
      using that unfolding W_def mayWrite_def by (cases x) (auto elim: assertFamilyWriter_Inr)
    show "stays (\<lambda>d d'. W fam d \<longrightarrow> Q fam d \<longrightarrow> confined e actor d d') (bindP (query e st) k)"
      by (rule stays_after [OF stays_query assms(2)]) (simp, intro impI, rule st)
  qed simp
  show ?thesis
    by (rule stays_checked [OF groupFamily(1), where Q = Q, OF _ confined_refl inner]) (unfold Q_def, drule groupFamily(2), blast)
qed

lemma deleteGroup_stays: "stays (confined e actor) (repoDeleteHousingGroup e groupID actor)"
  unfolding repoDeleteHousingGroup_def by (rule group_op_stays) (erule deleteGroup_confined, assumption+, simp)

lemma groupVisibility_stays: "stays (confined e actor) (repoBulkUpdateHousingGroupVisibility e groupID visible actor)"
  unfolding repoBulkUpdateHousingGroupVisibility_def by (rule group_op_stays) (erule showGroup_confined, assumption+, simp)

lemma createOption_stays: "stays (confined e actor) (repoCreateHousingOption e opt actor)"
proof -
  have "stays (confinedIn e actor f) (bindP (validateHousingGroupAssignment e (ho_FamilyID opt) (ho_GroupID opt)) (\<lambda>_.
             bindP (query e (insertOption e opt)) (\<lambda>row. retP (scanHousingRow row))))"
    if f: "uuid_in e (ho_FamilyID opt) = Some f" for f
  proof (rule stays_checked [OF validateGroup(1), where Q = "\<lambda>_ d. groupOf e d f (ho_GroupID opt)"])
    show "stays (\<lambda>d d'. groupOf e d f (ho_GroupID opt) \<longrightarrow> confinedIn e actor f d d') (bindP (query e (insertOption e opt)) (\<lambda>row. retP (scanHousingRow row)))"
    proof (rule stays_after [OF stays_query])
      fix n d x d'
      assume st: "insertOption e opt n d = Inr (x, d')"
      show "groupOf e d f (ho_GroupID opt) \<longrightarrow> confinedIn e actor f d d'"
        unfolding confinedIn_def using insertOption_confined [OF st f ids_of_ok] by blast
    qed (simp_all add: confinedIn_def)
  qed (use validateGroup(2) f in \<open>auto simp: confinedIn_def\<close>)
  then show ?thesis unfolding repoCreateHousingOption_def
    by (intro preserves_if preserves_throw preserves_case_option frame_rel_db confined_frame stays_asserted)
qed

lemma assignGroup_stays: "stays (confined e actor) (repoAssignHousingOptionGroup e housingID groupID actor)"
proof -
  let ?t = "trimSpace groupID"
  have upd: "confined e actor d d'" if st: "assignGroup e housingID ?t gf actor n d = Inr (x, d')"
    and gf: "case gf of None \<Rightarrow> ?t = [] | Some fam \<Rightarrow> \<exists>g r. uuid_in e ?t = Some g \<and> r \<in> set (db_housing_groups d) \<and> hg_ID r = g \<and> hg_FamilyID r = fam" for gf n d x d'
  proof (rule confined_assume)
    assume ok: "family_ok e d"
    show "confined e actor d d'"
    proof (cases gf)
      case None
      with st gf have "updateOption e housingID actor (\<lambda>r. True) (\<lambda>r. r\<lparr>ho_GroupID := []\<rparr>) n d = Inr (x, d')"
        by (auto simp: assignGroup_def castUUIDOpt_def bindS_Inr)
      then show ?thesis by (rule updateOption_confined) simp_all
    next
      case (Some fam)
      with gf obtain g r where g: "uuid_in e ?t = Some g" and r: "r \<in> set (db_housing_groups d)" "hg_ID r = g" "hg_FamilyID r = fam" by auto
      have "uuid_in e fam = Some fam" using ok r by (auto simp: family_ok_def canonical_def)
      with st Some g have "castUUIDOpt e ?t = Inr g'
          \<Longrightarrow> updateOption e housingID actor (\<lambda>r. ho_FamilyID r = fam) (\<lambda>r. r\<lparr>ho_GroupID := g'\<rparr>) n d = Inr (x, d')" for g'
        by (auto simp: assignGroup_def bindS_Inr castUUID_Inr)
      moreover have "castUUIDOpt e ?t \<in> {Inr g, Inr []}" using g by (simp add: castUUIDOpt_def castUUID_def)
      ultimately obtain g' where g': "g' = g \<or> g' = []"
        and up: "updateOption e housingID actor (\<lambda>r. ho_FamilyID r = fam) (\<lambda>r. r\<lparr>ho_GroupID := g'\<rparr>) n d = Inr (x, d')" by blast
      from up show ?thesis by (rule updateOption_confined) (use g' r in force)+
    qed
  qed
  define look where "look = (if ?t \<noteq> [] then bindP (getHousingGroupFamilyID e ?t) (\<lambda>f. retP (Some f)) else retP None)"
  define Q where "Q = (\<lambda>gf (d :: database). case gf of None \<Rightarrow> ?t = [] | Some fam \<Rightarrow> \<exists>g r. uuid_in e ?t = Some g \<and> r \<in> set (db_housing_groups d) \<and> hg_ID r = g \<and> hg_FamilyID r = fam)"
  have "stays (confined e actor) (bindP look (\<lambda>gf. bindP (query e (assignGroup e housingID ?t gf actor)) (\<lambda>row. retP (scanHousingRow row))))"
  proof (rule stays_checked [where Q = Q])
    show "db_kept look" unfolding look_def by (intro preserves_if preserves_bind preserves_ret frame_rel_eq groupFamily(1))
    show "Q x (wo_db w)" if "look w = (Inr x, w')" for w x w'
      using that groupFamily(2) [of e ?t] by (auto simp: look_def Q_def split: if_splits elim!: bindP_InrE)
    show "stays (\<lambda>d d'. Q gf d \<longrightarrow> confined e actor d d') (bindP (query e (assignGroup e housingID ?t gf actor)) (\<lambda>row. retP (scanHousingRow row)))" for gf
      by (rule stays_after [OF stays_query]) (use upd in \<open>auto simp: Q_def\<close>)
  qed simp
  then show ?thesis by (simp add: repoAssignHousingOptionGroup_def Let_def look_def)
qed

text \<open>\<open>UpdateHousingOption\<close> looks its group up in the family the request names.\<close>

definition ownFamily :: "env \<Rightarrow> database \<Rightarrow> HousingOption \<Rightarrow> bool" where
  "ownFamily e d opt \<longleftrightarrow> (\<forall>r\<in>set (db_housing_options d). uuid_in e (ho_ID opt) = Some (ho_ID r) \<longrightarrow>
     uuid_in e (ho_FamilyID opt) = Some (ho_FamilyID r))"

lemma writeOption_confined:
  assumes "writeOption e opt actor n d = Inr (row, d')" and own: "ownFamily e d opt"
    and group: "\<And>f. uuid_in e (ho_FamilyID opt) = Some f \<Longrightarrow> groupOf e d f (ho_GroupID opt)"
  shows "confined e actor d d'"
proof (rule confined_assume)
  assume ok: "family_ok e d"
  from assms(1) obtain h where h: "castHousing e opt = Inr h" and up: "updateOption e (ho_ID opt) actor (\<lambda>r. True) (setOption h) n d = Inr (row, d')"
    unfolding writeOption_def bindS_Inr by blast
  have hg: "castUUIDOpt e (ho_GroupID opt) = Inr (ho_GroupID h)" using h by (auto simp: castHousing_def bindS_Inr)
  from up show "confined e actor d d'"
  proof (rule updateOption_confined)
    fix i r
    assume "uuid_in e (ho_ID opt) = Some i" and r: "r \<in> set (db_housing_options d)" "ho_ID r = i"
    with own have f: "uuid_in e (ho_FamilyID opt) = Some (ho_FamilyID r)" by (simp add: ownFamily_def)
    have "(ho_GroupID h, ho_FamilyID r) \<in> groupKey ` set (db_housing_groups d)" if "ho_GroupID h \<noteq> []"
      using groupOf_stored [OF ids_of_ok [OF ok] group [OF f] hg that] by force
    then show "ho_GroupID (setOption h r) \<in> {[], ho_GroupID r} \<or> (ho_GroupID (setOption h r), ho_FamilyID r) \<in> groupKey ` set (db_housing_groups d)"
      by (auto simp: setOption_def)
  qed (simp add: setOption_def)
qed

lemma updateOption_stays:
  "stays (\<lambda>d d'. ownFamily e d opt \<longrightarrow> confined e actor d d') (repoUpdateHousingOption e opt actor)"
proof -
  define Q where "Q = (\<lambda>d. \<forall>f. uuid_in e (ho_FamilyID opt) = Some f \<longrightarrow> groupOf e d f (ho_GroupID opt))"
  have "stays (\<lambda>d d'. ownFamily e d opt \<longrightarrow> confined e actor d d') (bindP (validateHousingGroupAssignment e (ho_FamilyID opt) (ho_GroupID opt)) (\<lambda>_.
           bindP (query e (writeOption e opt actor)) (\<lambda>row. retP (scanHousingRow row))))"
  proof (rule stays_checked [OF validateGroup(1), where Q = "\<lambda>_. Q"])
    show "Q (wo_db w)" if "validateHousingGroupAssignment e (ho_FamilyID opt) (ho_GroupID opt) w = (Inr x, w')" for w x w'
      using validateGroup(2) [OF that] by (simp add: Q_def)
    show "stays (\<lambda>d d'. Q d \<longrightarrow> ownFamily e d opt \<longrightarrow> confined e actor d d') (bindP (query e (writeOption e opt actor)) (\<lambda>row. retP (scanHousingRow row)))"
      by (rule stays_after [OF stays_query]) (simp, unfold Q_def, blast intro: writeOption_confined, simp)
  qed simp
  then show ?thesis unfolding repoUpdateHousingOption_def preserves_def by (simp add: throwP_def)
qed

datatype familyOp =
    CreatePerson PersonProfile | UpdatePerson PersonProfile | DeletePerson ID
  | CreateOption HousingOption | UpdateOption HousingOption | DeleteOption ID | SetNotes ID string
  | SetVisibility ID bool | CreateGroup HousingGroup | UpdateGroup HousingGroup | DeleteGroup ID
  | AssignGroup ID ID | SetGroupVisibility ID bool
  | SaveItem HousingCriterion | DeleteItem ID ID | ReorderItems ID "ID list" | SaveAnswer HousingAnswer

fun runFamilyOp :: "env \<Rightarrow> familyOp \<Rightarrow> ID \<Rightarrow> world \<Rightarrow> world" where
  "runFamilyOp e (CreatePerson p) actor w = snd (repoCreatePersonProfile e p actor w)"
| "runFamilyOp e (UpdatePerson p) actor w = snd (repoUpdatePersonProfile e p actor w)"
| "runFamilyOp e (DeletePerson i) actor w = snd (repoDeletePersonProfile e i actor w)"
| "runFamilyOp e (CreateOption h) actor w = snd (repoCreateHousingOption e h actor w)"
| "runFamilyOp e (UpdateOption h) actor w = snd (repoUpdateHousingOption e h actor w)"
| "runFamilyOp e (DeleteOption i) actor w = snd (repoDeleteHousingOption e i actor w)"
| "runFamilyOp e (SetNotes i notes) actor w = snd (repoUpdateHousingNotes e i notes actor w)"
| "runFamilyOp e (SetVisibility i v) actor w = snd (repoUpdateHousingOptionVisibility e i v actor w)"
| "runFamilyOp e (CreateGroup g) actor w = snd (repoCreateHousingGroup e g actor w)"
| "runFamilyOp e (UpdateGroup g) actor w = snd (repoUpdateHousingGroup e g actor w)"
| "runFamilyOp e (DeleteGroup i) actor w = snd (repoDeleteHousingGroup e i actor w)"
| "runFamilyOp e (AssignGroup i g) actor w = snd (repoAssignHousingOptionGroup e i g actor w)"
| "runFamilyOp e (SetGroupVisibility g v) actor w = snd (repoBulkUpdateHousingGroupVisibility e g v actor w)"
| "runFamilyOp e (SaveItem c) actor w = snd (repoSaveHousingCriterion e c actor w)"
| "runFamilyOp e (DeleteItem f c) actor w = snd (repoDeleteHousingCriterion e f c actor w)"
| "runFamilyOp e (ReorderItems f ids) actor w = snd (repoReorderHousingCriteria e f ids actor w)"
| "runFamilyOp e (SaveAnswer a) actor w = snd (repoSaveHousingAnswer e a actor w)"

definition fitsFamily :: "env \<Rightarrow> world \<Rightarrow> familyOp \<Rightarrow> bool" where
  "fitsFamily e w p = (case p of UpdateOption h \<Rightarrow> ownFamily e (wo_db w) h | _ \<Rightarrow> True)"

lemma saveItem_confined: "confined e actor (wo_db w) (wo_db (snd (repoSaveHousingCriterion e c actor w)))"
proof (rule confined_assume)
  assume "family_ok e (wo_db w)"
  then have ok: "criteria_ok e (wo_db w)" "uuid_ok e" by (simp_all add: family_ok_def ids_ok_def)
  obtain r w' where r: "repoSaveHousingCriterion e c actor w = (r, w')" by fastforce
  show "confined e actor (wo_db w) (wo_db (snd (repoSaveHousingCriterion e c actor w)))"
    using ok r by (cases rule: save_cases) (auto simp: r mayWrite_def intro: checklistStep_confined)
qed

lemma deleteItem_confined: "confined e actor (wo_db w) (wo_db (snd (repoDeleteHousingCriterion e f c actor w)))"
proof (rule confined_assume)
  assume "family_ok e (wo_db w)"
  then have ok: "criteria_ok e (wo_db w)" by (simp add: family_ok_def)
  obtain r w' where r: "repoDeleteHousingCriterion e f c actor w = (r, w')" by fastforce
  show "confined e actor (wo_db w) (wo_db (snd (repoDeleteHousingCriterion e f c actor w)))"
    using ok r by (cases rule: delete_cases) (auto simp: r mayWrite_def intro: checklistStep_confined)
qed

lemma reorderItems_confined: "confined e actor (wo_db w) (wo_db (snd (repoReorderHousingCriteria e f ids actor w)))"
proof (rule confined_assume)
  assume "family_ok e (wo_db w)"
  then have ok: "criteria_ok e (wo_db w)" by (simp add: family_ok_def)
  obtain r w' where r: "repoReorderHousingCriteria e f ids actor w = (r, w')" by fastforce
  show "confined e actor (wo_db w) (wo_db (snd (repoReorderHousingCriteria e f ids actor w)))"
    using ok r by (cases rule: reorder_cases) (auto simp: r mayWrite_def intro: checklistStep_confined)
qed

lemma saveAnswer_stays: "stays (confined e actor) (repoSaveHousingAnswer e a actor)"
proof -
  have "stays (confined e actor) (transaction e (\<lambda>t. bindP (query e (answerFamily e a actor)) (\<lambda>familyID.
          bindP (query e (upsertAnswer e a familyID)) (\<lambda>_. retP a))))"
  proof (rule preserves_transaction [OF confined_frame])
    fix t
    define Q where "Q = (\<lambda>d. \<exists>h c opt. uuid_in e (ha_HousingID a) = Some h \<and> uuid_in e (ha_CriterionID a) = Some c
        \<and> opt \<in> set (db_housing_options d) \<and> ho_ID opt = h \<and> mayWrite e d (ho_FamilyID opt) actor)"
    show "stays (confined e actor) (bindP (query e (answerFamily e a actor)) (\<lambda>familyID. bindP (query e (upsertAnswer e a familyID)) (\<lambda>_. retP a)))"
    proof (rule stays_checked [where Q = "\<lambda>_. Q"])
      show "db_kept (query e (answerFamily e a actor))" by (rule db_kept_query_read) (erule answerFamily_Inr, simp)
      show "Q (wo_db w)" if "query e (answerFamily e a actor) w = (Inr x, w')" for w x w'
        using query_InrD [OF that] by (rule answerFamily_Inr) (auto simp: Q_def mayWrite_def)
      show "stays (\<lambda>d d'. Q d \<longrightarrow> confined e actor d d') (bindP (query e (upsertAnswer e a x)) (\<lambda>_. retP a))" for x
        by (rule stays_after [OF stays_query]) (simp, unfold Q_def, blast intro: upsertAnswer_confined, simp)
    qed simp
  qed
  then show ?thesis unfolding repoSaveHousingAnswer_def
    by (intro preserves_case_option preserves_throw frame_rel_db confined_frame)
qed

lemma stays_snd: "stays R m \<Longrightarrow> R (wo_db w) (wo_db (snd (m w)))"
  by (simp add: preserves_def)

lemma familyOp_confined:
  assumes "fitsFamily e w p"
  shows "confined e actor (wo_db w) (wo_db (runFamilyOp e p actor w))"
proof (cases p)
  case (UpdateOption h)
  then show ?thesis using assms updateOption_stays [of e h actor] by (simp add: fitsFamily_def preserves_def)
qed (simp_all add: stays_snd [OF createPerson_stays] stays_snd [OF updatePerson_stays] stays_snd [OF deletePerson_stays]
      stays_snd [OF createOption_stays] stays_snd [OF deleteOption_stays] stays_snd [OF notes_stays] stays_snd [OF visibility_stays]
      stays_snd [OF createGroup_stays] stays_snd [OF updateGroup_stays] stays_snd [OF deleteGroup_stays] stays_snd [OF assignGroup_stays]
      stays_snd [OF groupVisibility_stays] stays_snd [OF saveAnswer_stays] saveItem_confined deleteItem_confined reorderItems_confined)

section \<open>Isolation of tenants\<close>

text \<open>A sequence of requests, each with its user, and the condition on every one of them.\<close>

definition runsOf :: "('op \<Rightarrow> 'a \<Rightarrow> 's \<Rightarrow> 's) \<Rightarrow> 's \<Rightarrow> ('op \<times> 'a) list \<Rightarrow> 's" where
  "runsOf run s ops = foldl (\<lambda>s (p, a). run p a s) s ops"

fun fitting :: "('s \<Rightarrow> 'op \<Rightarrow> bool) \<Rightarrow> ('op \<Rightarrow> 'a \<Rightarrow> 's \<Rightarrow> 's) \<Rightarrow> 's \<Rightarrow> ('op \<times> 'a) list \<Rightarrow> bool" where
  "fitting fits run s [] = True"
| "fitting fits run s ((p, a) # ops) = (fits s p \<and> fitting fits run (run p a s) ops)"

locale tenants =
  fixes ok :: "'s \<Rightarrow> bool" and view :: "'s \<Rightarrow> 'k \<Rightarrow> 'v" and may :: "'s \<Rightarrow> 'k \<Rightarrow> 'a \<Rightarrow> bool"
    and fits :: "'s \<Rightarrow> 'op \<Rightarrow> bool" and run :: "'op \<Rightarrow> 'a \<Rightarrow> 's \<Rightarrow> 's"
  assumes ok_run: "ok s \<Longrightarrow> fits s p \<Longrightarrow> ok (run p a s)"
    and may_run: "ok s \<Longrightarrow> fits s p \<Longrightarrow> may (run p a s) k b = may s k b"
    and guarded: "ok s \<Longrightarrow> fits s p \<Longrightarrow> \<not> may s k a \<Longrightarrow> view (run p a s) k = view s k"
begin

lemma isolated:
  assumes "ok s" and "fitting fits run s ops" and "\<And>p a. (p, a) \<in> set ops \<Longrightarrow> \<not> may s k a"
  shows "ok (runsOf run s ops) \<and> view (runsOf run s ops) k = view s k"
  using assms
proof (induction ops arbitrary: s)
  case (Cons pa ops)
  obtain p a where pa: "pa = (p, a)" by fastforce
  have f: "fits s p" "fitting fits run (run p a s) ops" using Cons.prems(2) by (simp_all add: pa)
  have "\<not> may (run p a s) k b" if "(q, b) \<in> set ops" for q b
    using may_run [OF Cons.prems(1) f(1)] Cons.prems(3) [of q b] that by simp
  from Cons.IH [OF ok_run [OF Cons.prems(1) f(1)] f(2) this] guarded [OF Cons.prems(1) f(1)] Cons.prems(3) [of p a]
  show ?case by (simp add: pa runsOf_def)
qed (simp add: runsOf_def)

end

interpretation iso: tenants "\<lambda>w. family_ok e (wo_db w)" "\<lambda>w. familyRows (wo_db w)" "\<lambda>w. mayWrite e (wo_db w)" "fitsFamily e" "runFamilyOp e" for e
proof
  fix s :: world and p a
  assume ok: "family_ok e (wo_db s)" and fits: "fitsFamily e s p"
  note step = familyOp_confined [OF fits, of a, unfolded confined_def, rule_format, OF ok]
  from step show "family_ok e (wo_db (runFamilyOp e p a s))" by simp
  from step show "mayWrite e (wo_db (runFamilyOp e p a s)) k b = mayWrite e (wo_db s) k b" for k b
    using mayWrite_members [of "wo_db (runFamilyOp e p a s)" "wo_db s" e] by simp
  from step show "familyRows (wo_db (runFamilyOp e p a s)) k = familyRows (wo_db s) k" if "\<not> mayWrite e (wo_db s) k a" for k
    using that by simp
qed

section \<open>Properties\<close>

text \<open>
  A family's data is changed only by its writers. In tables with referential
  integrity, whatever sequence of requests that create, update and delete people, housing options,
  groups, criteria and answers is processed, with any failures of the database, if none of the
  requesting users is an owner, admin or member of family \<open>f\<close>, then the people, income history,
  groups, options, active criteria and answers of \<open>f\<close> are exactly what they were, and the
  integrity still holds; the updates of options must name the option's own family.
\<close>

theorem only_writers_change_a_family:
  assumes "family_ok e (wo_db w)" and "fitting (fitsFamily e) (runFamilyOp e) w ops"
    and "\<And>p actor. (p, actor) \<in> set ops \<Longrightarrow> \<not> mayWrite e (wo_db w) f actor"
  shows "familyRows (wo_db (runsOf (runFamilyOp e) w ops)) f = familyRows (wo_db w) f
    \<and> family_ok e (wo_db (runsOf (runFamilyOp e) w ops))"
  using iso.isolated [OF assms] by simp

definition tidy_env :: env where
  "tidy_env = example_env\<lparr>uuid_at := (\<lambda>n. replicate (Suc n) (CHR ''u'')),
     uuid_in := (\<lambda>s. if s = [] \<or> trimSpace s \<noteq> s then None else Some s)\<rparr>"

lemma tidy_ids: "ids_ok tidy_env"
proof -
  have "trimSpace (replicate (Suc n) (CHR ''u'')) = replicate (Suc n) (CHR ''u'')" for n
    by (rule trimSpace_plain) (simp add: plain_def last_replicate del: replicate_Suc)
  then show ?thesis by (auto simp: ids_ok_def uuid_ok_def tidy_env_def)
qed

definition two_families :: world where
  "two_families = example_flat\<lparr>wo_db := (wo_db example_flat)\<lparr>
     db_families := [example_family, example_family\<lparr>fa_ID := ''f2''\<rparr>],
     db_family_members := [\<lparr>fm_FamilyID = ''f1'', fm_UserID = ''u1'', fm_Role = ''owner'', fm_JoinedAt = 0\<rparr>,
       \<lparr>fm_FamilyID = ''f2'', fm_UserID = ''u2'', fm_Role = ''owner'', fm_JoinedAt = 0\<rparr>],
     db_housing_groups := [\<lparr>hg_ID = ''g2'', hg_FamilyID = ''f2'', hg_Name = ''East'', hg_CreatedAt = 0, hg_UpdatedAt = 0\<rparr>]\<rparr>\<rparr>"

lemma two_families_ok: "family_ok tidy_env (wo_db two_families)"
proof -
  have "criteria_ok tidy_env (wo_db two_families)" "canonical tidy_env (wo_db two_families)" by code_simp+
  moreover have "people_ok (wo_db two_families)" "options_ok (wo_db two_families)" "groups_ok (wo_db two_families)" by code_simp+
  ultimately show ?thesis using tidy_ids by (simp add: family_ok_def)
qed

lemma stranger: "\<not> mayWrite tidy_env (wo_db two_families) ''f1'' ''u2''"
proof -
  have "uuid_in tidy_env ''u2'' = Some ''u2''" "\<not> isWriter (wo_db two_families) ''f1'' ''u2''" by code_simp+
  then show ?thesis by (simp add: mayWrite_def)
qed

theorem only_writers_change_a_family_witness:
  "familyRows (wo_db (runsOf (runFamilyOp tidy_env) two_families [(SetVisibility ''h1'' False, ''u2''), (DeleteGroup ''g2'', ''u2'')])) ''f1''
     = familyRows (wo_db two_families) ''f1''
   \<and> fr_groups (familyRows (wo_db (runsOf (runFamilyOp tidy_env) two_families [(SetVisibility ''h1'' False, ''u2''), (DeleteGroup ''g2'', ''u2'')])) ''f2'') = []"
  (is "?A \<and> ?B")
proof
  show ?A
    by (rule conjunct1 [OF only_writers_change_a_family [OF two_families_ok]])
       (use stranger in \<open>auto simp: fitsFamily_def\<close>)
  show ?B by code_simp
qed


end
