(* ===== verification/Family_Reads.thy ===== *)
theory Family_Reads
  imports Repo_Housing
begin

text \<open>
  Who can read what belongs to a family. \<open>gives P m\<close> says that \<open>m\<close> leaves the tables alone and
  that a value it returns satisfies \<open>P\<close> of the tables; its rules carry the membership check from
  \<open>hasFamilyAccess\<close> or the join with \<open>family_members\<close> to the rows a read returns.
\<close>

definition gives :: "(database \<Rightarrow> 'a \<Rightarrow> bool) \<Rightarrow> ('e, 'a) io \<Rightarrow> bool" where
  "gives P m \<longleftrightarrow> (\<forall>w. wo_db (snd (m w)) = wo_db w \<and> (\<forall>x. fst (m w) = Inr x \<longrightarrow> P (wo_db w) x))"

lemma givesI: "(\<And>w r w'. m w = (r, w') \<Longrightarrow> wo_db w' = wo_db w) \<Longrightarrow> (\<And>w x w'. m w = (Inr x, w') \<Longrightarrow> P (wo_db w) x) \<Longrightarrow> gives P m"
  unfolding gives_def by (metis prod.collapse)

lemma gives_kept: "gives P m \<Longrightarrow> m w = (r, w') \<Longrightarrow> wo_db w' = wo_db w"
  unfolding gives_def by (metis snd_conv)

lemma givesD: "gives P m \<Longrightarrow> m w = (Inr x, w') \<Longrightarrow> P (wo_db w) x"
  unfolding gives_def by (metis fst_conv)

lemma gives_ret [ensure_rules]: "(\<And>d. P d x) \<Longrightarrow> gives P (retP x)"
  by (simp add: gives_def retP_def)

lemma gives_throw [ensure_rules]: "gives P (throwP err)"
  by (simp add: gives_def throwP_def)

lemma gives_if [ensure_rules]: "(b \<Longrightarrow> gives P m) \<Longrightarrow> (\<not> b \<Longrightarrow> gives P n) \<Longrightarrow> gives P (if b then m else n)"
  by simp

lemma gives_bind:
  assumes m: "gives P m" and k: "\<And>x. gives (\<lambda>d y. P d x \<longrightarrow> Q d y) (k x)"
  shows "gives Q (bindP m k)"
proof (rule givesI)
  fix w r w'
  assume run: "bindP m k w = (r, w')"
  obtain r1 w1 where m1: "m w = (r1, w1)" by fastforce
  show "wo_db w' = wo_db w"
  proof (cases r1)
    case (Inl err)
    with run m1 gives_kept [OF m m1] show ?thesis by (simp add: bindP_def)
  next
    case (Inr x)
    with run m1 have "k x w1 = (r, w')" by (simp add: bindP_def)
    with gives_kept [OF k] gives_kept [OF m m1] show ?thesis by metis
  qed
next
  fix w y w'
  assume "bindP m k w = (Inr y, w')"
  then obtain x w1 where m1: "m w = (Inr x, w1)" and k1: "k x w1 = (Inr y, w')" by (rule bindP_InrE)
  from givesD [OF k k1] givesD [OF m m1] gives_kept [OF m m1] show "Q (wo_db w) y" by simp
qed

lemma gives_catch:
  assumes m: "gives P m" and h: "\<And>err. gives P (h err)"
  shows "gives P (catchP m h)"
proof (rule givesI)
  fix w r w'
  assume run: "catchP m h w = (r, w')"
  obtain r1 w1 where m1: "m w = (r1, w1)" by fastforce
  show "wo_db w' = wo_db w"
  proof (cases r1)
    case (Inr x)
    with run m1 gives_kept [OF m m1] show ?thesis by (simp add: catchP_def)
  next
    case (Inl err)
    with run m1 have "h err w1 = (r, w')" by (simp add: catchP_def)
    with gives_kept [OF h] gives_kept [OF m m1] show ?thesis by metis
  qed
next
  fix w x w'
  assume "catchP m h w = (Inr x, w')"
  then show "P (wo_db w) x"
  proof (rule catchP_InrE)
    assume "m w = (Inr x, w')"
    then show ?thesis by (rule givesD [OF m])
  next
    fix err u
    assume "m w = (Inl err, u)" "h err u = (Inr x, w')"
    with givesD [OF h] gives_kept [OF m] show ?thesis by metis
  qed
qed

lemma gives_mapErr [ensure_rules]: "gives P m \<Longrightarrow> gives P (mapErr g m)"
proof (rule givesI)
  fix w r w'
  assume "gives P m" "mapErr g m w = (r, w')"
  then show "wo_db w' = wo_db w" unfolding gives_def by (metis mapErr_snd snd_conv)
qed (simp add: givesD)

lemma gives_mono: "gives P m \<Longrightarrow> (\<And>d x. P d x \<Longrightarrow> Q d x) \<Longrightarrow> gives Q m"
  unfolding gives_def by blast

lemma gives_sql:
  assumes "\<And>n d x d'. st n d = Inr (x, d') \<Longrightarrow> d' = d \<and> P d x"
  shows "gives P (sql e st)"
proof (rule givesI)
  fix w r w'
  assume run: "sql e st w = (r, w')"
  from sql_tables(1) [OF run] assms show "wo_db w' = wo_db w" by blast
next
  fix w x w'
  assume "sql e st w = (Inr x, w')"
  then obtain d where "st (wo_tick w) (wo_db w) = Inr (x, d)" by (rule sql_Inr)
  with assms show "P (wo_db w) x" by blast
qed

lemma gives_query: "(\<And>n d x d'. st n d = Inr (x, d') \<Longrightarrow> d' = d \<and> P d x) \<Longrightarrow> gives P (query e st)"
  unfolding query_def by (intro gives_mapErr gives_sql)

section \<open>Reads\<close>

definition mayRead :: "env \<Rightarrow> database \<Rightarrow> ID \<Rightarrow> ID \<Rightarrow> bool" where
  "mayRead e d f viewer \<longleftrightarrow> (\<exists>u. uuid_in e viewer = Some u \<and> isMember d f u)"

text \<open>A read of one row, and a read of the rows of a named family.\<close>

definition rowRead :: "env \<Rightarrow> ID \<Rightarrow> ('r \<Rightarrow> ID) \<Rightarrow> database \<Rightarrow> 'r \<Rightarrow> bool" where
  "rowRead e viewer family d row \<longleftrightarrow> mayRead e d (family row) viewer"

definition familyRead :: "env \<Rightarrow> ID \<Rightarrow> ID \<Rightarrow> ('r \<Rightarrow> ID) \<Rightarrow> database \<Rightarrow> 'r list \<Rightarrow> bool" where
  "familyRead e viewer familyID family d rows \<longleftrightarrow>
     (\<exists>f. uuid_in e familyID = Some f \<and> mayRead e d f viewer \<and> (\<forall>row\<in>set rows. family row = f))"

lemma gives_access: "gives (\<lambda>d allowed. allowed \<longrightarrow> (\<exists>f. uuid_in e familyID = Some f \<and> mayRead e d f viewer)) (hasFamilyAccess e viewer familyID)"
  unfolding hasFamilyAccess_def mayRead_def
  by (intro ensure_rules gives_query) (auto simp: bindS_Inr castUUID_Inr)

text \<open>Behind \<open>hasFamilyAccess\<close>, the rows of the family.\<close>

lemma gives_family:
  assumes "\<And>f. uuid_in e familyID = Some f \<Longrightarrow> gives (\<lambda>d rows. \<forall>row\<in>set rows. family row = f) m"
    and "uuid_in e familyID = None \<Longrightarrow> gives (\<lambda>d rows. True) m"
  shows "gives (familyRead e viewer familyID family)
    (bindP (hasFamilyAccess e viewer familyID) (\<lambda>allowed. if \<not> allowed then throwP ErrForbidden else m))"
proof (rule gives_bind [OF gives_access])
  fix allowed
  show "gives (\<lambda>d rows. (allowed \<longrightarrow> (\<exists>f. uuid_in e familyID = Some f \<and> mayRead e d f viewer)) \<longrightarrow> familyRead e viewer familyID family d rows)
      (if \<not> allowed then throwP ErrForbidden else m)"
  proof (cases "uuid_in e familyID")
    case None
    then show ?thesis by (intro gives_if gives_throw gives_mono [OF assms(2)]) simp_all
  next
    case (Some f)
    then show ?thesis by (intro gives_if gives_throw gives_mono [OF assms(1)]) (auto simp: familyRead_def)
  qed
qed

lemma scan_family [simp]:
  "pp_FamilyID (scanPersonRow p) = pp_FamilyID p" "pp_FamilyID (scanLegacyPersonRow p) = pp_FamilyID p"
  "ho_FamilyID (scanHousingRow h) = ho_FamilyID h" "hg_FamilyID (scanHousingGroupRow g) = hg_FamilyID g"
  by (simp_all add: scanPersonRow_def scanLegacyPersonRow_def scanHousingRow_def scanHousingGroupRow_def)

lemma firstRow_filter: "firstRow (filter P xs) = Inr r \<Longrightarrow> r \<in> set xs \<and> P r"
  unfolding firstRow_Inr by (metis (mono_tags, lifting) filter_eq_Cons_iff in_set_conv_decomp)

lemma read_person: "gives (rowRead e viewer pp_FamilyID) (repoGetPersonProfile e personID viewer)"
proof -
  have "gives (rowRead e viewer pp_FamilyID) (sql e (selectPerson e personID viewer))"
    by (rule gives_sql) (auto simp: selectPerson_def bindS_Inr castUUID_Inr rowRead_def mayRead_def dest!: firstRow_filter)
  then show ?thesis unfolding repoGetPersonProfile_def
    by (intro gives_catch gives_if gives_mapErr gives_throw gives_bind gives_ret) (auto simp: rowRead_def)
qed

lemma read_people: "gives (familyRead e viewer familyID pp_FamilyID) (repoListPersonProfilesByFamily e familyID viewer)"
proof -
  have st: "gives (\<lambda>d rows. \<forall>f. uuid_in e familyID = Some f \<longrightarrow> (\<forall>row\<in>set rows. pp_FamilyID row = f)) (sql e (selectPeople e familyID))"
    by (rule gives_sql) (auto simp: selectPeople_def bindS_Inr castUUID_Inr)
  have rd: "gives (\<lambda>d rows. \<forall>f. uuid_in e familyID = Some f \<longrightarrow> (\<forall>row\<in>set rows. pp_FamilyID row = f))
      (catchP (bindP (sql e (selectPeople e familyID)) (\<lambda>rows. retP (map scanPersonRow rows))) (\<lambda>err.
         if isLinkedUserCompatibilityError e err
         then mapErr normalizeError (bindP (sql e (selectPeople e familyID)) (\<lambda>rows. retP (map scanLegacyPersonRow rows)))
         else throwP (normalizeError err)))"
    by (intro gives_catch gives_if gives_mapErr gives_throw gives_bind [OF st] gives_ret) auto
  show ?thesis unfolding repoListPersonProfilesByFamily_def
    by (rule gives_family; rule gives_mono [OF rd]) auto
qed

lemma read_groups: "gives (familyRead e viewer familyID hg_FamilyID) (repoListHousingGroups e familyID viewer)"
  unfolding repoListHousingGroups_def
  by (rule gives_family; rule gives_query) (auto simp: bindS_Inr castUUID_Inr)

lemma read_criteria: "gives (familyRead e viewer familyID hc_FamilyID) (repoListHousingCriteria e familyID viewer)"
  unfolding repoListHousingCriteria_def
  by (rule gives_family; rule gives_query) (auto simp: bindS_Inr castUUID_Inr activeCriteria_set)

lemma read_members: "gives (familyRead e viewer familyID me_FamilyID) (repoListFamilyMembers e viewer familyID)"
  unfolding repoListFamilyMembers_def
  by (rule gives_family; rule gives_query) (auto simp: bindS_Inr castUUID_Inr)

lemma read_history: "gives (familyRead e viewer familyID (\<lambda>_. the (uuid_in e familyID))) (repoListPersonIncomeHistoryByFamily e familyID viewer)"
  unfolding repoListPersonIncomeHistoryByFamily_def
  by (rule gives_family; rule gives_query) (auto simp: bindS_Inr castUUID_Inr)

lemma read_answers: "gives (familyRead e viewer familyID (\<lambda>_. the (uuid_in e familyID))) (repoListHousingAnswers e familyID viewer)"
  unfolding repoListHousingAnswers_def
  by (rule gives_family; rule gives_query) (auto simp: bindS_Inr castUUID_Inr)

lemma read_family: "gives (rowRead e viewer fa_ID) (repoGetFamily e familyID viewer)"
  unfolding repoGetFamily_def
  by (rule gives_query) (auto simp: bindS_Inr castUUID_Inr rowRead_def mayRead_def dest!: firstRow_filter)

lemma attach_family:
  "gives (\<lambda>d out. map ho_FamilyID out = map ho_FamilyID options) (attachHousingEvaluations e options familyID viewer)"
proof -
  have "gives (\<lambda>d x. True) (repoListHousingCriteria e familyID viewer)" "gives (\<lambda>d x. True) (repoListHousingAnswers e familyID viewer)"
    by (rule gives_mono [OF read_criteria] gives_mono [OF read_answers], simp)+
  then show ?thesis unfolding attachHousingEvaluations_def
    by (intro gives_if gives_ret gives_bind) (simp_all add: comp_def)
qed

lemma read_option: "gives (rowRead e viewer ho_FamilyID) (repoGetHousingOption e housingID viewer)"
  unfolding repoGetHousingOption_def
proof (rule gives_bind [where P = "rowRead e viewer ho_FamilyID"])
  show "gives (rowRead e viewer ho_FamilyID) (query e (\<lambda>n d. bindS (castUUID e housingID) (\<lambda>h. bindS (castUUID e viewer) (\<lambda>u.
       bindS (firstRow (filter (\<lambda>r. ho_ID r = h \<and> isMember d (ho_FamilyID r) u) (db_housing_options d))) (\<lambda>row.
       Inr (scanHousingRow row, d))))))"
    by (rule gives_query) (auto simp: bindS_Inr castUUID_Inr rowRead_def mayRead_def dest!: firstRow_filter)
  fix opt
  have "gives (\<lambda>d out. ho_FamilyID (hd out) = ho_FamilyID opt) (attachHousingEvaluations e [opt] (ho_FamilyID opt) viewer)"
    by (rule gives_mono [OF attach_family]) (auto simp: map_eq_Cons_conv)
  then show "gives (\<lambda>d y. rowRead e viewer ho_FamilyID d opt \<longrightarrow> rowRead e viewer ho_FamilyID d y)
      (bindP (attachHousingEvaluations e [opt] (ho_FamilyID opt) viewer) (\<lambda>opts. retP (hd opts)))"
    by (rule gives_bind) (simp add: gives_def retP_def rowRead_def)
qed

lemma read_options: "gives (familyRead e viewer familyID ho_FamilyID) (repoListHousingOptions e familyID viewer)"
  unfolding repoListHousingOptions_def
proof (rule gives_family)
  let ?rd = "query e (\<lambda>n d. bindS (castUUID e familyID) (\<lambda>f.
            Inr (map scanHousingRow (orderBy (\<lambda>a b. ho_CreatedAt b \<le> ho_CreatedAt a)
                   (filter (\<lambda>r. ho_FamilyID r = f) (db_housing_options d))), d)))"
  have st: "gives (\<lambda>d rows. \<forall>f. uuid_in e familyID = Some f \<longrightarrow> ho_FamilyID ` set rows \<subseteq> {f}) ?rd"
    by (rule gives_query) (auto simp: bindS_Inr castUUID_Inr)
  have all: "gives (\<lambda>d rows. \<forall>f. uuid_in e familyID = Some f \<longrightarrow> ho_FamilyID ` set rows \<subseteq> {f})
      (bindP ?rd (\<lambda>options. attachHousingEvaluations e options familyID viewer))"
  proof (rule gives_bind [OF st], rule gives_mono [OF attach_family])
    fix d :: database and out options :: "HousingOption list"
    assume "map ho_FamilyID out = map ho_FamilyID options"
    then have "ho_FamilyID ` set out = ho_FamilyID ` set options" by (metis list.set_map)
    then show "(\<forall>f. uuid_in e familyID = Some f \<longrightarrow> ho_FamilyID ` set options \<subseteq> {f}) \<longrightarrow>
        (\<forall>f. uuid_in e familyID = Some f \<longrightarrow> ho_FamilyID ` set out \<subseteq> {f})" by simp
  qed
  show "gives (\<lambda>d rows. \<forall>row\<in>set rows. ho_FamilyID row = f) (bindP ?rd (\<lambda>options. attachHousingEvaluations e options familyID viewer))"
    if "uuid_in e familyID = Some f" for f by (rule gives_mono [OF all]) (use that in auto)
  show "gives (\<lambda>d rows. True) (bindP ?rd (\<lambda>options. attachHousingEvaluations e options familyID viewer))"
    by (rule gives_mono [OF all]) simp
qed

section \<open>Properties\<close>

text \<open>
  A family is read only by its members. Every read of people, income history, housing
  options, groups, criteria, answers, members or the family itself leaves the tables unchanged, and
  it returns a value only if the viewer is a member of the family the returned rows belong to.
\<close>

theorem reads_need_membership:
  "gives (rowRead e viewer pp_FamilyID) (repoGetPersonProfile e personID viewer)
   \<and> gives (familyRead e viewer familyID pp_FamilyID) (repoListPersonProfilesByFamily e familyID viewer)
   \<and> gives (familyRead e viewer familyID (\<lambda>_. the (uuid_in e familyID))) (repoListPersonIncomeHistoryByFamily e familyID viewer)
   \<and> gives (rowRead e viewer ho_FamilyID) (repoGetHousingOption e housingID viewer)
   \<and> gives (familyRead e viewer familyID ho_FamilyID) (repoListHousingOptions e familyID viewer)
   \<and> gives (familyRead e viewer familyID hg_FamilyID) (repoListHousingGroups e familyID viewer)
   \<and> gives (familyRead e viewer familyID hc_FamilyID) (repoListHousingCriteria e familyID viewer)
   \<and> gives (familyRead e viewer familyID (\<lambda>_. the (uuid_in e familyID))) (repoListHousingAnswers e familyID viewer)
   \<and> gives (rowRead e viewer fa_ID) (repoGetFamily e familyID viewer)
   \<and> gives (familyRead e viewer familyID me_FamilyID) (repoListFamilyMembers e viewer familyID)"
  by (intro conjI read_person read_people read_history read_option read_options read_groups read_criteria read_answers
      read_family read_members)

end
