(* ===== verification/Round_Trips.thy ===== *)
theory Round_Trips
  imports Family_Isolation Family_Reads
begin

text \<open>
  What is written reads back: a created person profile or housing option is what a later read
  returns, the cleaning of the income overrides is stable, and optional user ids have one
  normal form.
\<close>

section \<open>People\<close>

text \<open>\<open>p\<close> carries the entered data of \<open>profile\<close>; identity, link, dates and times are the store's.\<close>

definition enteredAs :: "PersonProfile \<Rightarrow> PersonProfile \<Rightarrow> bool" where
  "enteredAs profile p \<longleftrightarrow> p = profile\<lparr>pp_ID := pp_ID p, pp_FamilyID := pp_FamilyID p, pp_LinkedUserID := pp_LinkedUserID p,
     pp_ExpectedIncomeStartDate := pp_ExpectedIncomeStartDate p, pp_GraduationDate := pp_GraduationDate p, pp_ORDDate := pp_ORDDate p,
     pp_CreatedAt := pp_CreatedAt p, pp_UpdatedAt := pp_UpdatedAt p\<rparr>"

lemma entered_gross: "enteredAs profile p \<Longrightarrow> pp_GrossMonthlyIncomeCents p = pp_GrossMonthlyIncomeCents profile"
  unfolding enteredAs_def by (drule arg_cong [where f = pp_GrossMonthlyIncomeCents]) simp

lemma insertPerson_entered:
  assumes "insertPerson e history linked profile n d = Inr (row, d')"
  shows "enteredAs profile (scanPersonRow row)" and "enteredAs profile (scanLegacyPersonRow row)"
    and "linked = [] \<Longrightarrow> pp_LinkedUserID row = []"
proof -
  from assms obtain f l p where l: "castUUIDOpt e linked = Inr l" and p: "castProfile profile = Inr p"
    and row: "row = p\<lparr>pp_ID := uuid_at e n, pp_FamilyID := f, pp_LinkedUserID := l, pp_CreatedAt := dbNow e n, pp_UpdatedAt := dbNow e n\<rparr>"
    unfolding insertPerson_def Let_def bindS_Inr by auto
  from p obtain a b c where "p = profile\<lparr>pp_ExpectedIncomeStartDate := a, pp_GraduationDate := b, pp_ORDDate := c\<rparr>"
    by (auto simp: castProfile_def castInt4_def bindS_Inr split: if_splits)
  with row show "enteredAs profile (scanPersonRow row)" "enteredAs profile (scanLegacyPersonRow row)"
    by (simp_all add: enteredAs_def scanPersonRow_def scanLegacyPersonRow_def)
  show "pp_LinkedUserID row = []" if "linked = []" using l that by (simp add: row castUUIDOpt_def)
qed

text \<open>A successful creation has stored the row it returns.\<close>

lemma create_stored:
  assumes "repoCreatePersonProfile e profile actor w = (Inr p, w1)" and ok: "people_ok (wo_db w)"
  obtains row where "row \<in> set (db_person_profiles (wo_db w1))" "p = scanPersonRow row" "people_ok (wo_db w1)" "enteredAs profile p"
    "pp_ID p \<notin> pp_ID ` set (db_person_profiles (wo_db w))"
proof -
  let ?linked = "normalizeOptionalUUID (uni_lower e) (pp_LinkedUserID profile)"
  have step: "people_ok d' \<and> set (db_person_profiles d) \<subseteq> set (db_person_profiles d') \<and> row \<in> set (db_person_profiles d')
      \<and> pp_ID row \<notin> pp_ID ` set (db_person_profiles d)"
    if "insertPerson e history linked profile n d = Inr (row, d')" "people_ok d" for n d row d' history linked
  proof -
    note ins = insertPerson_Inr [OF that(1)]
    have "fst (personKey row) \<notin> fst ` set (map personKey (db_person_profiles d))" using ins(2) by (simp add: image_image)
    then have "refs_ok (map personKey (db_person_profiles d) @ [personKey row]) (map historyKey (db_person_income_history d @ (if history then [historyOf row] else [])))"
      by (intro refs_ok_add [OF that(2) [unfolded people_ok_def]]) auto
    then show ?thesis using ins(2) by (auto simp: people_ok_def ins(3))
  qed
  from assms(1) obtain w0 where asrt: "assertFamilyWriter e actor (pp_FamilyID profile) w = (Inr (), w0)"
    and run: "catchP (bindP (sql e (insertPerson e True ?linked profile)) (\<lambda>row. retP (scanPersonRow row))) (\<lambda>err.
          if isMissingIncomeHistoryRelationError e err \<or> isLinkedUserCompatibilityError e err
          then mapErr normalizeError (bindP (sql e (insertPerson e False [] profile)) (\<lambda>row. retP (scanLegacyPersonRow row)))
          else throwP (normalizeError err)) w0 = (Inr p, w1)"
    unfolding repoCreatePersonProfile_def Let_def by (auto split: if_splits elim!: bindP_InrE)
  have w0: "wo_db w0 = wo_db w" using asrt by (auto elim: assertFamilyWriter_Inr)
  from run show thesis
  proof (rule catchP_InrE)
    assume "bindP (sql e (insertPerson e True ?linked profile)) (\<lambda>row. retP (scanPersonRow row)) w0 = (Inr p, w1)"
    then obtain row n where ins: "insertPerson e True ?linked profile n (wo_db w) = Inr (row, wo_db w1)" and p: "p = scanPersonRow row"
      using w0 by (auto elim!: bindP_InrE sql_Inr)
    with step [OF ins ok] insertPerson_entered(1) [OF ins] show thesis
      by (intro that [of row]) (simp_all add: scanPersonRow_def)
  next
    fix err u
    assume first: "bindP (sql e (insertPerson e True ?linked profile)) (\<lambda>row. retP (scanPersonRow row)) w0 = (Inl err, u)"
      and "(if isMissingIncomeHistoryRelationError e err \<or> isLinkedUserCompatibilityError e err
          then mapErr normalizeError (bindP (sql e (insertPerson e False [] profile)) (\<lambda>row. retP (scanLegacyPersonRow row)))
          else throwP (normalizeError err)) u = (Inr p, w1)"
    then obtain row n where ins: "insertPerson e False [] profile n (wo_db u) = Inr (row, wo_db w1)" and p: "p = scanLegacyPersonRow row"
      by (auto split: if_splits elim!: bindP_InrE sql_Inr)
    obtain q v where q: "sql e (insertPerson e True ?linked profile) w0 = (q, v)" by fastforce
    have "v = u" using first q by (auto simp: bindP_def retP_def split: sum.splits)
    have u: "people_ok (wo_db u)" "set (db_person_profiles (wo_db w)) \<subseteq> set (db_person_profiles (wo_db u))"
      using sql_tables(1) [OF q] step ok w0 unfolding \<open>v = u\<close> by (metis order_refl)+
    have "p = scanPersonRow row" using p insertPerson_entered(3) [OF ins] by (simp add: scanLegacyPersonRow_def scanPersonRow_def)
    have "pp_ID p = pp_ID row" by (simp add: p scanLegacyPersonRow_def scanPersonRow_def)
    with step [OF ins u(1)] u(2) have "pp_ID p \<notin> pp_ID ` set (db_person_profiles (wo_db w))" by auto
    with step [OF ins u(1)] insertPerson_entered(2) [OF ins] p \<open>p = scanPersonRow row\<close> show thesis
      by (intro that [of row]) simp_all
  qed
qed

lemma selectPerson_unique:
  assumes "selectPerson e i viewer n d = Inr (row', d')" and "people_ok d" and row: "row \<in> set (db_person_profiles d)"
    and "uuid_in e i = Some (pp_ID row)"
  shows "row' = row"
proof -
  from assms(1,4) have "row' \<in> set (db_person_profiles d)" "pp_ID row' = pp_ID row"
    by (auto simp: selectPerson_def bindS_Inr castUUID_Inr dest!: firstRow_filter)
  moreover have "inj_on pp_ID (set (db_person_profiles d))"
    using assms(2) by (simp add: people_ok_def refs_ok_def distinct_map comp_def inj_on_def)
  ultimately show ?thesis using row by (simp add: inj_on_def)
qed


definition example_person :: PersonProfile where
  "example_person = \<lparr>pp_ID = [], pp_FamilyID = ''f1'', pp_LinkedUserID = [], pp_Name = ''Mei'', pp_Age = 30, pp_RelationshipLabel = [],
     pp_EmploymentStatus = ''full_time_employee'', pp_GrossMonthlyIncomeCents = 500000,
     pp_ExpectedFutureIncomeCents = 0, pp_ExpectedIncomeStartDate = None, pp_GraduationDate = None, pp_ORDDate = None,
     pp_CashSavingsCents = 0, pp_CPFOACents = 0, pp_CPFSACents = 0, pp_CPFMACents = 0, pp_MonthlyExpensesCents = 0,
     pp_CreatedAt = 0, pp_UpdatedAt = 0\<rparr>"


section \<open>Normal forms\<close>

lemma isCanonicalUUID_plain:
  assumes "isCanonicalUUID s"
  shows "plain s" and "isASCII s" and "s \<noteq> []"
proof -
  have len: "length s = 36" using assms by (simp add: isCanonicalUUID_def)
  have ch: "s ! i = CHR ''-'' \<or> isHexRune (s ! i)" if "i < 36" for i
  proof -
    have "if i \<in> {8, 13, 18, 23} then s ! i = CHR ''-'' else isHexRune (s ! i)" using assms that unfolding isCanonicalUUID_def by blast
    then show ?thesis by (cases "i \<in> {8, 13, 18, 23}") (simp_all only: if_True if_False simp_thms)
  qed
  have printable: "32 < byte c \<and> byte c < 128" if "c = CHR ''-'' \<or> isHexRune c" for c
    using that by (auto simp: isHexRune_def)
  have all: "32 < byte c \<and> byte c < 128" if "c \<in> set s" for c
    using that ch printable len by (metis in_set_conv_nth)
  show ne: "s \<noteq> []" using len by auto
  show "isASCII s" using all by (auto simp: isASCII_def list_all_iff)
  show "plain s" using all [of "hd s"] all [of "last s"] ne by (simp add: plain_def)
qed

lemma hexRune_lower: "isHexRune c \<Longrightarrow> isHexRune (asciiLower c)"
proof -
  assume "isHexRune c"
  then consider "48 \<le> byte c \<and> byte c \<le> 57" | "97 \<le> byte c \<and> byte c \<le> 102" | "65 \<le> byte c \<and> byte c \<le> 70"
    unfolding isHexRune_def by blast
  then show ?thesis by cases (auto simp: asciiLower_def isHexRune_def)
qed

lemma isCanonicalUUID_lower:
  assumes "isCanonicalUUID s"
  shows "isCanonicalUUID (map asciiLower s)"
proof -
  have len: "length s = 36" using assms by (simp add: isCanonicalUUID_def)
  have "asciiLower (CHR ''-'') = CHR ''-''" by code_simp
  moreover have "if i \<in> {8, 13, 18, 23} then s ! i = CHR ''-'' else isHexRune (s ! i)" if "i < 36" for i
    using assms that unfolding isCanonicalUUID_def by blast
  ultimately have "if i \<in> {8, 13, 18, 23} then asciiLower (s ! i) = CHR ''-'' else isHexRune (asciiLower (s ! i))" if "i < 36" for i
    using that hexRune_lower by (cases "i \<in> {8, 13, 18, 23}") (metis (full_types))+
  then show ?thesis using len unfolding isCanonicalUUID_def by simp
qed

text \<open>
  The id of a linked user has one normal form. Whatever text a client sends,
  \<open>normalizeOptionalUUID\<close> yields the empty text or a canonical uuid in lower case without white
  space, and normalizing again changes nothing.
\<close>

theorem linked_user_normal_form:
  "(normalizeOptionalUUID uni v = [] \<or> (isCanonicalUUID (normalizeOptionalUUID uni v)
      \<and> map asciiLower (normalizeOptionalUUID uni v) = normalizeOptionalUUID uni v))
   \<and> normalizeOptionalUUID uni (normalizeOptionalUUID uni v) = normalizeOptionalUUID uni v"
proof (cases "trimSpace v \<noteq> [] \<and> isCanonicalUUID (trimSpace v)")
  case False
  then have "normalizeOptionalUUID uni v = []" by (auto simp: normalizeOptionalUUID_def Let_def)
  then show ?thesis by (simp add: normalizeOptionalUUID_def)
next
  case True
  define s where "s = trimSpace v"
  from True have can: "isCanonicalUUID s" by (simp add: s_def)
  note plain = isCanonicalUUID_plain [OF can]
  have low: "isCanonicalUUID (map asciiLower s)" by (rule isCanonicalUUID_lower [OF can])
  note lplain = isCanonicalUUID_plain [OF low]
  have idem: "map asciiLower (map asciiLower s) = map asciiLower s" by (simp add: comp_def)
  have n: "normalizeOptionalUUID uni v = map asciiLower s"
    using True plain(2) by (simp add: normalizeOptionalUUID_def Let_def s_def toLower_def)
  have "normalizeOptionalUUID uni (map asciiLower s) = map asciiLower s"
    using low lplain idem plain(3) by (simp add: normalizeOptionalUUID_def Let_def toLower_def)
  with n low idem show ?thesis by simp
qed

lemma cleanDIA_shape:
  "v \<in> set (cleanDIAOverrides vs) \<Longrightarrow> trimSpace (dia_PersonID v) = dia_PersonID v \<and> dia_PersonID v \<noteq> [] \<and> 0 \<le> dia_ProjectedIncomeCents v
     \<and> dia_PersonID v \<in> trimSpace ` dia_PersonID ` set vs"
  by (induction vs) (auto simp: Let_def split: if_splits)

lemma cleanDIA_clean:
  "(\<And>v. v \<in> set vs \<Longrightarrow> trimSpace (dia_PersonID v) = dia_PersonID v \<and> dia_PersonID v \<noteq> [] \<and> 0 \<le> dia_ProjectedIncomeCents v) \<Longrightarrow> cleanDIAOverrides vs = vs"
proof (induction vs)
  case (Cons v vs)
  have "trimSpace (dia_PersonID v) = dia_PersonID v" "dia_PersonID v \<noteq> []" "0 \<le> dia_ProjectedIncomeCents v" using Cons.prems [of v] by simp_all
  moreover have "cleanDIAOverrides vs = vs" using Cons by simp
  ultimately show ?case by (simp add: Let_def)
qed simp



end
