(* ===== verification/Platform_Config.thy ===== *)
theory Platform_Config
  imports Auth_Limit Go_Dates Float64
begin

text \<open>
  \<open>internal/platform/config/config.go\<close>: the configuration from environment variables, with the parts
  of \<open>strconv.Atoi\<close> and \<open>time.ParseDuration\<close> it rests on. The lemmas show which texts are read as
  which numbers and durations, and that nothing wraps around on the way.
\<close>

section \<open>Numbers and durations\<close>

text \<open>\<open>strconv.Atoi\<close>: an optional sign, decimal digits, and a value of 64 bits.\<close>

definition decimal :: "string \<Rightarrow> int option" where
  "decimal ds = (if ds \<noteq> [] \<and> list_all isDigit ds then Some (int (decVal ds)) else None)"

definition atoi :: "string \<Rightarrow> int64 option" where
  "atoi s =
     (case (case s of [] \<Rightarrow> None
            | c # ds \<Rightarrow> if c = CHR ''-'' then map_option uminus (decimal ds) else if c = CHR ''+'' then decimal ds else decimal s)
      of None \<Rightarrow> None | Some n \<Rightarrow> if in64 n then Some n else None)"

text \<open>\<open>leadingInt\<close> and \<open>leadingFraction\<close> of the package \<open>time\<close>: the former fails on overflow, the latter
  ignores the digits after the last one that fits.\<close>

fun leadingInt :: "nat \<Rightarrow> string \<Rightarrow> (nat \<times> string) option" where
  "leadingInt x [] = Some (x, [])"
| "leadingInt x (c # s) =
     (if \<not> isDigit c then Some (x, c # s)
      else if x > 2 ^ 63 div 10 then None
      else let y = x * 10 + digitVal c in if y > 2 ^ 63 then None else leadingInt y s)"

fun leadingFraction :: "nat \<Rightarrow> float64 \<Rightarrow> bool \<Rightarrow> string \<Rightarrow> nat \<times> float64 \<times> string" where
  "leadingFraction x scale overflow [] = (x, scale, [])"
| "leadingFraction x scale overflow (c # s) =
     (if \<not> isDigit c then (x, scale, c # s)
      else if overflow \<or> x > (2 ^ 63 - 1) div 10 then leadingFraction x scale True s
      else let y = x * 10 + digitVal c
           in if y > 2 ^ 63 then leadingFraction x scale True s else leadingFraction y (fmul scale (Fin 10)) False s)"

definition unitChar :: "char \<Rightarrow> bool" where
  "unitChar c \<longleftrightarrow> c \<noteq> CHR ''.'' \<and> \<not> isDigit c"

text \<open>The units in nanoseconds; the micro sign and the Greek mu are two bytes of UTF-8 each.\<close>

definition unitMap :: "string \<Rightarrow> nat option" where
  "unitMap u =
     (if u = ''ns'' then Some 1
      else if u = ''us'' \<or> u = [CHR 0xC2, CHR 0xB5, CHR ''s''] \<or> u = [CHR 0xCE, CHR 0xBC, CHR ''s''] then Some (10 ^ 3)
      else if u = ''ms'' then Some (10 ^ 6)
      else if u = ''s'' then Some (10 ^ 9)
      else if u = ''m'' then Some (60 * 10 ^ 9)
      else if u = ''h'' then Some (3600 * 10 ^ 9)
      else None)"

text \<open>\<open>v\<close> units and the fraction \<open>f / scale\<close> of one; the product of floats is finite, so the conversion
  to \<open>uint64\<close> truncates.\<close>

definition truncateFloat :: "float64 \<Rightarrow> nat" where
  "truncateFloat r = (case r of Fin q \<Rightarrow> nat \<lfloor>q\<rfloor> | _ \<Rightarrow> 0)"

definition unitValue :: "nat \<Rightarrow> nat \<Rightarrow> float64 \<Rightarrow> nat \<Rightarrow> nat option" where
  "unitValue v f scale unit =
     (if v > 2 ^ 63 div unit then None
      else let v = v * unit in
        if f = 0 then Some v
        else let v = v + truncateFloat (fmul (fofint (int f)) (fdiv (fofint (int unit)) scale))
             in if v > 2 ^ 63 then None else Some v)"

text \<open>One number with its unit at the front of a non-empty text.\<close>

definition durationPart :: "string \<Rightarrow> (nat \<times> string) option" where
  "durationPart s =
     (if \<not> (hd s = CHR ''.'' \<or> isDigit (hd s)) then None
      else case leadingInt 0 s of None \<Rightarrow> None
      | Some (v, s1) \<Rightarrow>
          let pre = (length s1 \<noteq> length s);
              (f, scale, s2, post) =
                (if s1 \<noteq> [] \<and> hd s1 = CHR ''.''
                 then (let (f, scale, r) = leadingFraction 0 (Fin 1) False (tl s1) in (f, scale, r, length r \<noteq> length (tl s1)))
                 else (0, Fin 1, s1, False));
              u = takeWhile unitChar s2
          in if \<not> pre \<and> \<not> post then None
             else if u = [] then None
             else case unitMap u of None \<Rightarrow> None
             | Some unit \<Rightarrow> map_option (\<lambda>v. (v, dropWhile unitChar s2)) (unitValue v f scale unit))"

lemma leadingInt_length: "leadingInt x s = Some (y, r) \<Longrightarrow> length r \<le> length s"
  by (induction x s rule: leadingInt.induct) (auto simp: Let_def split: if_splits)

lemma leadingFraction_length: "leadingFraction x scale b s = (y, z, r) \<Longrightarrow> length r \<le> length s"
  by (induction x scale b s rule: leadingFraction.induct) (auto simp: Let_def split: if_splits)

lemma durationPart_shorter:
  assumes "durationPart s = Some (v, r)"
  shows "length r < length s"
proof -
  have drop: "length (dropWhile unitChar t) < length t" if "takeWhile unitChar t \<noteq> []" for t
    using that by (cases t) (auto simp: less_Suc_eq_le length_dropWhile_le split: if_splits)
  have frac: "length r < length s" if "leadingFraction x scale b t = (f, sc, s2)" "takeWhile unitChar s2 \<noteq> []" "r = dropWhile unitChar s2"
    "length t \<le> length s" for x scale b t f sc s2
    using leadingFraction_length [OF that(1)] drop [OF that(2)] that(3,4) by simp
  show ?thesis
    using assms unfolding durationPart_def
    by (auto simp: Let_def split: if_splits option.splits prod.splits dest!: leadingInt_length dest: drop frac)
qed

function durationLoop :: "nat \<Rightarrow> string \<Rightarrow> nat option" where
  "durationLoop d s =
     (if s = [] then Some d
      else case durationPart s of None \<Rightarrow> None
      | Some (v, r) \<Rightarrow> let d = (d + v) mod 2 ^ 64 in if d > 2 ^ 63 then None else durationLoop d r)"
  by auto

termination durationLoop
  by (relation "measure (\<lambda>(d, s). length s)") (auto simp: durationPart_shorter)

declare durationLoop.simps [simp del]

definition parseDuration :: "string \<Rightarrow> duration option" where
  "parseDuration s0 =
     (let neg = (s0 \<noteq> [] \<and> hd s0 = CHR ''-'');
          s = (if s0 \<noteq> [] \<and> (hd s0 = CHR ''-'' \<or> hd s0 = CHR ''+'') then tl s0 else s0)
      in if s = ''0'' then Some 0
         else if s = [] then None
         else case durationLoop 0 s of None \<Rightarrow> None
         | Some d \<Rightarrow> if neg then Some (i64 (- int d)) else if d > 2 ^ 63 - 1 then None else Some (int d))"

section \<open>The configuration\<close>

record AppConfig =
  ac_AppEnv :: string
  ac_GRPCAddr :: string
  ac_GRPCTLSCertFile :: string
  ac_GRPCTLSKeyFile :: string
  ac_DatabaseURL :: string
  ac_BootstrapAdminEmail :: string
  ac_BootstrapAdminPassword :: string
  ac_BootstrapAdminDisplayName :: string
  ac_ShutdownTimeout :: duration
  ac_SessionTokenBytes :: int64
  ac_SessionTTL :: duration
  ac_PasswordMemoryKB :: nat
  ac_PasswordIterations :: nat
  ac_PasswordParallelism :: nat
  ac_AuthLimits :: Config

type_synonym getenv = "string \<Rightarrow> string"

definition envText :: "getenv \<Rightarrow> string \<Rightarrow> string \<Rightarrow> string" where
  "envText getenv key fallback = (let v = trimSpace (getenv key) in if v \<noteq> [] then v else fallback)"

definition envInt :: "getenv \<Rightarrow> string \<Rightarrow> int64 \<Rightarrow> int64" where
  "envInt getenv key fallback =
     (let v = trimSpace (getenv key) in if v = [] then fallback else case atoi v of None \<Rightarrow> fallback | Some n \<Rightarrow> n)"

definition envDuration :: "getenv \<Rightarrow> string \<Rightarrow> duration \<Rightarrow> duration" where
  "envDuration getenv key fallback =
     (let v = trimSpace (getenv key) in if v = [] then fallback else case parseDuration v of None \<Rightarrow> fallback | Some d \<Rightarrow> d)"

definition toUint :: "nat \<Rightarrow> int64 \<Rightarrow> nat" where
  "toUint bits n = nat (n mod 2 ^ bits)"

definition Load :: "getenv \<Rightarrow> AppConfig" where
  "Load getenv =
     \<lparr>ac_AppEnv = envText getenv ''APP_ENV'' ''development'',
      ac_GRPCAddr = envText getenv ''GRPC_ADDR'' '':50051'',
      ac_GRPCTLSCertFile = envText getenv ''GRPC_TLS_CERT_FILE'' [],
      ac_GRPCTLSKeyFile = envText getenv ''GRPC_TLS_KEY_FILE'' [],
      ac_DatabaseURL = envText getenv ''DATABASE_URL'' [],
      ac_BootstrapAdminEmail = envText getenv ''BOOTSTRAP_ADMIN_EMAIL'' [],
      ac_BootstrapAdminPassword = envText getenv ''BOOTSTRAP_ADMIN_PASSWORD'' [],
      ac_BootstrapAdminDisplayName = envText getenv ''BOOTSTRAP_ADMIN_DISPLAY_NAME'' ''Bootstrap Admin'',
      ac_ShutdownTimeout = envDuration getenv ''SHUTDOWN_TIMEOUT'' (10 * 10 ^ 9),
      ac_SessionTokenBytes = envInt getenv ''SESSION_TOKEN_BYTES'' 32,
      ac_SessionTTL = envDuration getenv ''SESSION_TTL'' (24 * 3600 * 10 ^ 9),
      ac_PasswordMemoryKB = toUint 32 (envInt getenv ''PASSWORD_MEMORY_KB'' (64 * 1024)),
      ac_PasswordIterations = toUint 32 (envInt getenv ''PASSWORD_ITERATIONS'' 3),
      ac_PasswordParallelism = toUint 8 (envInt getenv ''PASSWORD_PARALLELISM'' 2),
      ac_AuthLimits = \<lparr>cf_IPLimit = envInt getenv ''AUTH_IP_LIMIT'' 120, cf_AccountLimit = envInt getenv ''AUTH_ACCOUNT_LIMIT'' 5,
        cf_Window = envDuration getenv ''AUTH_RATE_WINDOW'' (60 * 10 ^ 9), cf_MaxConcurrent = envInt getenv ''AUTH_MAX_CONCURRENT'' 2,
        cf_MaxEntries = 0\<rparr>\<rparr>"

text \<open>\<open>strings.EqualFold\<close> with \<open>development\<close>: no letter of the word folds to a character outside ASCII.\<close>

datatype log_level = LevelDebug | LevelInfo

definition LogLevel :: "AppConfig \<Rightarrow> log_level" where
  "LogLevel c = (if map asciiLower (ac_AppEnv c) = ''development'' then LevelDebug else LevelInfo)"

section \<open>Reading numbers\<close>

abbreviation readDigits :: "nat \<Rightarrow> string \<Rightarrow> nat" where
  "readDigits \<equiv> foldl (\<lambda>acc c. 10 * acc + digitVal c)"

lemma readDigits_grows: "y \<le> readDigits y cs"
proof (induction cs arbitrary: y)
  case (Cons c cs)
  have "y \<le> 10 * y + digitVal c" by simp
  also have "\<dots> \<le> readDigits (10 * y + digitVal c) cs" by (rule Cons)
  finally show ?case by simp
qed simp

lemma leadingInt_digits:
  assumes "list_all isDigit ds" and "r = [] \<or> \<not> isDigit (hd r)"
  shows "leadingInt x (ds @ r) = (if readDigits x ds \<le> 2 ^ 63 \<or> ds = [] then Some (readDigits x ds, r) else None)"
  using assms(1)
proof (induction ds arbitrary: x)
  case Nil
  then show ?case using assms(2) by (cases r) simp_all
next
  case (Cons c ds)
  let ?y = "10 * x + digitVal c"
  have IH: "leadingInt ?y (ds @ r) = (if readDigits ?y ds \<le> 2 ^ 63 \<or> ds = [] then Some (readDigits ?y ds, r) else None)"
    using Cons by simp
  have d: "isDigit c" using Cons.prems by simp
  show ?case
  proof (cases "?y \<le> 2 ^ 63")
    case True
    then have "\<not> x > 2 ^ 63 div 10" by simp
    with True d have "leadingInt x (c # ds @ r) = leadingInt ?y (ds @ r)" by (simp add: Let_def mult.commute)
    with IH True show ?thesis by (cases "ds = []") simp_all
  next
    case False
    then have "\<not> readDigits ?y ds \<le> 2 ^ 63" using readDigits_grows [of ?y ds] by linarith
    moreover have "leadingInt x (c # ds @ r) = None" using False d by (simp add: Let_def mult.commute)
    ultimately show ?thesis by simp
  qed
qed

lemma leadingInt_itoa:
  assumes "r = [] \<or> \<not> isDigit (hd r)"
  shows "leadingInt 0 (itoa n @ r) = (if n \<le> 2 ^ 63 then Some (n, r) else None)"
  using leadingInt_digits [OF itoa_digits assms, of 0 n] decVal_itoa [of n] by (simp add: decVal_def)

lemma unitMap_Some:
  assumes "unitMap u = Some k"
  shows "0 < k" and "u \<noteq> []" and "list_all unitChar u"
  using assms by (auto simp: unitMap_def unitChar_def isDigit_def split: if_splits)

type_synonym part = "nat \<times> string"

definition partText :: "part \<Rightarrow> string" where
  "partText p = itoa (fst p) @ snd p"

definition partValue :: "part \<Rightarrow> nat" where
  "partValue p = fst p * the (unitMap (snd p))"

definition durationText :: "part list \<Rightarrow> string" where
  "durationText ps = concat (map partText ps)"

lemma partText_hd: "partText p \<noteq> []" "isDigit (hd (partText p))"
  using itoa_digits [of "fst p"] by (cases "itoa (fst p)"; simp add: partText_def)+

lemma durationPart_part:
  assumes u: "unitMap (snd p) = Some k" and r: "r = [] \<or> isDigit (hd r)"
  shows "durationPart (partText p @ r) = (if partValue p \<le> 2 ^ 63 then Some (partValue p, r) else None)"
proof -
  note unit = unitMap_Some [OF u]
  have h: "isDigit (hd (partText p @ r))" using partText_hd [of p] by simp
  have hu: "\<not> isDigit (hd (snd p))" "hd (snd p) \<noteq> CHR ''.''" using unit(2,3) by (cases "snd p"; simp add: unitChar_def)+
  have i: "leadingInt 0 (partText p @ r) = (if fst p \<le> 2 ^ 63 then Some (fst p, snd p @ r) else None)"
    using leadingInt_itoa [of "snd p @ r" "fst p"] unit(2) hu(1) by (simp add: partText_def)
  have tw: "takeWhile unitChar (snd p @ r) = snd p" "dropWhile unitChar (snd p @ r) = r"
    using unit(3) r by (cases r; simp add: takeWhile_append dropWhile_append list_all_iff unitChar_def)+
  have pre: "length (snd p @ r) \<noteq> length (partText p @ r)" by (simp add: partText_def)
  have "fst p > 2 ^ 63 div k \<longleftrightarrow> \<not> partValue p \<le> 2 ^ 63"
    using unit(1) by (simp add: partValue_def u not_le div_less_iff_less_mult)
  moreover have "partValue p \<le> 2 ^ 63 \<Longrightarrow> fst p \<le> 2 ^ 63"
    using unit(1) by (simp add: partValue_def u) (metis le_trans mult_le_mono2 nat_mult_1_right Suc_leI One_nat_def)
  ultimately show ?thesis
    using h i tw pre unit(2) hu u by (auto simp: durationPart_def Let_def unitValue_def partValue_def split: if_splits)
qed

lemma durationLoop_parts:
  assumes "\<forall>p\<in>set ps. unitMap (snd p) \<noteq> None" and "d \<le> 2 ^ 63" and "d + sum_list (map partValue ps) < 2 ^ 64"
  shows "durationLoop d (durationText ps) = (if d + sum_list (map partValue ps) \<le> 2 ^ 63 then Some (d + sum_list (map partValue ps)) else None)"
  using assms
proof (induction ps arbitrary: d)
  case Nil
  then show ?case by (simp add: durationText_def durationLoop.simps)
next
  case (Cons p ps)
  from Cons.prems(1) obtain k where k: "unitMap (snd p) = Some k" by auto
  have r: "durationText ps = [] \<or> isDigit (hd (durationText ps))"
    using partText_hd by (cases ps) (simp_all add: durationText_def)
  have ne: "partText p \<noteq> []" by (rule partText_hd)
  have m: "(d + partValue p) mod 2 ^ 64 = d + partValue p" using Cons.prems(3) by simp
  show ?case
  proof (cases "d + partValue p \<le> 2 ^ 63")
    case True
    then have "durationLoop d (partText p @ durationText ps) = durationLoop (d + partValue p) (durationText ps)"
      using durationPart_part [OF k r] ne m by (subst durationLoop.simps) (simp add: Let_def)
    moreover have "durationLoop (d + partValue p) (durationText ps)
      = (if d + partValue p + sum_list (map partValue ps) \<le> 2 ^ 63 then Some (d + partValue p + sum_list (map partValue ps)) else None)"
      using Cons.prems True by (intro Cons.IH) simp_all
    ultimately show ?thesis by (simp add: durationText_def add.assoc)
  next
    case False
    then have "durationLoop d (partText p @ durationText ps) = None"
      using durationPart_part [OF k r] ne m by (subst durationLoop.simps) (simp add: Let_def)
    with False show ?thesis by (simp add: durationText_def)
  qed
qed

definition intText :: "int \<Rightarrow> string" where
  "intText n = (if n < 0 then CHR ''-'' # itoa (nat (- n)) else itoa (nat n))"

lemma decimal_itoa: "decimal (itoa n) = Some (int n)"
  using itoa_digits [of n] by (simp add: decimal_def)

lemma itoa_hd_plain: "hd (itoa n) \<noteq> CHR ''-''" "hd (itoa n) \<noteq> CHR ''+''" "hd (itoa n) \<noteq> CHR ''.''"
  using itoa_digits [of n] by (cases "itoa n"; auto simp: isDigit_def)+

lemma atoi_intText: "atoi (intText n) = (if in64 n then Some n else None)"
proof (cases "n < 0")
  case True
  then show ?thesis by (simp add: atoi_def intText_def decimal_itoa)
next
  case False
  then show ?thesis using itoa_hd_plain [of "nat n"] decimal_itoa [of "nat n"]
    by (cases "itoa (nat n)") (simp_all add: atoi_def intText_def)
qed

section \<open>Properties\<close>

text \<open>
  Property C38: configured numbers and durations are read exactly. A variable that holds the decimal
  text of an integer, with any white space around it, is that integer if it fits 64 bits and the
  default otherwise; one that holds whole numbers with units, such as \<open>1h30m\<close>, is their exact sum in
  nanoseconds if that fits a duration and the default otherwise, as long as the sum is below
  \<open>2 ^ 64\<close>.
\<close>

theorem config_values_exact:
  assumes "trimSpace (getenv key) = intText n"
    and "trimSpace (getenv key2) = durationText ps" "ps \<noteq> []" "\<forall>p\<in>set ps. unitMap (snd p) \<noteq> None" "sum_list (map partValue ps) < 2 ^ 64"
  shows "envInt getenv key fallback = (if in64 n then n else fallback)
    \<and> envDuration getenv key2 fallback2 = (if sum_list (map partValue ps) < 2 ^ 63 then int (sum_list (map partValue ps)) else fallback2)"
proof -
  have "envInt getenv key fallback = (if in64 n then n else fallback)"
    using atoi_intText [of n] by (simp add: envInt_def Let_def assms(1)) (simp add: intText_def)
  moreover have "envDuration getenv key2 fallback2 = (if sum_list (map partValue ps) < 2 ^ 63 then int (sum_list (map partValue ps)) else fallback2)"
  proof -
    let ?s = "durationText ps"
    from assms(3) obtain p qs where ps: "ps = p # qs" by (cases ps) simp_all
    from assms(4) obtain k where k: "unitMap (snd p) = Some k" by (auto simp: ps)
    have hd: "?s \<noteq> []" "hd ?s \<noteq> CHR ''-''" "hd ?s \<noteq> CHR ''+''"
      using itoa_hd_plain [of "fst p"] partText_hd [of p] by (simp_all add: ps durationText_def partText_def)
    have "1 < length ?s" using unitMap_Some(2) [OF k] by (cases "snd p"; cases "itoa (fst p)") (simp_all add: ps durationText_def partText_def)
    then have "?s \<noteq> ''0''" by auto
    with hd durationLoop_parts [OF assms(4), of 0] assms(5) show ?thesis
      by (auto simp: envDuration_def parseDuration_def assms(2) Let_def)
  qed
  ultimately show ?thesis by blast
qed

definition example_getenv :: getenv where
  "example_getenv key = (if key = ''SESSION_TOKEN_BYTES'' then '' 48'' else if key = ''SESSION_TTL'' then ''1h30m''
     else if key = ''PASSWORD_PARALLELISM'' then ''256'' else [])"

theorem config_values_exact_witness:
  "ac_SessionTokenBytes (Load example_getenv) = 48 \<and> ac_SessionTTL (Load example_getenv) = 90 * 60 * 10 ^ 9"
proof -
  have t: "trimSpace (example_getenv ''SESSION_TOKEN_BYTES'') = intText 48"
    "trimSpace (example_getenv ''SESSION_TTL'') = durationText [(1, ''h''), (30, ''m'')]" by code_simp+
  from config_values_exact [of example_getenv "''SESSION_TOKEN_BYTES''" 48 "''SESSION_TTL''" "[(1, ''h''), (30, ''m'')]" 32 "24 * 3600 * 10 ^ 9", OF t] show ?thesis
    by (simp add: Load_def partValue_def unitMap_def in64_def)
qed

text \<open>A configured number of threads is cut to eight bits, so 256 becomes 0, which Argon2id does not
  accept.\<close>

lemma parallelism_wraps: "ac_PasswordParallelism (Load example_getenv) = 0"
proof -
  have "envInt example_getenv ''PASSWORD_PARALLELISM'' 2 = 256" by code_simp
  then show ?thesis by (simp add: Load_def toUint_def)
qed

end
