(* ===== verification/Calc_CPF.thy ===== *)
theory Calc_CPF
  imports Domain_Model
begin

text \<open>
  \<open>internal/calculation/cpf.go\<close>: the monthly CPF contribution of an employee. Wages and
  amounts are \<open>int64\<close> cents, so every product and sum is wrapped. The lemmas show that
  no wrap-around occurs (the wage ceiling bounds every product), that the two shares add up
  to the total and the three accounts to the total, and how the amounts grow with the wage.
\<close>

section \<open>Definitions\<close>

definition cpfOrdinaryWageCeilingCents2026 :: int64 where
  "cpfOrdinaryWageCeilingCents2026 = 800000"

record CPFContribution =
  cpf_CPFApplicableWageCents :: int64
  cpf_EmployeeCents :: int64
  cpf_EmployerCents :: int64
  cpf_TotalCents :: int64
  cpf_OrdinaryAccountCents :: int64
  cpf_SpecialAccountCents :: int64
  cpf_MedisaveAccountCents :: int64

definition zeroCPF :: CPFContribution where
  "zeroCPF = \<lparr>cpf_CPFApplicableWageCents = 0, cpf_EmployeeCents = 0, cpf_EmployerCents = 0,
     cpf_TotalCents = 0, cpf_OrdinaryAccountCents = 0, cpf_SpecialAccountCents = 0,
     cpf_MedisaveAccountCents = 0\<rparr>"

record cpfRate =
  employerBps :: int64
  employeeBps :: int64

definition normalEmployeeCPFApplies :: "EmploymentStatus \<Rightarrow> bool" where
  "normalEmployeeCPFApplies status \<longleftrightarrow> status = EmploymentFullTime"

definition cpfRateForAge :: "int \<Rightarrow> cpfRate" where
  "cpfRateForAge age =
     (if age \<le> 55 then \<lparr>employerBps = 1700, employeeBps = 2000\<rparr>
      else if age \<le> 60 then \<lparr>employerBps = 1600, employeeBps = 1800\<rparr>
      else if age \<le> 65 then \<lparr>employerBps = 1250, employeeBps = 1250\<rparr>
      else if age \<le> 70 then \<lparr>employerBps = 900, employeeBps = 750\<rparr>
      else \<lparr>employerBps = 750, employeeBps = 500\<rparr>)"

definition centsByBps :: "int64 \<Rightarrow> int64 \<Rightarrow> int64" where
  "centsByBps cents bps = quot64 (i64 (cents * bps)) 10000"

definition floorToDollar :: "int64 \<Rightarrow> int64" where
  "floorToDollar cents = i64 (quot64 cents 100 * 100)"

definition roundToNearestDollar :: "int64 \<Rightarrow> int64" where
  "roundToNearestDollar cents =
     (let dollars = quot64 cents 100;
          dollars' = (if 50 \<le> rem64 cents 100 then i64 (dollars + 1) else dollars)
      in i64 (dollars' * 100))"

definition minInt64 :: "int64 \<Rightarrow> int64 \<Rightarrow> int64" where
  "minInt64 a b = (if a < b then a else b)"

definition maxInt64 :: "int64 \<Rightarrow> int64 \<Rightarrow> int64" where
  "maxInt64 a b = (if a > b then a else b)"

definition estimateCPFAllocation :: "int \<Rightarrow> int64 \<Rightarrow> int64 \<times> int64 \<times> int64" where
  "estimateCPFAllocation age totalCents =
     (if age \<le> 35 then (centsByBps totalCents 6216, centsByBps totalCents 1621,
        i64 (i64 (totalCents - centsByBps totalCents 6216) - centsByBps totalCents 1621))
      else if age \<le> 45 then (centsByBps totalCents 5677, centsByBps totalCents 1892,
        i64 (i64 (totalCents - centsByBps totalCents 5677) - centsByBps totalCents 1892))
      else if age \<le> 50 then (centsByBps totalCents 5136, centsByBps totalCents 2162,
        i64 (i64 (totalCents - centsByBps totalCents 5136) - centsByBps totalCents 2162))
      else (centsByBps totalCents 4054, centsByBps totalCents 3108,
        i64 (i64 (totalCents - centsByBps totalCents 4054) - centsByBps totalCents 3108)))"

definition CalculateCPFContribution :: "int \<Rightarrow> int64 \<Rightarrow> EmploymentStatus \<Rightarrow> CPFContribution" where
  "CalculateCPFContribution age monthlyWageCents status =
     (if \<not> normalEmployeeCPFApplies status \<or> monthlyWageCents \<le> 5000 then zeroCPF
      else let rate = cpfRateForAge age;
               applicableWage = minInt64 monthlyWageCents cpfOrdinaryWageCeilingCents2026;
               (employee, total) =
                 (if applicableWage \<le> 50000 then (0, centsByBps applicableWage (employerBps rate))
                  else if applicableWage \<le> 75000 then
                    (let employee = centsByBps (i64 (applicableWage - 50000)) 1500
                     in (employee, i64 (centsByBps applicableWage (employerBps rate) + employee)))
                  else (centsByBps applicableWage (employeeBps rate),
                        centsByBps applicableWage (i64 (employeeBps rate + employerBps rate))));
               employee = floorToDollar employee;
               total = roundToNearestDollar total;
               employer = maxInt64 (i64 (total - employee)) 0;
               (oa, sa, ma) = estimateCPFAllocation age total
           in \<lparr>cpf_CPFApplicableWageCents = applicableWage, cpf_EmployeeCents = employee,
               cpf_EmployerCents = employer, cpf_TotalCents = total,
               cpf_OrdinaryAccountCents = oa, cpf_SpecialAccountCents = sa,
               cpf_MedisaveAccountCents = ma\<rparr>)"

section \<open>Arithmetic without wrap-around\<close>

lemma maxInt64_max [simp]: "maxInt64 a b = max a b"
  by (simp add: maxInt64_def max_def)

lemma minInt64_min [simp]: "minInt64 a b = min a b"
  by (simp add: minInt64_def min_def)

lemma in64_lit: "\<bar>x\<bar> \<le> 9223372036854775807 \<Longrightarrow> in64 x"
  by (auto simp: in64_def abs_le_iff)

text \<open>Shares in basis points and whole dollars over unbounded integers; kept folded in proofs.\<close>

definition share :: "int \<Rightarrow> int \<Rightarrow> int" where
  "share c b = c * b div 10000"

definition dollars :: "int \<Rightarrow> int" where
  "dollars c = c div 100 * 100"

lemma share_nonneg: "0 \<le> c \<Longrightarrow> 0 \<le> b \<Longrightarrow> 0 \<le> share c b"
  by (simp add: share_def pos_imp_zdiv_nonneg_iff)

lemma share_mono: "0 \<le> c \<Longrightarrow> c \<le> d \<Longrightarrow> 0 \<le> b \<Longrightarrow> b \<le> b' \<Longrightarrow> share c b \<le> share d b'"
  unfolding share_def by (intro zdiv_mono1 mult_mono) simp_all

lemma share_mono_prod: "c * b \<le> d * b' \<Longrightarrow> share c b \<le> share d b'"
  unfolding share_def by (intro zdiv_mono1) simp_all

lemma share_add_le: "share c a + share d b \<le> (c * a + d * b) div 10000"
  using pos_mod_sign [of 10000 "c * a"] pos_mod_sign [of 10000 "d * b"]
  by (simp add: share_def div_add1_eq [of "c * a" "d * b" 10000] pos_imp_zdiv_nonneg_iff)

lemma share_le: "0 \<le> c \<Longrightarrow> b \<le> 10000 \<Longrightarrow> share c b \<le> c"
proof -
  assume "0 \<le> c" "b \<le> 10000"
  then have "c * b \<le> c * 10000" by (intro mult_left_mono)
  from zdiv_mono1 [OF this, of 10000] show ?thesis by (simp add: share_def)
qed

lemma dollars_mono: "c \<le> d \<Longrightarrow> dollars c \<le> dollars d"
  unfolding dollars_def by (intro mult_right_mono zdiv_mono1) simp_all

lemma dollars_nonneg: "0 \<le> c \<Longrightarrow> 0 \<le> dollars c"
  by (simp add: dollars_def pos_imp_zdiv_nonneg_iff)

lemma dollars_le: "dollars c \<le> c"
proof -
  have "c div 100 * 100 + c mod 100 = c" "0 \<le> c mod 100" by simp_all
  then show ?thesis unfolding dollars_def by linarith
qed

lemma dvd_dollars: "100 dvd dollars c"
  by (simp add: dollars_def)

lemma centsByBps_share:
  assumes "0 \<le> c" and "0 \<le> b" and "c * b < 2 ^ 63"
  shows "centsByBps c b = share c b"
proof -
  have "in64 (c * b)" using assms by (simp add: in64_def mult_nonneg_nonneg order_trans [of _ 0])
  then show ?thesis using assms by (simp add: centsByBps_def quot64_nonneg share_def)
qed

lemma centsByBps_small:
  assumes "0 \<le> c" "c \<le> 1000000" "0 \<le> b" "b \<le> 10000"
  shows "centsByBps c b = share c b"
proof (rule centsByBps_share)
  have "c * b \<le> 1000000 * 10000" using assms by (intro mult_mono) simp_all
  then show "c * b < 2 ^ 63" by simp
qed (use assms in simp_all)

lemma floorToDollar_nonneg:
  assumes "0 \<le> c" "in64 c"
  shows "floorToDollar c = dollars c"
proof -
  have "in64 (dollars c)"
    using assms dollars_nonneg [of c] dollars_le [of c] by (simp add: in64_def)
  with assms show ?thesis by (simp add: floorToDollar_def quot64_nonneg dollars_def)
qed

lemma half_up_div: "(c + 50) div 100 = (if 50 \<le> c mod 100 then c div 100 + 1 else c div (100::int))"
proof -
  have m: "0 \<le> c mod 100" "c mod 100 < 100" by simp_all
  have "(c mod 100 + 50) div 100 = (if 50 \<le> c mod 100 then 1 else 0)"
  proof (cases "50 \<le> c mod 100")
    case True
    then show ?thesis using m int_div_pos_eq [of "c mod 100 + 50" 100 1 "c mod 100 - 50"] by simp
  next
    case False
    then show ?thesis using m by (simp add: div_pos_pos_trivial)
  qed
  then show ?thesis unfolding div_add1_eq [of c 50 100] by simp
qed

lemma roundToNearestDollar_nonneg:
  assumes "0 \<le> c" "c \<le> 9223372036854775000"
  shows "roundToNearestDollar c = dollars (c + 50)"
proof -
  define q m where "q = c div 100" and "m = c mod 100"
  have c: "q * 100 + m = c" "0 \<le> m" "m < 100" by (simp_all add: q_def m_def)
  have i: "in64 c" using assms by (simp add: in64_def)
  have q: "quot64 c 100 = q" "rem64 c 100 = m"
    using assms(1) i by (simp_all only: quot64_nonneg rem64_nonneg q_def m_def)
  have w: "in64 (q + 1)" "in64 (q * 100)" "in64 ((q + 1) * 100)"
    using c assms by (simp_all add: in64_def)
  have "(c + 50) div 100 = (if 50 \<le> m then q + 1 else q)"
    unfolding q_def m_def by (rule half_up_div)
  with w show ?thesis by (simp add: roundToNearestDollar_def Let_def q dollars_def)
qed

lemma cpfRateForAge_range:
  "500 \<le> employeeBps (cpfRateForAge age)" "employeeBps (cpfRateForAge age) \<le> 2000"
  "750 \<le> employerBps (cpfRateForAge age)" "employerBps (cpfRateForAge age) \<le> 1700"
  by (simp_all add: cpfRateForAge_def)

section \<open>The reference computation\<close>

text \<open>The same contribution over unbounded integers, with floor division: what the code computes
  when no operation wraps. \<open>w\<close> is the applicable wage.\<close>

definition employee_raw :: "int \<Rightarrow> int \<Rightarrow> int" where
  "employee_raw age w =
     (if w \<le> 50000 then 0 else if w \<le> 75000 then share (w - 50000) 1500
      else share w (employeeBps (cpfRateForAge age)))"

definition total_raw :: "int \<Rightarrow> int \<Rightarrow> int" where
  "total_raw age w =
     (if w \<le> 50000 then share w (employerBps (cpfRateForAge age))
      else if w \<le> 75000 then share w (employerBps (cpfRateForAge age)) + share (w - 50000) 1500
      else share w (employeeBps (cpfRateForAge age) + employerBps (cpfRateForAge age)))"

definition allocation_bps :: "int \<Rightarrow> int \<times> int" where
  "allocation_bps age = (if age \<le> 35 then (6216, 1621) else if age \<le> 45 then (5677, 1892)
     else if age \<le> 50 then (5136, 2162) else (4054, 3108))"

definition cpf_reference :: "int \<Rightarrow> int \<Rightarrow> EmploymentStatus \<Rightarrow> CPFContribution" where
  "cpf_reference age wage status =
     (if status \<noteq> EmploymentFullTime \<or> wage \<le> 5000 then zeroCPF
      else let w = min wage 800000;
               employee = dollars (employee_raw age w);
               tot = dollars (total_raw age w + 50);
               oa = share tot (fst (allocation_bps age));
               sa = share tot (snd (allocation_bps age))
           in \<lparr>cpf_CPFApplicableWageCents = w, cpf_EmployeeCents = employee,
               cpf_EmployerCents = tot - employee, cpf_TotalCents = tot,
               cpf_OrdinaryAccountCents = oa, cpf_SpecialAccountCents = sa,
               cpf_MedisaveAccountCents = tot - oa - sa\<rparr>)"

lemma employee_raw_bounds:
  assumes "0 \<le> w"
  shows "0 \<le> employee_raw age w" and "employee_raw age w \<le> w"
proof -
  note r = cpfRateForAge_range [of age]
  have "0 \<le> share w (employeeBps (cpfRateForAge age))" "share w (employeeBps (cpfRateForAge age)) \<le> w"
    using assms r by (simp_all add: share_nonneg share_le)
  moreover have "0 \<le> share (w - 50000) 1500" "share (w - 50000) 1500 \<le> w - 50000" if "50000 < w"
    using that by (simp_all add: share_nonneg share_le)
  ultimately show "0 \<le> employee_raw age w" and "employee_raw age w \<le> w"
    using assms by (auto simp: employee_raw_def)
qed

lemma total_raw_bounds:
  assumes "0 \<le> w"
  shows "employee_raw age w \<le> total_raw age w" and "total_raw age w \<le> w"
proof -
  define ee er where "ee = employeeBps (cpfRateForAge age)" and "er = employerBps (cpfRateForAge age)"
  note r = cpfRateForAge_range [of age, folded ee_def er_def]
  have e: "0 \<le> share w er" "share w er \<le> w" "share w (ee + er) \<le> w" "share w ee \<le> share w (ee + er)"
    using assms r by (simp_all add: share_nonneg share_le share_mono)
  then show "employee_raw age w \<le> total_raw age w"
    by (simp add: employee_raw_def total_raw_def ee_def er_def)
  have "share w er + share (w - 50000) 1500 \<le> w * 10000 div 10000"
  proof (rule order_trans [OF share_add_le zdiv_mono1])
    have "w * er \<le> w * 1700" using assms r by (intro mult_left_mono) simp_all
    then show "w * er + (w - 50000) * 1500 \<le> w * 10000" using assms by simp
  qed simp
  with e show "total_raw age w \<le> w" by (simp add: total_raw_def ee_def er_def)
qed

lemma allocation_bps_range:
  "0 \<le> fst (allocation_bps age)" "0 \<le> snd (allocation_bps age)"
  "fst (allocation_bps age) + snd (allocation_bps age) \<le> 10000"
  by (simp_all add: allocation_bps_def)

lemma allocation_bounds:
  assumes "0 \<le> t"
  shows "0 \<le> share t (fst (allocation_bps age))" "0 \<le> share t (snd (allocation_bps age))"
    and "share t (fst (allocation_bps age)) + share t (snd (allocation_bps age)) \<le> t"
proof -
  note r = allocation_bps_range [of age]
  show "0 \<le> share t (fst (allocation_bps age))" "0 \<le> share t (snd (allocation_bps age))"
    using assms r by (simp_all add: share_nonneg)
  have "share t (fst (allocation_bps age)) + share t (snd (allocation_bps age))
      \<le> share t (fst (allocation_bps age) + snd (allocation_bps age))"
    using share_add_le [of t "fst (allocation_bps age)" t "snd (allocation_bps age)"]
    by (simp add: share_def distrib_left)
  also have "\<dots> \<le> t" using assms r(3) by (rule share_le)
  finally show "share t (fst (allocation_bps age)) + share t (snd (allocation_bps age)) \<le> t" .
qed

lemma estimateCPFAllocation_bps:
  "estimateCPFAllocation age t =
    (let (a, b) = allocation_bps age
     in (centsByBps t a, centsByBps t b, i64 (i64 (t - centsByBps t a) - centsByBps t b)))"
  by (simp add: estimateCPFAllocation_def allocation_bps_def)

lemma estimateCPFAllocation_ref:
  assumes "0 \<le> t" "t \<le> 900000"
  shows "estimateCPFAllocation age t =
    (share t (fst (allocation_bps age)), share t (snd (allocation_bps age)),
     t - share t (fst (allocation_bps age)) - share t (snd (allocation_bps age)))"
proof -
  obtain a b where ab: "allocation_bps age = (a, b)" by fastforce
  note r = allocation_bps_range [of age] and bnd = allocation_bounds [OF assms(1), of age]
  have c: "centsByBps t a = share t a" "centsByBps t b = share t b"
    using assms r unfolding ab by (auto intro!: centsByBps_small)
  have "in64 (t - share t a - share t b)"
    using bnd assms unfolding ab by (auto intro!: in64_lit)
  then show ?thesis by (simp add: estimateCPFAllocation_bps ab c)
qed

section \<open>The code computes the reference\<close>

lemma contribution_raw:
  fixes age w :: int
  assumes w: "0 \<le> w" "w \<le> 800000"
  defines "ee \<equiv> employeeBps (cpfRateForAge age)" and "er \<equiv> employerBps (cpfRateForAge age)"
  shows "(if w \<le> 50000 then (0, centsByBps w er)
      else if w \<le> 75000 then (centsByBps (i64 (w - 50000)) 1500,
        i64 (centsByBps w er + centsByBps (i64 (w - 50000)) 1500))
      else (centsByBps w ee, centsByBps w (i64 (ee + er)))) = (employee_raw age w, total_raw age w)"
proof -
  note r = cpfRateForAge_range [of age, folded ee_def er_def]
  have c: "centsByBps w er = share w er" "centsByBps w ee = share w ee"
    "centsByBps w (ee + er) = share w (ee + er)"
    using w r by (auto intro!: centsByBps_small)
  have e15: "centsByBps (w - 50000) 1500 = share (w - 50000) 1500" if "\<not> w \<le> 50000"
    using that w by (intro centsByBps_small) simp_all
  have iw: "i64 (w - 50000) = w - 50000" "i64 (ee + er) = ee + er"
    using w r by (auto intro!: i64_id in64_lit)
  have "share w er + share (w - 50000) 1500 = total_raw age w" if "\<not> w \<le> 50000" "w \<le> 75000"
    using that by (simp add: total_raw_def er_def)
  then have "i64 (share w er + share (w - 50000) 1500) = share w er + share (w - 50000) 1500"
    if "\<not> w \<le> 50000" "w \<le> 75000"
    using that employee_raw_bounds [OF w(1), of age] total_raw_bounds [OF w(1), of age] w
    by (auto intro!: i64_id in64_lit)
  then show ?thesis
    by (auto simp: iw c e15 employee_raw_def total_raw_def ee_def [symmetric] er_def [symmetric])
qed

text \<open>The rounded amounts stay in a range where no later operation wraps.\<close>

lemma rounded_bounds:
  assumes "0 \<le> e" "e \<le> t" "t \<le> 800000"
  shows "0 \<le> dollars e" and "dollars e \<le> dollars (t + 50)" and "dollars (t + 50) \<le> 900000"
  using assms dollars_nonneg [of e] dollars_mono [of e "t + 50"] dollars_le [of "t + 50"] by simp_all

lemma CalculateCPFContribution_reference:
  "CalculateCPFContribution age wage status = cpf_reference age wage status"
proof (cases "status \<noteq> EmploymentFullTime \<or> wage \<le> 5000")
  case True
  then show ?thesis
    by (simp add: CalculateCPFContribution_def cpf_reference_def normalEmployeeCPFApplies_def)
next
  case False
  define w e t where "w = min wage 800000" and "e = employee_raw age w" and "t = total_raw age w"
  have w: "0 \<le> w" "w \<le> 800000" using False by (auto simp: w_def)
  note eb = employee_raw_bounds [OF w(1), of age, folded e_def]
    and tb = total_raw_bounds [OF w(1), of age, folded e_def t_def]
  have t8: "t \<le> 800000" using tb(2) w(2) by simp
  note b = rounded_bounds [OF eb(1) tb(1) t8]
  have "floorToDollar e = dollars e"
    using eb w by (intro floorToDollar_nonneg) (auto intro!: in64_lit)
  moreover have "roundToNearestDollar t = dollars (t + 50)"
    using eb tb w by (intro roundToNearestDollar_nonneg) linarith+
  moreover have "max (i64 (dollars (t + 50) - dollars e)) 0 = dollars (t + 50) - dollars e"
    using b by (subst i64_id) (auto intro!: in64_lit)
  moreover note estimateCPFAllocation_ref [OF order_trans [OF b(1,2)] b(3), of age]
  ultimately show ?thesis
    using False
    by (simp only: CalculateCPFContribution_def cpf_reference_def normalEmployeeCPFApplies_def
      cpfOrdinaryWageCeilingCents2026_def minInt64_min maxInt64_max Let_def w_def [symmetric]
      contribution_raw [OF w] e_def [symmetric] t_def [symmetric] prod.case
      de_Morgan_disj not_not simp_thms if_False)
qed

section \<open>Growth with the wage\<close>

lemma employee_raw_mono:
  assumes "0 \<le> v" "v \<le> w"
  shows "employee_raw age v \<le> employee_raw age w"
proof -
  define ee where "ee = employeeBps (cpfRateForAge age)"
  note r = cpfRateForAge_range(1,2) [of age, folded ee_def]
  have top: "share v ee \<le> share w ee" using assms r by (simp add: share_mono)
  have mid: "share (v - 50000) 1500 \<le> share (w - 50000) 1500" if "50000 < v"
    using assms that by (simp add: share_mono)
  have jump: "share (v - 50000) 1500 \<le> share w ee" if "v \<le> 75000" "75000 < w"
  proof (rule share_mono_prod)
    have "75000 * 500 \<le> w * ee" using that r by (intro mult_mono) simp_all
    then show "(v - 50000) * 1500 \<le> w * ee" using that by simp
  qed
  have "0 \<le> employee_raw age w" using assms by (intro employee_raw_bounds) simp
  with top mid jump assms show ?thesis by (auto simp: employee_raw_def ee_def split: if_splits)
qed

lemma total_raw_mono:
  assumes "0 \<le> v" "v \<le> w"
  shows "total_raw age v \<le> total_raw age w"
proof -
  define ee er where "ee = employeeBps (cpfRateForAge age)" and "er = employerBps (cpfRateForAge age)"
  note r = cpfRateForAge_range [of age, folded ee_def er_def]
  have low: "share v er \<le> share w er" "share v er \<le> share w (ee + er)"
    and top: "share v (ee + er) \<le> share w (ee + er)"
    using assms r by (simp_all add: share_mono)
  have mid: "share (v - 50000) 1500 \<le> share (w - 50000) 1500" if "50000 < v"
    using assms that by (simp add: share_mono)
  have midpos: "0 \<le> share (w - 50000) 1500" if "50000 < w"
    using that by (simp add: share_nonneg)
  have jump: "share v er + share (v - 50000) 1500 \<le> share w (ee + er)" if "v \<le> 75000" "75000 < w"
    unfolding share_def [of w]
  proof (rule order_trans [OF share_add_le zdiv_mono1])
    have "75000 * 500 \<le> w * ee" using that r by (intro mult_mono) simp_all
    moreover have "v * er \<le> w * er" using assms r by (intro mult_right_mono) simp_all
    ultimately show "v * er + (v - 50000) * 1500 \<le> w * (ee + er)"
      using that by (simp add: distrib_left)
  qed simp
  from low mid midpos top jump assms show ?thesis
    by (auto simp: total_raw_def add_mono add_increasing2 ee_def [symmetric] er_def [symmetric])
qed

lemma cpf_fields:
  assumes "\<not> (status \<noteq> EmploymentFullTime \<or> wage \<le> 5000)"
  shows "CalculateCPFContribution age wage status =
    (let w = min wage 800000; tot = dollars (total_raw age w + 50);
         oa = share tot (fst (allocation_bps age)); sa = share tot (snd (allocation_bps age))
     in \<lparr>cpf_CPFApplicableWageCents = w, cpf_EmployeeCents = dollars (employee_raw age w),
         cpf_EmployerCents = tot - dollars (employee_raw age w), cpf_TotalCents = tot,
         cpf_OrdinaryAccountCents = oa, cpf_SpecialAccountCents = sa,
         cpf_MedisaveAccountCents = tot - oa - sa\<rparr>)"
  using assms by (simp add: CalculateCPFContribution_reference cpf_reference_def Let_def)

lemma cpf_none:
  "status \<noteq> EmploymentFullTime \<or> wage \<le> 5000 \<Longrightarrow> CalculateCPFContribution age wage status = zeroCPF"
  by (simp add: CalculateCPFContribution_reference cpf_reference_def)

section \<open>Properties\<close>

text \<open>
  Property C1: for every age, wage and employment status, the employee's and the employer's
  shares add up to the total contribution and the ordinary, special and MediSave allocations
  add up to the same total; no amount is negative, and the total and the employee's share are
  whole dollars. The clamp of the employer's share at zero is never needed.
\<close>

theorem cpf_shares_and_accounts_add_up:
  "let c = CalculateCPFContribution age wage status
   in cpf_EmployeeCents c + cpf_EmployerCents c = cpf_TotalCents c
      \<and> cpf_OrdinaryAccountCents c + cpf_SpecialAccountCents c + cpf_MedisaveAccountCents c = cpf_TotalCents c
      \<and> 0 \<le> cpf_EmployeeCents c \<and> 0 \<le> cpf_EmployerCents c
      \<and> 0 \<le> cpf_OrdinaryAccountCents c \<and> 0 \<le> cpf_SpecialAccountCents c \<and> 0 \<le> cpf_MedisaveAccountCents c
      \<and> 100 dvd cpf_TotalCents c \<and> 100 dvd cpf_EmployeeCents c
      \<and> cpf_TotalCents c \<le> 900000"
proof (cases "status \<noteq> EmploymentFullTime \<or> wage \<le> 5000")
  case True
  then show ?thesis by (simp add: cpf_none zeroCPF_def)
next
  case False
  let ?w = "min wage 800000"
  have w: "0 \<le> ?w" "?w \<le> 800000" using False by auto
  have t8: "total_raw age ?w \<le> 800000" using total_raw_bounds(2) [OF w(1), of age] w(2) by simp
  note b = rounded_bounds [OF employee_raw_bounds(1) [OF w(1)] total_raw_bounds(1) [OF w(1)] t8]
  note a = allocation_bounds [OF order_trans [OF b(1,2)], of age]
  show ?thesis unfolding cpf_fields [OF False] Let_def using a b by (simp add: dvd_dollars)
qed

text \<open>
  Property C2: the contribution the \<open>int64\<close> code computes is the one of the reference
  formula over unbounded integers: whatever the wage, no intermediate product, sum or difference
  wraps around and every truncated division is a floor division.
\<close>

theorem cpf_code_never_wraps:
  "CalculateCPFContribution age wage status = cpf_reference age wage status"
  by (rule CalculateCPFContribution_reference)

text \<open>
  Property C3: at a fixed age and status, a higher wage never lowers the employee's share or
  the total contribution, across the boundaries of the wage bands and above the wage ceiling.
\<close>

theorem cpf_monotone_in_wage:
  assumes "wage \<le> wage'"
  shows "cpf_EmployeeCents (CalculateCPFContribution age wage status)
       \<le> cpf_EmployeeCents (CalculateCPFContribution age wage' status)
     \<and> cpf_TotalCents (CalculateCPFContribution age wage status)
       \<le> cpf_TotalCents (CalculateCPFContribution age wage' status)"
proof -
  let ?v = "min wage 800000" and ?w = "min wage' 800000"
  have vw: "?v \<le> ?w" using assms by linarith
  consider "status \<noteq> EmploymentFullTime \<or> wage' \<le> 5000" | "status = EmploymentFullTime" "wage \<le> 5000" "5000 < wage'"
    | "status = EmploymentFullTime" "5000 < wage" "5000 < wage'"
    using assms by linarith
  then show ?thesis
  proof cases
    case 1
    with assms show ?thesis by (auto simp: cpf_none)
  next
    case 2
    then have w: "0 \<le> ?w" by simp
    from 2 show ?thesis
      using employee_raw_bounds(1) [OF w, of age] total_raw_bounds(1) [OF w, of age]
      by (simp add: cpf_none cpf_fields Let_def zeroCPF_def dollars_nonneg)
  next
    case 3
    then have v: "0 \<le> ?v" by simp
    from 3 show ?thesis
      using employee_raw_mono [OF v vw, of age] total_raw_mono [OF v vw, of age]
      by (simp add: cpf_fields Let_def dollars_mono)
  qed
qed

theorem cpf_monotone_in_wage_witness:
  "(75000 :: int) \<le> 75001
   \<and> cpf_EmployeeCents (CalculateCPFContribution 30 75000 EmploymentFullTime)
       \<le> cpf_EmployeeCents (CalculateCPFContribution 30 75001 EmploymentFullTime)
   \<and> cpf_TotalCents (CalculateCPFContribution 30 75000 EmploymentFullTime)
       \<le> cpf_TotalCents (CalculateCPFContribution 30 75001 EmploymentFullTime)
   \<and> cpf_EmployeeCents (CalculateCPFContribution 30 75000 EmploymentFullTime) = 3700
   \<and> cpf_EmployeeCents (CalculateCPFContribution 30 75001 EmploymentFullTime) = 15000"
proof -
  have "(75000 :: int) \<le> 75001" by simp
  note cpf_monotone_in_wage [OF this, of 30 EmploymentFullTime]
  moreover have "cpf_EmployeeCents (CalculateCPFContribution 30 75000 EmploymentFullTime) = 3700"
    "cpf_EmployeeCents (CalculateCPFContribution 30 75001 EmploymentFullTime) = 15000"
    by (simp_all add: cpf_fields employee_raw_def share_def dollars_def cpfRateForAge_def Let_def)
  ultimately show ?thesis by simp
qed

text \<open>The graduated band uses one factor for every age, so the share of an employee of 30 jumps from
  37 to 150 dollars with the cent that leaves the band.\<close>

lemma cpf_share_jumps:
  "cpf_EmployeeCents (CalculateCPFContribution 30 75000 EmploymentFullTime) = 3700
   \<and> cpf_EmployeeCents (CalculateCPFContribution 30 75001 EmploymentFullTime) = 15000"
  by code_simp

end
