(* ===== verification/Calc_Income.thy ===== *)
theory Calc_Income
  imports Calc_CPF
begin

text \<open>
  \<open>internal/calculation/income.go\<close>: the income breakdown of one person and the summary of
  a household, an accumulation over its people in \<open>int64\<close>. The lemmas show that each
  field of the summary is the wrapped sum over the people, so that the order of the rows does
  not matter and the household's surplus is its take-home income less its expenses even when
  the sums wrap.
\<close>

section \<open>Definitions\<close>

record IncomeBreakdown =
  ib_PersonID :: ID
  ib_CurrentGrossIncomeCents :: int64
  ib_ProjectedGrossIncomeCents :: int64
  ib_EmployeeCPFCents :: int64
  ib_EmployerCPFCents :: int64
  ib_TakeHomeIncomeCents :: int64
  ib_MonthlyExpensesCents :: int64
  ib_MonthlySurplusCents :: int64
  ib_CPFContribution :: CPFContribution
  ib_CPFPlanningNote :: string

record HouseholdIncomeSummary =
  hi_CurrentGrossIncomeCents :: int64
  hi_ProjectedGrossIncomeCents :: int64
  hi_TakeHomeIncomeCents :: int64
  hi_EmployeeCPFCents :: int64
  hi_EmployerCPFCents :: int64
  hi_MonthlyExpensesCents :: int64
  hi_MonthlySurplusCents :: int64
  hi_CurrentCPFOACents :: int64
  hi_CurrentCPFSACents :: int64
  hi_CurrentCPFMACents :: int64
  hi_MayNeedDeferredAssessment :: bool

definition currentIncomeFor :: "PersonProfile \<Rightarrow> int64" where
  "currentIncomeFor person = maxInt64 (pp_GrossMonthlyIncomeCents person) 0"

definition projectedIncomeFor :: "PersonProfile \<Rightarrow> int64" where
  "projectedIncomeFor person =
     (if pp_ExpectedFutureIncomeCents person > 0 then pp_ExpectedFutureIncomeCents person
      else currentIncomeFor person)"

definition mayNeedDeferredAssessment :: "EmploymentStatus \<Rightarrow> bool" where
  "mayNeedDeferredAssessment status \<longleftrightarrow>
     status = EmploymentStudent \<or> status = EmploymentFullTimeNSF \<or> status = EmploymentFutureEmployee"

definition cpfPlanningNote :: "EmploymentStatus \<Rightarrow> string" where
  "cpfPlanningNote status =
     (if status = EmploymentSelfEmployed then
        ''Self-employed CPF handling differs; treat this as a placeholder until MediSave rules are modelled.''
      else if status \<in> {EmploymentPartTime, EmploymentStudent, EmploymentFullTimeNSF,
          EmploymentUnemployed, EmploymentFutureEmployee} then
        ''Normal employee CPF is not applied to this profile by default.''
      else ''CPF is estimated for ordinary wages using the configured planning rates.'')"

definition CalculateIncomeBreakdown :: "PersonProfile \<Rightarrow> IncomeBreakdown" where
  "CalculateIncomeBreakdown person =
     (let currentIncome = currentIncomeFor person;
          projectedIncome = projectedIncomeFor person;
          cpf = CalculateCPFContribution (pp_Age person) currentIncome (pp_EmploymentStatus person);
          takeHome = i64 (currentIncome - cpf_EmployeeCents cpf)
      in \<lparr>ib_PersonID = pp_ID person,
          ib_CurrentGrossIncomeCents = currentIncome,
          ib_ProjectedGrossIncomeCents = projectedIncome,
          ib_EmployeeCPFCents = cpf_EmployeeCents cpf,
          ib_EmployerCPFCents = cpf_EmployerCents cpf,
          ib_TakeHomeIncomeCents = takeHome,
          ib_MonthlyExpensesCents = pp_MonthlyExpensesCents person,
          ib_MonthlySurplusCents = i64 (takeHome - pp_MonthlyExpensesCents person),
          ib_CPFContribution = cpf,
          ib_CPFPlanningNote = cpfPlanningNote (pp_EmploymentStatus person)\<rparr>)"

definition zeroSummary :: HouseholdIncomeSummary where
  "zeroSummary = \<lparr>hi_CurrentGrossIncomeCents = 0, hi_ProjectedGrossIncomeCents = 0,
     hi_TakeHomeIncomeCents = 0, hi_EmployeeCPFCents = 0, hi_EmployerCPFCents = 0,
     hi_MonthlyExpensesCents = 0, hi_MonthlySurplusCents = 0, hi_CurrentCPFOACents = 0,
     hi_CurrentCPFSACents = 0, hi_CurrentCPFMACents = 0, hi_MayNeedDeferredAssessment = False\<rparr>"

definition addPerson :: "HouseholdIncomeSummary \<Rightarrow> PersonProfile \<Rightarrow> HouseholdIncomeSummary" where
  "addPerson s person =
     (let b = CalculateIncomeBreakdown person
      in \<lparr>hi_CurrentGrossIncomeCents = i64 (hi_CurrentGrossIncomeCents s + ib_CurrentGrossIncomeCents b),
          hi_ProjectedGrossIncomeCents = i64 (hi_ProjectedGrossIncomeCents s + ib_ProjectedGrossIncomeCents b),
          hi_TakeHomeIncomeCents = i64 (hi_TakeHomeIncomeCents s + ib_TakeHomeIncomeCents b),
          hi_EmployeeCPFCents = i64 (hi_EmployeeCPFCents s + ib_EmployeeCPFCents b),
          hi_EmployerCPFCents = i64 (hi_EmployerCPFCents s + ib_EmployerCPFCents b),
          hi_MonthlyExpensesCents = i64 (hi_MonthlyExpensesCents s + ib_MonthlyExpensesCents b),
          hi_MonthlySurplusCents = i64 (hi_MonthlySurplusCents s + ib_MonthlySurplusCents b),
          hi_CurrentCPFOACents = i64 (hi_CurrentCPFOACents s + pp_CPFOACents person),
          hi_CurrentCPFSACents = i64 (hi_CurrentCPFSACents s + pp_CPFSACents person),
          hi_CurrentCPFMACents = i64 (hi_CurrentCPFMACents s + pp_CPFMACents person),
          hi_MayNeedDeferredAssessment = (if mayNeedDeferredAssessment (pp_EmploymentStatus person)
            then True else hi_MayNeedDeferredAssessment s)\<rparr>)"

definition CalculateHouseholdIncomeSummary :: "PersonProfile list \<Rightarrow> HouseholdIncomeSummary" where
  "CalculateHouseholdIncomeSummary people = foldl addPerson zeroSummary people"

definition example_person :: PersonProfile where
  "example_person = \<lparr>pp_ID = ''p1'', pp_FamilyID = ''f1'', pp_LinkedUserID = [], pp_Name = ''Ana'', pp_Age = 30,
     pp_RelationshipLabel = ''self'', pp_EmploymentStatus = EmploymentFullTime,
     pp_GrossMonthlyIncomeCents = 500000, pp_ExpectedFutureIncomeCents = 0,
     pp_ExpectedIncomeStartDate = None, pp_GraduationDate = None, pp_ORDDate = None,
     pp_CashSavingsCents = 2000000, pp_CPFOACents = 3000000, pp_CPFSACents = 0, pp_CPFMACents = 0,
     pp_MonthlyExpensesCents = 150000, pp_CreatedAt = 0, pp_UpdatedAt = 0\<rparr>"

section \<open>The summary as wrapped sums\<close>

definition wsum :: "(PersonProfile \<Rightarrow> int) \<Rightarrow> PersonProfile list \<Rightarrow> int64" where
  "wsum f people = i64 (\<Sum>p\<leftarrow>people. f p)"

lemma wsum_Nil [simp]: "wsum f [] = 0"
  by (simp add: wsum_def i64_def)

lemma wsum_append: "wsum f (xs @ ys) = i64 (wsum f xs + wsum f ys)"
  by (simp add: wsum_def)

lemma wsum_snoc: "wsum f (xs @ [x]) = i64 (wsum f xs + f x)"
  by (simp add: wsum_def)

lemma wsum_diff: "wsum (\<lambda>p. i64 (f p - g p)) xs = i64 (wsum f xs - wsum g xs)"
proof (induction xs rule: rev_induct)
  case Nil
  then show ?case by (simp add: i64_def)
next
  case (snoc x xs)
  have "wsum (\<lambda>p. i64 (f p - g p)) (xs @ [x]) = i64 ((wsum f xs - wsum g xs) + (f x - g x))"
    by (simp only: wsum_snoc snoc i64_add_left i64_add_right)
  also have "(wsum f xs - wsum g xs) + (f x - g x) = (wsum f xs + f x) - (wsum g xs + g x)" by simp
  finally show ?case by (simp only: wsum_snoc i64_diff_left i64_diff_right)
qed

lemma wsum_cong_mset: "mset xs = mset ys \<Longrightarrow> wsum f xs = wsum f ys"
  unfolding wsum_def by (metis mset_map sum_mset_sum_list)

lemma wsum_exact:
  assumes "in64 (\<Sum>p\<leftarrow>people. f p)"
  shows "wsum f people = (\<Sum>p\<leftarrow>people. f p)"
  using assms by (simp add: wsum_def)

lemma summary_wsum:
  "CalculateHouseholdIncomeSummary people =
     \<lparr>hi_CurrentGrossIncomeCents = wsum (\<lambda>p. ib_CurrentGrossIncomeCents (CalculateIncomeBreakdown p)) people,
      hi_ProjectedGrossIncomeCents = wsum (\<lambda>p. ib_ProjectedGrossIncomeCents (CalculateIncomeBreakdown p)) people,
      hi_TakeHomeIncomeCents = wsum (\<lambda>p. ib_TakeHomeIncomeCents (CalculateIncomeBreakdown p)) people,
      hi_EmployeeCPFCents = wsum (\<lambda>p. ib_EmployeeCPFCents (CalculateIncomeBreakdown p)) people,
      hi_EmployerCPFCents = wsum (\<lambda>p. ib_EmployerCPFCents (CalculateIncomeBreakdown p)) people,
      hi_MonthlyExpensesCents = wsum (\<lambda>p. ib_MonthlyExpensesCents (CalculateIncomeBreakdown p)) people,
      hi_MonthlySurplusCents = wsum (\<lambda>p. ib_MonthlySurplusCents (CalculateIncomeBreakdown p)) people,
      hi_CurrentCPFOACents = wsum pp_CPFOACents people,
      hi_CurrentCPFSACents = wsum pp_CPFSACents people,
      hi_CurrentCPFMACents = wsum pp_CPFMACents people,
      hi_MayNeedDeferredAssessment = (\<exists>p\<in>set people. mayNeedDeferredAssessment (pp_EmploymentStatus p))\<rparr>"
proof (induction people rule: rev_induct)
  case Nil
  then show ?case by (simp add: CalculateHouseholdIncomeSummary_def zeroSummary_def)
next
  case (snoc p people)
  have "CalculateHouseholdIncomeSummary (people @ [p]) = addPerson (CalculateHouseholdIncomeSummary people) p"
    by (simp add: CalculateHouseholdIncomeSummary_def)
  then show ?case by (auto simp add: snoc addPerson_def Let_def wsum_snoc)
qed

lemma breakdown_surplus:
  "ib_MonthlySurplusCents (CalculateIncomeBreakdown p) =
     i64 (ib_TakeHomeIncomeCents (CalculateIncomeBreakdown p) - ib_MonthlyExpensesCents (CalculateIncomeBreakdown p))"
  by (simp add: CalculateIncomeBreakdown_def Let_def)

lemma breakdown_take_home:
  "ib_TakeHomeIncomeCents (CalculateIncomeBreakdown p) =
     i64 (ib_CurrentGrossIncomeCents (CalculateIncomeBreakdown p) - ib_EmployeeCPFCents (CalculateIncomeBreakdown p))"
  by (simp add: CalculateIncomeBreakdown_def Let_def)

lemma employee_share_le_wage:
  "0 \<le> wage \<Longrightarrow> cpf_EmployeeCents (CalculateCPFContribution age wage status) \<le> wage"
proof (cases "status \<noteq> EmploymentFullTime \<or> wage \<le> 5000")
  case True
  assume "0 \<le> wage"
  with True show ?thesis by (simp add: cpf_none zeroCPF_def)
next
  case False
  then have "0 \<le> min wage 800000" by simp
  from employee_raw_bounds(2) [OF this, of age] dollars_le [of "employee_raw age (min wage 800000)"]
  have "dollars (employee_raw age (min wage 800000)) \<le> wage" by linarith
  then show ?thesis unfolding cpf_fields [OF False] by (simp add: Let_def)
qed

lemma employee_share_nonneg: "0 \<le> cpf_EmployeeCents (CalculateCPFContribution age wage status)"
proof (cases "status \<noteq> EmploymentFullTime \<or> wage \<le> 5000")
  case True
  then show ?thesis by (simp add: cpf_none zeroCPF_def)
next
  case False
  then have "0 \<le> min wage 800000" by simp
  from employee_raw_bounds(1) [OF this] show ?thesis
    unfolding cpf_fields [OF False] by (simp add: Let_def dollars_nonneg)
qed

lemma breakdown_cpf:
  "ib_EmployeeCPFCents (CalculateIncomeBreakdown p) =
     cpf_EmployeeCents (CalculateCPFContribution (pp_Age p) (max (pp_GrossMonthlyIncomeCents p) 0) (pp_EmploymentStatus p))"
  "ib_CurrentGrossIncomeCents (CalculateIncomeBreakdown p) = max (pp_GrossMonthlyIncomeCents p) 0"
  by (simp_all add: CalculateIncomeBreakdown_def Let_def currentIncomeFor_def)

section \<open>Properties\<close>

text \<open>
  The household summary obeys the accounting identities whatever the amounts are,
  even where the 64-bit sums wrap around: take-home income is gross income less the employees'
  CPF shares, and the surplus is take-home income less expenses (all modulo \<open>2 ^ 64\<close>).
\<close>

theorem household_summary_identities:
  "let s = CalculateHouseholdIncomeSummary people
   in hi_TakeHomeIncomeCents s = i64 (hi_CurrentGrossIncomeCents s - hi_EmployeeCPFCents s)
      \<and> hi_MonthlySurplusCents s = i64 (hi_TakeHomeIncomeCents s - hi_MonthlyExpensesCents s)"
proof -
  let ?B = CalculateIncomeBreakdown
  have "wsum (\<lambda>p. ib_TakeHomeIncomeCents (?B p)) people =
      i64 (wsum (\<lambda>p. ib_CurrentGrossIncomeCents (?B p)) people - wsum (\<lambda>p. ib_EmployeeCPFCents (?B p)) people)"
    unfolding breakdown_take_home by (rule wsum_diff)
  moreover have "wsum (\<lambda>p. ib_MonthlySurplusCents (?B p)) people =
      i64 (wsum (\<lambda>p. ib_TakeHomeIncomeCents (?B p)) people - wsum (\<lambda>p. ib_MonthlyExpensesCents (?B p)) people)"
    unfolding breakdown_surplus by (rule wsum_diff)
  ultimately show ?thesis by (simp add: summary_wsum Let_def)
qed

text \<open>
  Property C4: the household summary does not depend on the order in which the repository
  returns the people.
\<close>

theorem household_summary_order_irrelevant:
  assumes "mset people = mset people'"
  shows "CalculateHouseholdIncomeSummary people = CalculateHouseholdIncomeSummary people'"
  using assms wsum_cong_mset [OF assms] mset_eq_setD [OF assms] by (simp add: summary_wsum)

text \<open>
  A person's breakdown is consistent: with a gross income in the \<open>int64\<close>
  range, the take-home income lies between zero and the gross income, and gross income is
  exactly take-home income plus the employee's CPF share, without wrap-around.
\<close>

theorem income_breakdown_take_home:
  assumes "in64 (pp_GrossMonthlyIncomeCents p)"
  shows "let b = CalculateIncomeBreakdown p
         in ib_TakeHomeIncomeCents b + ib_EmployeeCPFCents b = ib_CurrentGrossIncomeCents b
            \<and> 0 \<le> ib_TakeHomeIncomeCents b \<and> ib_TakeHomeIncomeCents b \<le> ib_CurrentGrossIncomeCents b"
proof -
  let ?w = "max (pp_GrossMonthlyIncomeCents p) 0"
  let ?e = "cpf_EmployeeCents (CalculateCPFContribution (pp_Age p) ?w (pp_EmploymentStatus p))"
  have e: "0 \<le> ?e" by (rule employee_share_nonneg)
  have le: "?e \<le> ?w" by (rule employee_share_le_wage) simp
  then have "in64 (?w - ?e)" using e assms by (auto simp: in64_def)
  then show ?thesis using e le by (simp add: Let_def breakdown_take_home breakdown_cpf)
qed

theorem household_summary_order_irrelevant_witness:
  "mset [example_person, example_person\<lparr>pp_ID := ''p2''\<rparr>] = mset [example_person\<lparr>pp_ID := ''p2''\<rparr>, example_person]
   \<and> CalculateHouseholdIncomeSummary [example_person, example_person\<lparr>pp_ID := ''p2''\<rparr>]
     = CalculateHouseholdIncomeSummary [example_person\<lparr>pp_ID := ''p2''\<rparr>, example_person]"
proof -
  have "mset [example_person, example_person\<lparr>pp_ID := ''p2''\<rparr>]
      = mset [example_person\<lparr>pp_ID := ''p2''\<rparr>, example_person]" by simp
  from household_summary_order_irrelevant [OF this] this show ?thesis by blast
qed

theorem income_breakdown_take_home_witness:
  "in64 (pp_GrossMonthlyIncomeCents example_person)
   \<and> ib_TakeHomeIncomeCents (CalculateIncomeBreakdown example_person)
       + ib_EmployeeCPFCents (CalculateIncomeBreakdown example_person) = 500000"
proof -
  have "in64 (pp_GrossMonthlyIncomeCents example_person)" by (simp add: in64_def example_person_def)
  from income_breakdown_take_home [OF this] this show ?thesis
    by (simp add: Let_def breakdown_cpf(2)) (simp add: example_person_def)
qed

end
