(* ===== verification/Calc_Grant.thy ===== *)
theory Calc_Grant
  imports Calc_Income
begin

text \<open>
  \<open>internal/calculation/housing_grant.go\<close>: the housing grant by household income, the
  recognition of a deferred income assessment, and the loan tenure limits. The lemmas show that
  the grant is a non-increasing step function of the income and which options are deferred.
\<close>

section \<open>Definitions\<close>

definition hdbMaxLoanTenureYears :: int where "hdbMaxLoanTenureYears = 30"

definition nonHDBMaxLoanTenureYears :: int where "nonHDBMaxLoanTenureYears = 35"

definition monthsPerYear :: int where "monthsPerYear = 12"

record HousingGrantEstimate =
  ge_GrantAmountCents :: int64
  ge_HouseholdGrossMonthlyIncomeCents :: int64
  ge_Eligible :: bool

definition IsNonHDBHousingType :: "HousingType \<Rightarrow> bool" where
  "IsNonHDBHousingType housingType \<longleftrightarrow>
     housingType \<in> {HousingTypeExecutive, HousingTypePrivate, HousingTypeLanded, HousingTypeOther}"

definition MaxLoanTenureYearsForHousingType :: "HousingType \<Rightarrow> int" where
  "MaxLoanTenureYearsForHousingType housingType =
     (if housingType \<in> {HousingTypeBTO, HousingTypeResaleHDB} then hdbMaxLoanTenureYears
      else nonHDBMaxLoanTenureYears)"

definition MaxLoanTenureMonthsForHousingType :: "HousingType \<Rightarrow> int" where
  "MaxLoanTenureMonthsForHousingType housingType =
     i64 (MaxLoanTenureYearsForHousingType housingType * monthsPerYear)"

definition isHousingGrantEligibleType :: "HousingType \<Rightarrow> bool" where
  "isHousingGrantEligibleType housingType \<longleftrightarrow> housingType \<in> {HousingTypeBTO, HousingTypeResaleHDB}"

definition grantBrackets :: "(int64 \<times> int64) list" where
  "grantBrackets =
    [(150000, 12000000), (200000, 11000000), (250000, 10500000), (300000, 9500000),
     (350000, 9000000), (400000, 8000000), (450000, 7000000), (500000, 6500000),
     (550000, 5500000), (600000, 5000000), (650000, 4000000), (700000, 3000000),
     (750000, 2500000), (800000, 2000000), (850000, 1000000), (900000, 500000)]"

fun bracketGrant :: "int64 \<Rightarrow> (int64 \<times> int64) list \<Rightarrow> int64" where
  "bracketGrant income [] = 0"
| "bracketGrant income ((maxIncome, grant) # brackets) =
     (if income \<le> maxIncome then grant else bracketGrant income brackets)"

definition EstimateHousingGrantAmountFromGrossMonthlyIncome ::
    "HousingType \<Rightarrow> int64 \<Rightarrow> HousingGrantEstimate" where
  "EstimateHousingGrantAmountFromGrossMonthlyIncome housingType gross =
     (let estimate = \<lparr>ge_GrantAmountCents = 0, ge_HouseholdGrossMonthlyIncomeCents = maxInt64 gross 0,
                      ge_Eligible = isHousingGrantEligibleType housingType\<rparr>
      in if \<not> ge_Eligible estimate then estimate
         else estimate\<lparr>ge_GrantAmountCents :=
           bracketGrant (ge_HouseholdGrossMonthlyIncomeCents estimate) grantBrackets\<rparr>)"

definition EstimateHousingGrantAmount :: "HousingType \<Rightarrow> PersonProfile list \<Rightarrow> HousingGrantEstimate" where
  "EstimateHousingGrantAmount housingType people =
     (if people = [] then \<lparr>ge_GrantAmountCents = 0, ge_HouseholdGrossMonthlyIncomeCents = 0,
                           ge_Eligible = isHousingGrantEligibleType housingType\<rparr>
      else EstimateHousingGrantAmountFromGrossMonthlyIncome housingType
             (hi_CurrentGrossIncomeCents (CalculateHouseholdIncomeSummary people)))"

definition IsDeferredHousingOption :: "HousingOption \<Rightarrow> bool" where
  "IsDeferredHousingOption option =
     (if ho_LoanType option = LoanTypeCash then False
      else if IsNonHDBHousingType (ho_Type option) then False
      else if ho_Type option \<noteq> HousingTypeBTO then False
      else let hasValidKeyDate = (case ho_ExpectedKeyCollectionDate option of None \<Rightarrow> False
                 | Some d \<Rightarrow> \<not> date_is_zero d);
               looksDeferredByLegacyShape = (ho_LoanAmountCents option = 0 \<and> ho_DownpaymentPercentBps option = 2500);
               looksDeferredByKeyDate = (hasValidKeyDate \<and> ho_LoanAmountCents option = 0
                 \<and> ho_GrantAmountCents option = 0
                 \<and> (ho_LoanType option = [] \<or> ho_LoanType option = LoanTypeBank \<or> ho_LoanType option = LoanTypeHDB));
               looksDeferredByDefaultedLoan = (hasValidKeyDate \<and> ho_LoanType option = LoanTypeBank
                 \<and> ho_LoanAmountCents option = 0
                 \<and> (ho_LoanTenureMonths option = 300
                    \<or> ho_LoanTenureMonths option = MaxLoanTenureMonthsForHousingType (ho_Type option)));
               looksDeferredByOverrides = (hasValidKeyDate \<and> length (ho_DIAIncomeOverrides option) > 0)
           in looksDeferredByLegacyShape \<or> looksDeferredByKeyDate \<or> looksDeferredByDefaultedLoan
              \<or> looksDeferredByOverrides)"

section \<open>The grant as a step function\<close>

lemma bracketGrant_antimono:
  assumes "sorted (map fst bs)" and "sorted (map (\<lambda>b. - snd b) bs)" and "\<forall>b\<in>set bs. 0 \<le> snd b"
    and "x \<le> y"
  shows "bracketGrant y bs \<le> bracketGrant x bs"
  using assms
proof (induction bs)
  case Nil
  then show ?case by simp
next
  case (Cons b bs)
  obtain m g where b: "b = (m, g)" by fastforce
  have le: "bracketGrant y bs \<le> g"
  proof -
    have "bracketGrant z cs \<le> c" if "\<forall>d\<in>set cs. snd d \<le> c" "0 \<le> c" for z c and cs :: "(int \<times> int) list"
      using that by (induction cs) (auto split: prod.splits)
    then show ?thesis using Cons.prems b by fastforce
  qed
  have ih: "bracketGrant y bs \<le> bracketGrant x bs" using Cons by auto
  show ?case
  proof (cases "y \<le> m")
    case True
    with Cons.prems(4) b show ?thesis by simp
  next
    case False
    with b le ih show ?thesis by simp
  qed
qed

lemma grantBrackets_shape:
  "sorted (map fst grantBrackets)" "sorted (map (\<lambda>b. - snd b) grantBrackets)" "\<forall>b\<in>set grantBrackets. 0 \<le> snd b"
  by (simp_all add: grantBrackets_def)

lemma bracketGrant_range: "0 \<le> bracketGrant x grantBrackets \<and> bracketGrant x grantBrackets \<le> 12000000"
  by (simp add: grantBrackets_def)

lemma bracketGrant_zero_iff: "bracketGrant x grantBrackets = 0 \<longleftrightarrow> 900000 < x"
  by (auto simp: grantBrackets_def)

lemma grant_amount:
  "ge_GrantAmountCents (EstimateHousingGrantAmountFromGrossMonthlyIncome ty gross) =
     (if isHousingGrantEligibleType ty then bracketGrant (max gross 0) grantBrackets else 0)"
  by (simp add: EstimateHousingGrantAmountFromGrossMonthlyIncome_def Let_def)

section \<open>Properties\<close>

text \<open>
  Property C5: the estimated grant never grows with the household's gross monthly income; it
  lies between 0 and 120,000 dollars, and it is zero exactly for the housing types that are not
  HDB flats and for incomes above 9,000 dollars.
\<close>

theorem grant_is_decreasing_in_income:
  assumes "gross \<le> gross'"
  shows "ge_GrantAmountCents (EstimateHousingGrantAmountFromGrossMonthlyIncome ty gross')
           \<le> ge_GrantAmountCents (EstimateHousingGrantAmountFromGrossMonthlyIncome ty gross)
       \<and> 0 \<le> ge_GrantAmountCents (EstimateHousingGrantAmountFromGrossMonthlyIncome ty gross')
       \<and> ge_GrantAmountCents (EstimateHousingGrantAmountFromGrossMonthlyIncome ty gross) \<le> 12000000
       \<and> (ge_GrantAmountCents (EstimateHousingGrantAmountFromGrossMonthlyIncome ty gross) = 0
            \<longleftrightarrow> (ty \<noteq> HousingTypeBTO \<and> ty \<noteq> HousingTypeResaleHDB) \<or> 900000 < gross)"
proof -
  have "max gross 0 \<le> max gross' 0" using assms by linarith
  from bracketGrant_antimono [OF grantBrackets_shape this]
  show ?thesis
    using bracketGrant_range [of "max gross 0"] bracketGrant_range [of "max gross' 0"]
      bracketGrant_zero_iff [of "max gross 0"]
    by (auto simp: grant_amount isHousingGrantEligibleType_def)
qed

theorem grant_is_decreasing_in_income_witness:
  "(150000 :: int) \<le> 900000
   \<and> ge_GrantAmountCents (EstimateHousingGrantAmountFromGrossMonthlyIncome HousingTypeBTO 900000)
       \<le> ge_GrantAmountCents (EstimateHousingGrantAmountFromGrossMonthlyIncome HousingTypeBTO 150000)
   \<and> ge_GrantAmountCents (EstimateHousingGrantAmountFromGrossMonthlyIncome HousingTypeBTO 900000) = 500000"
proof -
  have "(150000 :: int) \<le> 900000" by simp
  from grant_is_decreasing_in_income [OF this, of HousingTypeBTO] this show ?thesis
    by (simp add: grant_amount isHousingGrantEligibleType_def grantBrackets_def)
qed

lemma deferred_bto: "IsDeferredHousingOption opt \<Longrightarrow> ho_Type opt = HousingTypeBTO \<and> ho_LoanType opt \<noteq> LoanTypeCash"
  by (simp add: IsDeferredHousingOption_def split: if_splits)

end
