(* ===== verification/Calc_Housing.thy ===== *)
theory Calc_Housing
  imports Calc_Grant
begin

text \<open>
  \<open>internal/calculation/housing.go\<close>: the affordability of a housing option for a
  household. Amounts are \<open>int64\<close> cents with wrap-around; the mortgage payment uses
  \<open>float64\<close> arithmetic. \<open>math.Pow\<close>, whose rounding Go does not specify, and the
  platform's conversion of an out-of-range float to \<open>int64\<close> are the fields of the
  parameter \<open>fenv\<close>. The lemmas show that the downpayment splits exactly, that CPF and
  cash together fund the upfront cost, and that a higher cost never improves the rating.
\<close>

section \<open>Definitions\<close>

record float_env =
  fe_pow :: "float64 \<Rightarrow> float64 \<Rightarrow> float64"
  fe_conv :: "float64 \<Rightarrow> int64"

record HousingAffordability =
  af_HousingOptionID :: ID
  af_NetPurchasePriceCents :: int64
  af_RequiredDownpaymentCents :: int64
  af_InitialDownpaymentCents :: int64
  af_FinalDownpaymentCents :: int64
  af_UpfrontCostCents :: int64
  af_EstimatedLoanAmountCents :: int64
  af_MonthlyMortgageCents :: int64
  af_CPFUsedCents :: int64
  af_CashTopUpRequiredCents :: int64
  af_RemainingCashCents :: int64
  af_RemainingCPFOACents :: int64
  af_MonthlyHousingCostCents :: int64
  af_MonthlySurplusAfterHousingCents :: int64
  af_Rating :: AffordabilityRating

record HouseholdAssets =
  as_CashSavingsCents :: int64
  as_CPFOACents :: int64
  as_TakeHomeCents :: int64
  as_MonthlyExpensesCents :: int64

definition initialDownpaymentCents :: "HousingOption \<Rightarrow> int64 \<Rightarrow> int64" where
  "initialDownpaymentCents option required =
     (if required \<le> 0 then 0
      else if ho_LoanType option = LoanTypeCash then required
      else let initialBps = (if IsDeferredHousingOption option then 250 else 500);
               initial = centsByBps (maxInt64 (ho_PurchasePriceCents option) 0) initialBps
           in if initial \<le> 0 then required else minInt64 initial required)"

definition monthlyPayment :: "float_env \<Rightarrow> int64 \<Rightarrow> int64 \<Rightarrow> int \<Rightarrow> int64" where
  "monthlyPayment fenv principalCents annualRateBps months =
     (if principalCents \<le> 0 \<or> months \<le> 0 then 0
      else if annualRateBps \<le> 0 then quot64 principalCents months
      else let monthlyRate = fdiv (fdiv (fofint annualRateBps) (Fin 10000)) (Fin 12);
               principal = fofint principalCents;
               growth = fe_pow fenv (fadd (Fin 1) monthlyRate) (fofint months);
               payment = fdiv (fmul principal (fmul monthlyRate growth)) (fsub growth (Fin 1))
           in int64_of_round (fe_conv fenv) payment)"

definition affordabilityRating :: "int64 \<Rightarrow> int64 \<Rightarrow> int64 \<Rightarrow> AffordabilityRating" where
  "affordabilityRating monthlyHousingCostCents takeHomeCents monthlySurplusCents =
     (if takeHomeCents \<le> 0 \<or> monthlySurplusCents < 0 then AffordabilityNotRecommended
      else let ratioBps = quot64 (i64 (monthlyHousingCostCents * 10000)) takeHomeCents
           in if ratioBps \<le> 2500 then AffordabilityComfortable
              else if ratioBps \<le> 3500 then AffordabilityManageable
              else if ratioBps \<le> 4500 then AffordabilityTight
              else if ratioBps \<le> 5500 then AffordabilityRisky
              else AffordabilityNotRecommended)"

definition CalculateHousingAffordability ::
    "float_env \<Rightarrow> HousingOption \<Rightarrow> HouseholdAssets \<Rightarrow> HousingAffordability" where
  "CalculateHousingAffordability fenv option assets =
     (let netPrice = maxInt64 (i64 (ho_PurchasePriceCents option - ho_GrantAmountCents option)) 0;
          downpayment = centsByBps netPrice (ho_DownpaymentPercentBps option);
          initialDownpayment = initialDownpaymentCents option downpayment;
          finalDownpayment = maxInt64 (i64 (downpayment - initialDownpayment)) 0;
          upfront = i64 (i64 (downpayment + ho_LegalFeesCents option) + ho_BuyerStampDutyCents option);
          loan = (if ho_LoanAmountCents option \<le> 0 then maxInt64 (i64 (netPrice - downpayment)) 0
                  else ho_LoanAmountCents option);
          monthlyMortgage = monthlyPayment fenv loan (ho_InterestRateBps option) (ho_LoanTenureMonths option);
          cpfUsed = minInt64 (as_CPFOACents assets) downpayment;
          cashTopUp = maxInt64 (i64 (upfront - cpfUsed)) 0;
          monthlyHousingCost = i64 (monthlyMortgage + ho_MonthlyMaintenanceCents option);
          monthlySurplus = i64 (i64 (as_TakeHomeCents assets - as_MonthlyExpensesCents assets) - monthlyHousingCost)
      in \<lparr>af_HousingOptionID = ho_ID option,
          af_NetPurchasePriceCents = netPrice,
          af_RequiredDownpaymentCents = downpayment,
          af_InitialDownpaymentCents = initialDownpayment,
          af_FinalDownpaymentCents = finalDownpayment,
          af_UpfrontCostCents = upfront,
          af_EstimatedLoanAmountCents = loan,
          af_MonthlyMortgageCents = monthlyMortgage,
          af_CPFUsedCents = cpfUsed,
          af_CashTopUpRequiredCents = cashTopUp,
          af_RemainingCashCents = i64 (as_CashSavingsCents assets - cashTopUp),
          af_RemainingCPFOACents = i64 (as_CPFOACents assets - cpfUsed),
          af_MonthlyHousingCostCents = monthlyHousingCost,
          af_MonthlySurplusAfterHousingCents = monthlySurplus,
          af_Rating = affordabilityRating monthlyHousingCost (as_TakeHomeCents assets) monthlySurplus\<rparr>)"

text \<open>A range of amounts in which no product of the calculation wraps: a hundred billion dollars.\<close>

definition realistic :: "HousingOption \<Rightarrow> HouseholdAssets \<Rightarrow> bool" where
  "realistic option assets \<longleftrightarrow>
     (\<forall>x\<in>{ho_PurchasePriceCents option, ho_GrantAmountCents option, ho_LegalFeesCents option,
          ho_BuyerStampDutyCents option, as_CashSavingsCents assets, as_CPFOACents assets}.
        0 \<le> x \<and> x \<le> 10000000000000)
     \<and> 0 \<le> ho_DownpaymentPercentBps option \<and> ho_DownpaymentPercentBps option \<le> 10000"

definition ratingRank :: "AffordabilityRating \<Rightarrow> nat" where
  "ratingRank r = (if r = AffordabilityComfortable then 0 else if r = AffordabilityManageable then 1
     else if r = AffordabilityTight then 2 else if r = AffordabilityRisky then 3 else 4)"

definition example_option :: HousingOption where
  "example_option = \<lparr>ho_Notes = [], ho_Evaluation = None, ho_ID = ''h1'', ho_FamilyID = ''f1'', ho_GroupID = [],
     ho_Name = ''Flat'', ho_Type = HousingTypeResaleHDB, ho_Location = [], ho_UnitType = [],
     ho_PurchasePriceCents = 50000000, ho_GrantAmountCents = 2000000, ho_LoanType = LoanTypeBank,
     ho_LoanAmountCents = 0, ho_InterestRateBps = 0, ho_LoanTenureMonths = 300,
     ho_DownpaymentPercentBps = 2500, ho_RenovationBudgetCents = 0, ho_FurnitureBudgetCents = 0,
     ho_LegalFeesCents = 300000, ho_BuyerStampDutyCents = 960000, ho_MonthlyMaintenanceCents = 8000,
     ho_VisibleOnDashboard = True, ho_ExpectedKeyCollectionDate = None, ho_DIAIncomeOverrides = [],
     ho_CreatedAt = 0, ho_UpdatedAt = 0\<rparr>"

definition example_assets :: HouseholdAssets where
  "example_assets = \<lparr>as_CashSavingsCents = 6000000, as_CPFOACents = 9000000, as_TakeHomeCents = 900000,
     as_MonthlyExpensesCents = 300000\<rparr>"

section \<open>The downpayment\<close>

lemma netPrice_bounds:
  assumes "realistic option assets"
  defines "n \<equiv> max (i64 (ho_PurchasePriceCents option - ho_GrantAmountCents option)) 0"
  shows "0 \<le> n" and "n \<le> ho_PurchasePriceCents option" and "n = max (ho_PurchasePriceCents option - ho_GrantAmountCents option) 0"
  using assms by (auto simp: realistic_def in64_def max_def)

lemma downpayment_bounds:
  assumes "realistic option assets"
  defines "n \<equiv> max (i64 (ho_PurchasePriceCents option - ho_GrantAmountCents option)) 0"
  shows "0 \<le> centsByBps n (ho_DownpaymentPercentBps option)" and "centsByBps n (ho_DownpaymentPercentBps option) \<le> n"
    and "centsByBps n (ho_DownpaymentPercentBps option) = share n (ho_DownpaymentPercentBps option)"
proof -
  note n = netPrice_bounds [OF assms(1), folded n_def]
  have p: "ho_PurchasePriceCents option \<le> 10000000000000"
    and b: "0 \<le> ho_DownpaymentPercentBps option" "ho_DownpaymentPercentBps option \<le> 10000"
    using assms(1) by (simp_all add: realistic_def)
  have "n * ho_DownpaymentPercentBps option \<le> 10000000000000 * 10000"
    using n p b by (intro mult_mono) simp_all
  then show c: "centsByBps n (ho_DownpaymentPercentBps option) = share n (ho_DownpaymentPercentBps option)"
    using n b by (intro centsByBps_share) simp_all
  show "0 \<le> centsByBps n (ho_DownpaymentPercentBps option)" "centsByBps n (ho_DownpaymentPercentBps option) \<le> n"
    unfolding c using n b by (simp_all add: share_nonneg share_le)
qed

lemma initialDownpayment_bounds:
  assumes "0 \<le> required"
  shows "0 \<le> initialDownpaymentCents option required" and "initialDownpaymentCents option required \<le> required"
  using assms by (auto simp: initialDownpaymentCents_def Let_def)

lemma quot64_zero_rate:
  assumes "0 < p" "in64 p" "0 < m"
  shows "quot64 p m * m \<le> p" and "p < (quot64 p m + 1) * m"
proof -
  have q: "quot64 p m = p div m" using assms by (simp add: quot64_nonneg)
  have "p = p div m * m + p mod m" "0 \<le> p mod m" "p mod m < m" using assms by simp_all
  then show "quot64 p m * m \<le> p" and "p < (quot64 p m + 1) * m"
    unfolding q distrib_right by linarith+
qed

section \<open>The rating\<close>

lemma rating_rank:
  "ratingRank (affordabilityRating cost takeHome surplus) =
     (if takeHome \<le> 0 \<or> surplus < 0 then 4
      else let q = quot64 (i64 (cost * 10000)) takeHome
           in if q \<le> 2500 then 0 else if q \<le> 3500 then 1 else if q \<le> 4500 then 2 else if q \<le> 5500 then 3 else 4)"
  by (simp add: affordabilityRating_def ratingRank_def Let_def)

lemma quot64_cost_mono:
  assumes "0 \<le> cost" "cost \<le> cost'" "cost' \<le> 900000000000000" "0 < takeHome"
  shows "quot64 (i64 (cost * 10000)) takeHome \<le> quot64 (i64 (cost' * 10000)) takeHome"
proof -
  have "in64 (cost * 10000)" "in64 (cost' * 10000)" using assms by (simp_all add: in64_def)
  then show ?thesis using assms by (simp add: quot64_nonneg zdiv_mono1)
qed

section \<open>Properties\<close>

text \<open>
  For realistic amounts the downpayment is split without loss: the initial and
  the final part are non-negative and add up to the required downpayment, which is at most the
  net price.
\<close>

theorem downpayment_splits_exactly:
  assumes "realistic option assets"
  shows "let a = CalculateHousingAffordability fenv option assets
         in af_InitialDownpaymentCents a + af_FinalDownpaymentCents a = af_RequiredDownpaymentCents a
            \<and> 0 \<le> af_InitialDownpaymentCents a \<and> 0 \<le> af_FinalDownpaymentCents a
            \<and> af_RequiredDownpaymentCents a \<le> af_NetPurchasePriceCents a
            \<and> af_NetPurchasePriceCents a = max (ho_PurchasePriceCents option - ho_GrantAmountCents option) 0"
proof -
  define n where "n = max (i64 (ho_PurchasePriceCents option - ho_GrantAmountCents option)) 0"
  define d where "d = centsByBps n (ho_DownpaymentPercentBps option)"
  note n = netPrice_bounds [OF assms, folded n_def] and d = downpayment_bounds [OF assms, folded n_def, folded d_def]
  note i = initialDownpayment_bounds [OF d(1), of option]
  have "n \<le> 10000000000000" using n(2) assms by (simp add: realistic_def)
  then have "in64 (d - initialDownpaymentCents option d)"
    using i d by (intro in64_lit) linarith
  then show ?thesis using n(3) d(1,2) i
    unfolding CalculateHousingAffordability_def Let_def maxInt64_max minInt64_min
      n_def [symmetric] d_def [symmetric]
    by simp
qed

text \<open>
  Property C6: for realistic amounts the funding plan balances: the CPF used never exceeds the
  CPF savings or the downpayment, CPF and cash top-up together are exactly the upfront cost, and
  what remains of CPF and of cash is what was there less what is used.
\<close>

theorem funding_plan_balances:
  assumes "realistic option assets"
  shows "let a = CalculateHousingAffordability fenv option assets
         in af_CPFUsedCents a + af_CashTopUpRequiredCents a = af_UpfrontCostCents a
            \<and> 0 \<le> af_CPFUsedCents a \<and> af_CPFUsedCents a \<le> as_CPFOACents assets
            \<and> af_CPFUsedCents a \<le> af_RequiredDownpaymentCents a
            \<and> af_RemainingCPFOACents a = as_CPFOACents assets - af_CPFUsedCents a
            \<and> af_RemainingCashCents a = as_CashSavingsCents assets - af_CashTopUpRequiredCents a
            \<and> af_UpfrontCostCents a
                = af_RequiredDownpaymentCents a + ho_LegalFeesCents option + ho_BuyerStampDutyCents option"
proof -
  define n where "n = max (i64 (ho_PurchasePriceCents option - ho_GrantAmountCents option)) 0"
  define d where "d = centsByBps n (ho_DownpaymentPercentBps option)"
  note n = netPrice_bounds [OF assms, folded n_def] and d = downpayment_bounds [OF assms, folded n_def, folded d_def]
  have r: "n \<le> 10000000000000" "0 \<le> ho_LegalFeesCents option" "ho_LegalFeesCents option \<le> 10000000000000"
    "0 \<le> ho_BuyerStampDutyCents option" "ho_BuyerStampDutyCents option \<le> 10000000000000"
    "0 \<le> as_CPFOACents assets" "as_CPFOACents assets \<le> 10000000000000"
    "0 \<le> as_CashSavingsCents assets" "as_CashSavingsCents assets \<le> 10000000000000"
    using n(2) assms by (simp_all add: realistic_def)
  define u where "u = d + ho_LegalFeesCents option + ho_BuyerStampDutyCents option"
  define c where "c = min (as_CPFOACents assets) d"
  have iu: "i64 (i64 (d + ho_LegalFeesCents option) + ho_BuyerStampDutyCents option) = u"
    using r d by (simp only: i64_add_left u_def [symmetric]) (auto simp: u_def in64_def)
  have c: "0 \<le> c" "c \<le> as_CPFOACents assets" "c \<le> d" using r d by (simp_all add: c_def)
  have t: "max (i64 (u - c)) 0 = u - c" "i64 (as_CashSavingsCents assets - (u - c)) = as_CashSavingsCents assets - (u - c)"
    "i64 (as_CPFOACents assets - c) = as_CPFOACents assets - c"
    using r d c by (auto simp: u_def in64_def)
  show ?thesis
    unfolding CalculateHousingAffordability_def Let_def maxInt64_max minInt64_min
      n_def [symmetric] d_def [symmetric] iu c_def [symmetric]
    using c t by (simp add: u_def [symmetric])
qed

text \<open>
  A higher monthly housing cost never improves the affordability rating of the
  same household: with the same take-home income and expenses, the rating of the larger cost
  ranks at least as bad.
\<close>

theorem higher_cost_never_rates_better:
  assumes "0 \<le> cost" and "cost \<le> cost'" and "cost' \<le> 900000000000000"
  shows "ratingRank (affordabilityRating cost takeHome (takeHome - expenses - cost))
       \<le> ratingRank (affordabilityRating cost' takeHome (takeHome - expenses - cost'))"
proof (cases "takeHome \<le> 0 \<or> takeHome - expenses - cost' < 0")
  case True
  then show ?thesis by (auto simp: rating_rank Let_def)
next
  case False
  then have "0 < takeHome" "\<not> takeHome - expenses - cost < 0" using assms by auto
  with quot64_cost_mono [OF assms, of takeHome] False show ?thesis by (simp add: rating_rank Let_def)
qed

text \<open>
  Without interest the monthly payment is the largest whole number of cents whose
  instalments do not exceed the principal: paying it over the whole tenure leaves less than one
  cent per month outstanding.
\<close>

theorem zero_rate_payment_covers_principal:
  assumes "0 < p" and "in64 p" and "rate \<le> 0" and "0 < months"
  shows "monthlyPayment fenv p rate months * months \<le> p
       \<and> p < (monthlyPayment fenv p rate months + 1) * months"
  using assms quot64_zero_rate [of p months] by (simp add: monthlyPayment_def)

section \<open>Witnesses\<close>

lemma example_realistic: "realistic example_option example_assets"
  by (simp add: realistic_def example_option_def example_assets_def)

theorem downpayment_splits_exactly_witness:
  "realistic example_option example_assets
   \<and> af_InitialDownpaymentCents (CalculateHousingAffordability \<lparr>fe_pow = (\<lambda>_ _. NaN), fe_conv = (\<lambda>_. 0)\<rparr> example_option example_assets)
     + af_FinalDownpaymentCents (CalculateHousingAffordability \<lparr>fe_pow = (\<lambda>_ _. NaN), fe_conv = (\<lambda>_. 0)\<rparr> example_option example_assets)
     = af_RequiredDownpaymentCents (CalculateHousingAffordability \<lparr>fe_pow = (\<lambda>_ _. NaN), fe_conv = (\<lambda>_. 0)\<rparr> example_option example_assets)"
  using downpayment_splits_exactly [OF example_realistic] example_realistic by (simp add: Let_def)

theorem funding_plan_balances_witness:
  "realistic example_option example_assets
   \<and> af_CPFUsedCents (CalculateHousingAffordability \<lparr>fe_pow = (\<lambda>_ _. NaN), fe_conv = (\<lambda>_. 0)\<rparr> example_option example_assets)
     + af_CashTopUpRequiredCents (CalculateHousingAffordability \<lparr>fe_pow = (\<lambda>_ _. NaN), fe_conv = (\<lambda>_. 0)\<rparr> example_option example_assets)
     = af_UpfrontCostCents (CalculateHousingAffordability \<lparr>fe_pow = (\<lambda>_ _. NaN), fe_conv = (\<lambda>_. 0)\<rparr> example_option example_assets)"
  using funding_plan_balances [OF example_realistic] example_realistic by (simp add: Let_def)

theorem higher_cost_never_rates_better_witness:
  "(0::int) \<le> 200000 \<and> (200000::int) \<le> 400000 \<and> (400000::int) \<le> 900000000000000
   \<and> ratingRank (affordabilityRating 200000 900000 (900000 - 300000 - 200000))
     \<le> ratingRank (affordabilityRating 400000 900000 (900000 - 300000 - 400000))"
proof -
  have "(0::int) \<le> 200000" "(200000::int) \<le> 400000" "(400000::int) \<le> 900000000000000" by simp_all
  from higher_cost_never_rates_better [OF this, of 900000 300000] this show ?thesis by blast
qed

theorem zero_rate_payment_covers_principal_witness:
  "(0::int) < 36000050 \<and> in64 36000050 \<and> (0::int) \<le> 0 \<and> (0::int) < 300
   \<and> monthlyPayment \<lparr>fe_pow = (\<lambda>_ _. NaN), fe_conv = (\<lambda>_. 0)\<rparr> 36000050 0 300 * 300 \<le> 36000050"
proof -
  have "(0::int) < 36000050" "in64 36000050" "(0::int) \<le> 0" "(0::int) < 300" by (simp_all add: in64_def)
  from zero_rate_payment_covers_principal [OF this, of "\<lparr>fe_pow = (\<lambda>_ _. NaN), fe_conv = (\<lambda>_. 0)\<rparr>"] this
  show ?thesis by blast
qed

end
