(* ===== verification/Server_Mapping.thy ===== *)
theory Server_Mapping
  imports Calc_Income Calc_Housing Repo_Housing
begin

text \<open>
  \<open>internal/server/mapping.go\<close> and the conversions of \<open>housing_checklist.go\<close>: the messages of
  the API and their translation from and to the domain. A message is a record with the fields of
  its generated type under \<open>internal/gen\<close>, an optional field or a message that may be absent an option. The
  lemmas show that a profile or option that has been read from a message is sent and read again
  unchanged.
\<close>

section \<open>Messages\<close>

record user_msg =
  um_Id :: string
  um_Email :: string
  um_DisplayName :: string
  um_Role :: string
  um_Disabled :: bool
  um_MustChangePassword :: bool

record family_msg =
  fm_msg_Id :: string
  fm_msg_Name :: string
  fm_msg_FamilyType :: string

record member_msg =
  mm_FamilyId :: string
  mm_UserId :: string
  mm_DisplayName :: string
  mm_Role :: string

record person_msg =
  pm_Id :: string
  pm_FamilyId :: string
  pm_LinkedUserId :: string
  pm_Name :: string
  pm_Age :: int32
  pm_RelationshipLabel :: string
  pm_EmploymentStatus :: string
  pm_GrossMonthlyIncomeCents :: int64
  pm_ExpectedFutureIncomeCents :: int64
  pm_ExpectedIncomeStartDate :: string
  pm_GraduationDate :: string
  pm_OrdDate :: string
  pm_CashSavingsCents :: int64
  pm_CpfOaCents :: int64
  pm_CpfSaCents :: int64
  pm_CpfMaCents :: int64
  pm_MonthlyExpensesCents :: int64

record history_msg =
  xm_PersonId :: string
  xm_PersonName :: string
  xm_GrossMonthlyIncomeCents :: int64
  xm_ExpectedFutureIncomeCents :: int64
  xm_RecordedAt :: string

record override_msg =
  om_PersonId :: string
  om_ProjectedIncomeCents :: int64

record option_msg =
  hm_Notes :: string
  hm_Evaluation :: "HousingEvaluationSummary option"
  hm_Id :: string
  hm_FamilyId :: string
  hm_HousingGroupId :: "string option"
  hm_Name :: string
  hm_HousingType :: string
  hm_Location :: string
  hm_UnitType :: string
  hm_PurchasePriceCents :: int64
  hm_GrantAmountCents :: int64
  hm_LoanType :: string
  hm_LoanAmountCents :: int64
  hm_InterestRateBps :: int64
  hm_LoanTenureMonths :: int32
  hm_DownpaymentPercentBps :: int64
  hm_RenovationBudgetCents :: int64
  hm_FurnitureBudgetCents :: int64
  hm_LegalFeesCents :: int64
  hm_BuyerStampDutyCents :: int64
  hm_MonthlyMaintenanceCents :: int64
  hm_VisibleOnDashboard :: "bool option"
  hm_ExpectedKeyCollectionDate :: string
  hm_DiaIncomeOverrides :: "override_msg option list"

record group_msg =
  gm_Id :: string
  gm_FamilyId :: string
  gm_Name :: string

record breakdown_msg =
  bm_PersonId :: string
  bm_CurrentGrossIncomeCents :: int64
  bm_ProjectedGrossIncomeCents :: int64
  bm_EmployeeCpfCents :: int64
  bm_EmployerCpfCents :: int64
  bm_TakeHomeIncomeCents :: int64
  bm_MonthlyExpensesCents :: int64
  bm_MonthlySurplusCents :: int64
  bm_CpfPlanningNote :: string

record household_msg =
  sm_CurrentGrossIncomeCents :: int64
  sm_ProjectedGrossIncomeCents :: int64
  sm_TakeHomeIncomeCents :: int64
  sm_EmployeeCpfCents :: int64
  sm_EmployerCpfCents :: int64
  sm_MonthlyExpensesCents :: int64
  sm_MonthlySurplusCents :: int64
  sm_CurrentCpfOaCents :: int64
  sm_CurrentCpfSaCents :: int64
  sm_CurrentCpfMaCents :: int64
  sm_MayNeedDeferredAssessment :: bool

record cpf_msg =
  cm_CpfApplicableWageCents :: int64
  cm_EmployeeCents :: int64
  cm_EmployerCents :: int64
  cm_TotalCents :: int64
  cm_OrdinaryAccountCents :: int64
  cm_SpecialAccountCents :: int64
  cm_MedisaveAccountCents :: int64

record affordability_msg =
  am_HousingOptionId :: string
  am_NetPurchasePriceCents :: int64
  am_RequiredDownpaymentCents :: int64
  am_InitialDownpaymentCents :: int64
  am_FinalDownpaymentCents :: int64
  am_UpfrontCostCents :: int64
  am_EstimatedLoanAmountCents :: int64
  am_MonthlyMortgageCents :: int64
  am_CpfUsedCents :: int64
  am_CashTopUpRequiredCents :: int64
  am_RemainingCashCents :: int64
  am_RemainingCpfOaCents :: int64
  am_MonthlyHousingCostCents :: int64
  am_MonthlySurplusAfterHousingCents :: int64
  am_Rating :: string

section \<open>Fields\<close>

definition requireID :: "string \<Rightarrow> go_error + ID" where
  "requireID v = (let trimmed = trimSpace v in if trimmed = [] then Inl ErrInvalidArgument else Inr trimmed)"

definition parseDateField :: "string \<Rightarrow> go_error + date option" where
  "parseDateField v =
     (let trimmed = trimSpace v in
      if trimmed = [] then Inr None
      else case parse_date trimmed of None \<Rightarrow> Inl ErrInvalidArgument | Some d \<Rightarrow> Inr (Some d))"

definition formatDate :: "date option \<Rightarrow> string" where
  "formatDate v = (case v of None \<Rightarrow> [] | Some d \<Rightarrow> format_date d)"

text \<open>\<open>UTC().Format(time.RFC3339)\<close>: the civil date of a number of days since 1970, then the seconds of the day.\<close>

definition civil :: "int \<Rightarrow> int \<times> int \<times> int" where
  "civil days =
     (let z = days + 719468; era = z div 146097; doe = z mod 146097;
          yoe = (doe - doe div 1460 + doe div 36524 - doe div 146096) div 365;
          doy = doe - (365 * yoe + yoe div 4 - yoe div 100);
          mp = (5 * doy + 2) div 153;
          d = doy - (153 * mp + 2) div 5 + 1;
          m = (if mp < 10 then mp + 3 else mp - 9)
      in (yoe + era * 400 + (if m \<le> 2 then 1 else 0), m, d))"

definition rfc3339 :: "time \<Rightarrow> string" where
  "rfc3339 t =
     (let s = t div 10 ^ 9; (y, m, d) = civil (s div 86400); sec = nat (s mod 86400)
      in (if y < 0 then CHR ''-'' # pad4 (nat (- y)) else if y < 10000 then pad4 (nat y) else itoa (nat y))
         @ ''-'' @ pad2 (nat m) @ ''-'' @ pad2 (nat d) @ ''T'' @ pad2 (sec div 3600) @ '':''
         @ pad2 (sec div 60 mod 60) @ '':'' @ pad2 (sec mod 60) @ ''Z'')"

section \<open>Users, families and people\<close>

definition userToProto :: "User \<Rightarrow> user_msg" where
  "userToProto u = \<lparr>um_Id = us_ID u, um_Email = us_Email u, um_DisplayName = us_DisplayName u, um_Role = us_Role u,
     um_Disabled = (us_DisabledAt u \<noteq> None), um_MustChangePassword = us_MustChangePassword u\<rparr>"

definition familyToProto :: "Family \<Rightarrow> family_msg" where
  "familyToProto f = \<lparr>fm_msg_Id = fa_ID f, fm_msg_Name = fa_Name f, fm_msg_FamilyType = fa_Type f\<rparr>"

definition personFromProto :: "person_msg option \<Rightarrow> go_error + PersonProfile" where
  "personFromProto inp =
     (case inp of None \<Rightarrow> Inl ErrInvalidArgument
      | Some m \<Rightarrow>
          bindS (parseDateField (pm_ExpectedIncomeStartDate m)) (\<lambda>expectedStart.
          bindS (parseDateField (pm_GraduationDate m)) (\<lambda>graduationDate.
          bindS (parseDateField (pm_OrdDate m)) (\<lambda>ordDate.
          Inr \<lparr>pp_ID = trimSpace (pm_Id m), pp_FamilyID = trimSpace (pm_FamilyId m), pp_LinkedUserID = trimSpace (pm_LinkedUserId m),
               pp_Name = trimSpace (pm_Name m), pp_Age = pm_Age m, pp_RelationshipLabel = trimSpace (pm_RelationshipLabel m),
               pp_EmploymentStatus = trimSpace (pm_EmploymentStatus m), pp_GrossMonthlyIncomeCents = pm_GrossMonthlyIncomeCents m,
               pp_ExpectedFutureIncomeCents = pm_ExpectedFutureIncomeCents m, pp_ExpectedIncomeStartDate = expectedStart,
               pp_GraduationDate = graduationDate, pp_ORDDate = ordDate, pp_CashSavingsCents = pm_CashSavingsCents m,
               pp_CPFOACents = pm_CpfOaCents m, pp_CPFSACents = pm_CpfSaCents m, pp_CPFMACents = pm_CpfMaCents m,
               pp_MonthlyExpensesCents = pm_MonthlyExpensesCents m, pp_CreatedAt = 0, pp_UpdatedAt = 0\<rparr>))))"

definition personToProto :: "PersonProfile \<Rightarrow> person_msg" where
  "personToProto p = \<lparr>pm_Id = pp_ID p, pm_FamilyId = pp_FamilyID p, pm_LinkedUserId = pp_LinkedUserID p, pm_Name = pp_Name p,
     pm_Age = i32 (pp_Age p), pm_RelationshipLabel = pp_RelationshipLabel p, pm_EmploymentStatus = pp_EmploymentStatus p,
     pm_GrossMonthlyIncomeCents = pp_GrossMonthlyIncomeCents p, pm_ExpectedFutureIncomeCents = pp_ExpectedFutureIncomeCents p,
     pm_ExpectedIncomeStartDate = formatDate (pp_ExpectedIncomeStartDate p), pm_GraduationDate = formatDate (pp_GraduationDate p),
     pm_OrdDate = formatDate (pp_ORDDate p), pm_CashSavingsCents = pp_CashSavingsCents p, pm_CpfOaCents = pp_CPFOACents p,
     pm_CpfSaCents = pp_CPFSACents p, pm_CpfMaCents = pp_CPFMACents p, pm_MonthlyExpensesCents = pp_MonthlyExpensesCents p\<rparr>"

definition personIncomeHistoryEntryToProto :: "PersonIncomeHistoryEntry \<Rightarrow> history_msg" where
  "personIncomeHistoryEntryToProto h = \<lparr>xm_PersonId = ih_PersonID h, xm_PersonName = ih_PersonName h,
     xm_GrossMonthlyIncomeCents = ih_GrossMonthlyIncomeCents h, xm_ExpectedFutureIncomeCents = ih_ExpectedFutureIncomeCents h,
     xm_RecordedAt = rfc3339 (ih_RecordedAt h)\<rparr>"

section \<open>Housing\<close>

fun overridesFromProto :: "override_msg option list \<Rightarrow> HousingDIAIncomeOverride list" where
  "overridesFromProto [] = []"
| "overridesFromProto (None # vs) = overridesFromProto vs"
| "overridesFromProto (Some v # vs) =
     (if trimSpace (om_PersonId v) = [] then overridesFromProto vs
      else \<lparr>dia_PersonID = trimSpace (om_PersonId v), dia_ProjectedIncomeCents = om_ProjectedIncomeCents v\<rparr> # overridesFromProto vs)"

definition overridesToProto :: "HousingDIAIncomeOverride list \<Rightarrow> override_msg option list" where
  "overridesToProto vs = map (\<lambda>v. Some \<lparr>om_PersonId = dia_PersonID v, om_ProjectedIncomeCents = dia_ProjectedIncomeCents v\<rparr>)
     (filter (\<lambda>v. trimSpace (dia_PersonID v) \<noteq> []) vs)"

definition housingFromProto :: "option_msg option \<Rightarrow> go_error + HousingOption" where
  "housingFromProto inp =
     (case inp of None \<Rightarrow> Inl ErrInvalidArgument
      | Some m \<Rightarrow>
          bindS (parseDateField (hm_ExpectedKeyCollectionDate m)) (\<lambda>keyDate.
          Inr \<lparr>ho_Notes = hm_Notes m, ho_Evaluation = None, ho_ID = trimSpace (hm_Id m), ho_FamilyID = trimSpace (hm_FamilyId m),
               ho_GroupID = trimSpace (case hm_HousingGroupId m of None \<Rightarrow> [] | Some g \<Rightarrow> g), ho_Name = trimSpace (hm_Name m),
               ho_Type = trimSpace (hm_HousingType m), ho_Location = trimSpace (hm_Location m), ho_UnitType = trimSpace (hm_UnitType m),
               ho_PurchasePriceCents = hm_PurchasePriceCents m, ho_GrantAmountCents = hm_GrantAmountCents m,
               ho_LoanType = trimSpace (hm_LoanType m), ho_LoanAmountCents = hm_LoanAmountCents m,
               ho_InterestRateBps = hm_InterestRateBps m, ho_LoanTenureMonths = hm_LoanTenureMonths m,
               ho_DownpaymentPercentBps = hm_DownpaymentPercentBps m, ho_RenovationBudgetCents = hm_RenovationBudgetCents m,
               ho_FurnitureBudgetCents = hm_FurnitureBudgetCents m, ho_LegalFeesCents = hm_LegalFeesCents m,
               ho_BuyerStampDutyCents = hm_BuyerStampDutyCents m, ho_MonthlyMaintenanceCents = hm_MonthlyMaintenanceCents m,
               ho_VisibleOnDashboard = (case hm_VisibleOnDashboard m of None \<Rightarrow> True | Some v \<Rightarrow> v),
               ho_ExpectedKeyCollectionDate = keyDate, ho_DIAIncomeOverrides = overridesFromProto (hm_DiaIncomeOverrides m),
               ho_CreatedAt = 0, ho_UpdatedAt = 0\<rparr>))"

definition housingToProto :: "HousingOption \<Rightarrow> option_msg" where
  "housingToProto h = \<lparr>hm_Notes = ho_Notes h, hm_Evaluation = ho_Evaluation h, hm_Id = ho_ID h, hm_FamilyId = ho_FamilyID h,
     hm_HousingGroupId = (if trimSpace (ho_GroupID h) \<noteq> [] then Some (ho_GroupID h) else None), hm_Name = ho_Name h,
     hm_HousingType = ho_Type h, hm_Location = ho_Location h, hm_UnitType = ho_UnitType h,
     hm_PurchasePriceCents = ho_PurchasePriceCents h, hm_GrantAmountCents = ho_GrantAmountCents h, hm_LoanType = ho_LoanType h,
     hm_LoanAmountCents = ho_LoanAmountCents h, hm_InterestRateBps = ho_InterestRateBps h,
     hm_LoanTenureMonths = i32 (ho_LoanTenureMonths h), hm_DownpaymentPercentBps = ho_DownpaymentPercentBps h,
     hm_RenovationBudgetCents = ho_RenovationBudgetCents h, hm_FurnitureBudgetCents = ho_FurnitureBudgetCents h,
     hm_LegalFeesCents = ho_LegalFeesCents h, hm_BuyerStampDutyCents = ho_BuyerStampDutyCents h,
     hm_MonthlyMaintenanceCents = ho_MonthlyMaintenanceCents h, hm_VisibleOnDashboard = Some (ho_VisibleOnDashboard h),
     hm_ExpectedKeyCollectionDate = formatDate (ho_ExpectedKeyCollectionDate h),
     hm_DiaIncomeOverrides = overridesToProto (ho_DIAIncomeOverrides h)\<rparr>"

definition housingGroupFromProto :: "group_msg option \<Rightarrow> go_error + HousingGroup" where
  "housingGroupFromProto inp =
     (case inp of None \<Rightarrow> Inl ErrInvalidArgument
      | Some m \<Rightarrow> Inr \<lparr>hg_ID = trimSpace (gm_Id m), hg_FamilyID = trimSpace (gm_FamilyId m), hg_Name = trimSpace (gm_Name m),
                     hg_CreatedAt = 0, hg_UpdatedAt = 0\<rparr>)"

definition housingGroupToProto :: "HousingGroup \<Rightarrow> group_msg" where
  "housingGroupToProto g = \<lparr>gm_Id = hg_ID g, gm_FamilyId = hg_FamilyID g, gm_Name = hg_Name g\<rparr>"

definition incomeBreakdownToProto :: "IncomeBreakdown \<Rightarrow> breakdown_msg" where
  "incomeBreakdownToProto b = \<lparr>bm_PersonId = ib_PersonID b, bm_CurrentGrossIncomeCents = ib_CurrentGrossIncomeCents b,
     bm_ProjectedGrossIncomeCents = ib_ProjectedGrossIncomeCents b, bm_EmployeeCpfCents = ib_EmployeeCPFCents b,
     bm_EmployerCpfCents = ib_EmployerCPFCents b, bm_TakeHomeIncomeCents = ib_TakeHomeIncomeCents b,
     bm_MonthlyExpensesCents = ib_MonthlyExpensesCents b, bm_MonthlySurplusCents = ib_MonthlySurplusCents b,
     bm_CpfPlanningNote = ib_CPFPlanningNote b\<rparr>"

definition householdIncomeToProto :: "HouseholdIncomeSummary \<Rightarrow> household_msg" where
  "householdIncomeToProto s = \<lparr>sm_CurrentGrossIncomeCents = hi_CurrentGrossIncomeCents s,
     sm_ProjectedGrossIncomeCents = hi_ProjectedGrossIncomeCents s, sm_TakeHomeIncomeCents = hi_TakeHomeIncomeCents s,
     sm_EmployeeCpfCents = hi_EmployeeCPFCents s, sm_EmployerCpfCents = hi_EmployerCPFCents s,
     sm_MonthlyExpensesCents = hi_MonthlyExpensesCents s, sm_MonthlySurplusCents = hi_MonthlySurplusCents s,
     sm_CurrentCpfOaCents = hi_CurrentCPFOACents s, sm_CurrentCpfSaCents = hi_CurrentCPFSACents s,
     sm_CurrentCpfMaCents = hi_CurrentCPFMACents s, sm_MayNeedDeferredAssessment = hi_MayNeedDeferredAssessment s\<rparr>"

definition cpfContributionToProto :: "CPFContribution \<Rightarrow> cpf_msg" where
  "cpfContributionToProto c = \<lparr>cm_CpfApplicableWageCents = cpf_CPFApplicableWageCents c, cm_EmployeeCents = cpf_EmployeeCents c,
     cm_EmployerCents = cpf_EmployerCents c, cm_TotalCents = cpf_TotalCents c, cm_OrdinaryAccountCents = cpf_OrdinaryAccountCents c,
     cm_SpecialAccountCents = cpf_SpecialAccountCents c, cm_MedisaveAccountCents = cpf_MedisaveAccountCents c\<rparr>"

definition housingAffordabilityToProto :: "HousingAffordability \<Rightarrow> affordability_msg" where
  "housingAffordabilityToProto a = \<lparr>am_HousingOptionId = af_HousingOptionID a, am_NetPurchasePriceCents = af_NetPurchasePriceCents a,
     am_RequiredDownpaymentCents = af_RequiredDownpaymentCents a, am_InitialDownpaymentCents = af_InitialDownpaymentCents a,
     am_FinalDownpaymentCents = af_FinalDownpaymentCents a, am_UpfrontCostCents = af_UpfrontCostCents a,
     am_EstimatedLoanAmountCents = af_EstimatedLoanAmountCents a, am_MonthlyMortgageCents = af_MonthlyMortgageCents a,
     am_CpfUsedCents = af_CPFUsedCents a, am_CashTopUpRequiredCents = af_CashTopUpRequiredCents a,
     am_RemainingCashCents = af_RemainingCashCents a, am_RemainingCpfOaCents = af_RemainingCPFOACents a,
     am_MonthlyHousingCostCents = af_MonthlyHousingCostCents a,
     am_MonthlySurplusAfterHousingCents = af_MonthlySurplusAfterHousingCents a, am_Rating = af_Rating a\<rparr>"

section \<open>Round trips\<close>

lemma parseDateField_format:
  assumes "case d of None \<Rightarrow> True | Some x \<Rightarrow> valid_date x"
  shows "parseDateField (formatDate d) = Inr d"
  using assms by (cases d) (simp_all add: parseDateField_def formatDate_def plain_format_date parse_format_date)

lemma parseDateField_valid: "parseDateField s = Inr d \<Longrightarrow> (case d of None \<Rightarrow> True | Some x \<Rightarrow> valid_date x)"
  by (auto simp: parseDateField_def Let_def parse_date_valid split: if_splits option.splits)

lemma parseDateField_stable: "parseDateField s = Inr d \<Longrightarrow> parseDateField (formatDate d) = Inr d"
  by (intro parseDateField_format parseDateField_valid)

lemma overrides_stable: "overridesFromProto (overridesToProto (overridesFromProto vs)) = overridesFromProto vs"
  by (induction vs rule: overridesFromProto.induct) (simp_all add: overridesToProto_def)

lemma person_stable:
  assumes "personFromProto (Some m) = Inr p" and "in32 (pm_Age m)"
  shows "personFromProto (Some (personToProto p)) = Inr p"
proof -
  from assms(1) obtain a b c where d: "parseDateField (pm_ExpectedIncomeStartDate m) = Inr a" "parseDateField (pm_GraduationDate m) = Inr b"
    "parseDateField (pm_OrdDate m) = Inr c" and p: "Inr p = (Inr \<lparr>pp_ID = trimSpace (pm_Id m), pp_FamilyID = trimSpace (pm_FamilyId m),
               pp_LinkedUserID = trimSpace (pm_LinkedUserId m),
               pp_Name = trimSpace (pm_Name m), pp_Age = pm_Age m, pp_RelationshipLabel = trimSpace (pm_RelationshipLabel m),
               pp_EmploymentStatus = trimSpace (pm_EmploymentStatus m), pp_GrossMonthlyIncomeCents = pm_GrossMonthlyIncomeCents m,
               pp_ExpectedFutureIncomeCents = pm_ExpectedFutureIncomeCents m, pp_ExpectedIncomeStartDate = a,
               pp_GraduationDate = b, pp_ORDDate = c, pp_CashSavingsCents = pm_CashSavingsCents m,
               pp_CPFOACents = pm_CpfOaCents m, pp_CPFSACents = pm_CpfSaCents m, pp_CPFMACents = pm_CpfMaCents m,
               pp_MonthlyExpensesCents = pm_MonthlyExpensesCents m, pp_CreatedAt = 0, pp_UpdatedAt = 0\<rparr> :: go_error + PersonProfile)"
    unfolding personFromProto_def option.case bindS_Inr by metis
  note s = d [THEN parseDateField_stable]
  show ?thesis using p assms(2) s by (simp add: personFromProto_def personToProto_def)
qed

lemma housing_stable:
  assumes "housingFromProto (Some m) = Inr h" and "in32 (hm_LoanTenureMonths m)"
  shows "housingFromProto (Some (housingToProto h)) = Inr h"
proof -
  from assms(1) obtain k where k: "parseDateField (hm_ExpectedKeyCollectionDate m) = Inr k"
    unfolding housingFromProto_def option.case bindS_Inr by blast
  note s = parseDateField_stable [OF k]
  from assms(1) k have h: "Inr h = housingFromProto (Some m)" by simp
  show ?thesis using h k assms(2) s overrides_stable [of "hm_DiaIncomeOverrides m"]
    by (simp add: housingFromProto_def housingToProto_def split: option.splits)
qed

text \<open>
  Property C35: messages are read and sent without loss. A person profile or a housing option that
  was accepted from a message, sent back as a message and read again is the same value: trimming,
  dates, the optional group and visibility, and the income overrides are stable, and the 32-bit
  fields do not wrap.
\<close>

theorem messages_round_trip:
  assumes "personFromProto (Some pm) = Inr p" and "in32 (pm_Age pm)"
    and "housingFromProto (Some hm) = Inr h" and "in32 (hm_LoanTenureMonths hm)"
  shows "personFromProto (Some (personToProto p)) = Inr p \<and> housingFromProto (Some (housingToProto h)) = Inr h"
  using person_stable [OF assms(1,2)] housing_stable [OF assms(3,4)] ..

definition example_person_msg :: person_msg where
  "example_person_msg = \<lparr>pm_Id = [], pm_FamilyId = ''f1'', pm_LinkedUserId = [], pm_Name = '' Mei '', pm_Age = 21,
     pm_RelationshipLabel = ''self'', pm_EmploymentStatus = ''student'', pm_GrossMonthlyIncomeCents = 0,
     pm_ExpectedFutureIncomeCents = 400000, pm_ExpectedIncomeStartDate = [], pm_GraduationDate = '' 2027-05-01'', pm_OrdDate = [],
     pm_CashSavingsCents = 0, pm_CpfOaCents = 0, pm_CpfSaCents = 0, pm_CpfMaCents = 0, pm_MonthlyExpensesCents = 0\<rparr>"

definition example_option_msg :: option_msg where
  "example_option_msg = \<lparr>hm_Notes = [], hm_Evaluation = None, hm_Id = ''h1'', hm_FamilyId = ''f1'', hm_HousingGroupId = None,
     hm_Name = ''Flat '', hm_HousingType = ''bto'', hm_Location = [], hm_UnitType = [], hm_PurchasePriceCents = 0,
     hm_GrantAmountCents = 0, hm_LoanType = ''hdb'', hm_LoanAmountCents = 0, hm_InterestRateBps = 260, hm_LoanTenureMonths = 300,
     hm_DownpaymentPercentBps = 0, hm_RenovationBudgetCents = 0, hm_FurnitureBudgetCents = 0, hm_LegalFeesCents = 0,
     hm_BuyerStampDutyCents = 0, hm_MonthlyMaintenanceCents = 0, hm_VisibleOnDashboard = None,
     hm_ExpectedKeyCollectionDate = [], hm_DiaIncomeOverrides = [None, Some \<lparr>om_PersonId = '' p1'', om_ProjectedIncomeCents = 9\<rparr>]\<rparr>"

theorem messages_round_trip_witness:
  "\<exists>p h. personFromProto (Some example_person_msg) = Inr p \<and> personFromProto (Some (personToProto p)) = Inr p
     \<and> housingFromProto (Some example_option_msg) = Inr h \<and> housingFromProto (Some (housingToProto h)) = Inr h"
proof -
  have "\<not> isl (personFromProto (Some example_person_msg))" "\<not> isl (housingFromProto (Some example_option_msg))" by code_simp+
  then obtain p h where "personFromProto (Some example_person_msg) = Inr p" "housingFromProto (Some example_option_msg) = Inr h"
    by (metis sum.collapse(2))
  with messages_round_trip [of example_person_msg p example_option_msg h] show ?thesis
    by (simp add: example_person_msg_def example_option_msg_def in32_def)
qed

end
