(* ===== verification/Peer_Address.thy ===== *)
theory Peer_Address
  imports Go_Dates
begin

text \<open>
  The address a request comes from: \<open>authPeerIP\<close> of \<open>internal/server/auth_limit.go\<close> with what it
  uses of \<open>net\<close> and \<open>net/netip\<close>, the splitting of host and port and the reading and printing of IPv4
  and IPv6 addresses. A peer is the text of its transport address, absent when the context has
  none. The lemmas show that printing and reading are inverse to each other.
\<close>

section \<open>Addresses\<close>

text \<open>Four octets, or eight groups of 16 bits and a zone.\<close>

datatype Addr = V4 "nat list" | V6 "nat list" string

fun joinWith :: "string \<Rightarrow> string list \<Rightarrow> string" where
  "joinWith sep [] = []"
| "joinWith sep [s] = s"
| "joinWith sep (s # t # ss) = s @ sep @ joinWith sep (t # ss)"

definition hexDigit :: "nat \<Rightarrow> char" where
  "hexDigit n = (if n < 10 then digit n else char_of (87 + n))"

definition isHex :: "char \<Rightarrow> bool" where
  "isHex c \<longleftrightarrow> isDigit c \<or> (97 \<le> byte c \<and> byte c \<le> 102) \<or> (65 \<le> byte c \<and> byte c \<le> 70)"

definition hexDigitVal :: "char \<Rightarrow> nat" where
  "hexDigitVal c = (if byte c \<le> 57 then byte c - 48 else if byte c \<le> 70 then byte c - 55 else byte c - 87)"

definition hexVal :: "string \<Rightarrow> nat" where
  "hexVal s = foldl (\<lambda>acc c. 16 * acc + hexDigitVal c) 0 s"

definition hexText :: "nat \<Rightarrow> string" where
  "hexText x = (if 4096 \<le> x then [hexDigit (x div 4096)] else []) @ (if 256 \<le> x then [hexDigit (x div 256 mod 16)] else [])
     @ (if 16 \<le> x then [hexDigit (x div 16 mod 16)] else []) @ [hexDigit (x mod 16)]"

section \<open>Printing\<close>

definition string4 :: "nat list \<Rightarrow> string" where
  "string4 octets = joinWith ''.'' (map itoa octets)"

definition joinHex :: "nat list \<Rightarrow> string" where
  "joinHex groups = joinWith '':'' (map hexText groups)"

text \<open>The first longest run of at least two zero groups, as in \<open>appendTo6\<close>; 255 when there is none.\<close>

definition zeroRun :: "nat list \<Rightarrow> nat \<times> nat" where
  "zeroRun groups = foldl (\<lambda>(zeroStart, zeroEnd) i.
       let j = i + length (takeWhile (\<lambda>g. g = 0) (drop i groups))
       in if 2 \<le> j - i \<and> zeroEnd - zeroStart < j - i then (i, j) else (zeroStart, zeroEnd)) (255, 255) [0..<8]"

definition string6 :: "nat list \<Rightarrow> string" where
  "string6 groups =
     (let (zeroStart, zeroEnd) = zeroRun groups
      in if zeroStart < 8 then joinHex (take zeroStart groups) @ ''::'' @ joinHex (drop zeroEnd groups) else joinHex groups)"

definition is4In6 :: "nat list \<Rightarrow> bool" where
  "is4In6 groups \<longleftrightarrow> take 6 groups = [0, 0, 0, 0, 0, 65535]"

definition octetsOf :: "nat list \<Rightarrow> nat list" where
  "octetsOf groups = concat (map (\<lambda>g. [g div 256, g mod 256]) groups)"

fun addrString :: "Addr \<Rightarrow> string" where
  "addrString (V4 octets) = string4 octets"
| "addrString (V6 groups zone) =
     (if is4In6 groups then ''::ffff:'' @ string4 (octetsOf (drop 6 groups)) else string6 groups)
     @ (if zone = [] then [] else CHR ''%'' # zone)"

fun unmap :: "Addr \<Rightarrow> Addr" where
  "unmap (V4 octets) = V4 octets"
| "unmap (V6 groups zone) = (if is4In6 groups then V4 (octetsOf (drop 6 groups)) else V6 groups zone)"

fun withZone :: "Addr \<Rightarrow> string \<Rightarrow> Addr" where
  "withZone (V4 octets) z = V4 octets"
| "withZone (V6 groups zone) z = V6 groups z"

section \<open>Reading\<close>

definition octetText :: "string \<Rightarrow> bool" where
  "octetText p \<longleftrightarrow> p \<noteq> [] \<and> list_all isDigit p \<and> (length p = 1 \<or> hd p \<noteq> CHR ''0'') \<and> decVal p \<le> 255"

definition parseIPv4 :: "string \<Rightarrow> nat list option" where
  "parseIPv4 s = (let parts = splitOn (CHR ''.'') s
     in if length parts = 4 \<and> list_all octetText parts then Some (map decVal parts) else None)"

text \<open>The loop of \<open>parseIPv6\<close>: the groups read, the position of the ellipsis among them, and the text
  that is left.\<close>

function scanGroups :: "nat list \<Rightarrow> nat option \<Rightarrow> string \<Rightarrow> (nat list \<times> nat option \<times> string) option" where
  "scanGroups ip ellipsis s =
     (if 8 \<le> length ip then Some (ip, ellipsis, s)
      else let ds = takeWhile isHex s; rest = dropWhile isHex s; ip' = ip @ [hexVal ds] in
        if ds = [] \<or> 4 < length ds then None
        else case rest of
            [] \<Rightarrow> Some (ip', ellipsis, [])
          | c # after \<Rightarrow>
              if c = CHR ''.''
              then if (ellipsis = None \<and> length ip \<noteq> 6) \<or> 6 < length ip then None
                   else (case parseIPv4 s of None \<Rightarrow> None | Some f \<Rightarrow> Some (ip @ [256 * f ! 0 + f ! 1, 256 * f ! 2 + f ! 3], ellipsis, []))
              else if c \<noteq> CHR '':'' \<or> after = [] then None
              else if hd after = CHR '':''
              then if ellipsis \<noteq> None then None
                   else if tl after = [] then Some (ip', Some (length ip'), [])
                   else scanGroups ip' (Some (length ip')) (tl after)
              else scanGroups ip' ellipsis after)"
  by pat_completeness auto
termination by (relation "measure (\<lambda>(ip, ellipsis, s). 8 - length ip)") auto

declare scanGroups.simps [simp del]

definition expandEllipsis :: "nat list \<times> nat option \<times> string \<Rightarrow> nat list option" where
  "expandEllipsis r = (case r of (ip, ellipsis, s) \<Rightarrow>
     if s \<noteq> [] then None
     else if length ip < 8 then (case ellipsis of None \<Rightarrow> None | Some k \<Rightarrow> Some (take k ip @ replicate (8 - length ip) 0 @ drop k ip))
     else if ellipsis \<noteq> None then None else Some ip)"

definition parseGroups :: "string \<Rightarrow> nat list option" where
  "parseGroups s =
     (if hasPrefix s ''::''
      then if drop 2 s = [] then Some (replicate 8 0) else Option.bind (scanGroups [] (Some 0) (drop 2 s)) expandEllipsis
      else Option.bind (scanGroups [] None s) expandEllipsis)"

definition parseIPv6 :: "string \<Rightarrow> Addr option" where
  "parseIPv6 s =
     (let addr = takeWhile (\<lambda>c. c \<noteq> CHR ''%'') s; rest = dropWhile (\<lambda>c. c \<noteq> CHR ''%'') s
      in if rest = ''%'' then None else map_option (\<lambda>g. V6 g (tl rest)) (parseGroups addr))"

definition ParseAddr :: "string \<Rightarrow> Addr option" where
  "ParseAddr s = (case dropWhile (\<lambda>c. c \<notin> set ''.:%'') s of [] \<Rightarrow> None
     | c # _ \<Rightarrow> if c = CHR ''.'' then map_option V4 (parseIPv4 s) else if c = CHR '':'' then parseIPv6 s else None)"

text \<open>\<open>net.SplitHostPort\<close>, the host alone.\<close>

definition splitHost :: "string \<Rightarrow> string option" where
  "splitHost hostport =
     (if CHR '':'' \<notin> set hostport then None
      else let i = length hostport - Suc (length (takeWhile (\<lambda>c. c \<noteq> CHR '':'') (rev hostport))) in
        if hd hostport = CHR ''[''
        then let e = length (takeWhile (\<lambda>c. c \<noteq> CHR '']'') hostport) in
          if e = length hostport \<or> Suc e \<noteq> i \<or> CHR ''['' \<in> set (drop 1 hostport) \<or> CHR '']'' \<in> set (drop (Suc e) hostport) then None
          else Some (take (e - 1) (drop 1 hostport))
        else if CHR '':'' \<in> set (take i hostport) \<or> CHR ''['' \<in> set hostport \<or> CHR '']'' \<in> set hostport then None
        else Some (take i hostport))"

definition authPeerIP :: "string option \<Rightarrow> string" where
  "authPeerIP peer =
     (case peer of None \<Rightarrow> ''unknown''
      | Some addr \<Rightarrow>
          (case splitHost addr of None \<Rightarrow> ''unknown''
           | Some host \<Rightarrow>
               (case ParseAddr host of None \<Rightarrow> ''unknown'' | Some ip \<Rightarrow> addrString (withZone (unmap ip) []))))"


section \<open>Numbers\<close>

lemma hexDigit_char: "n < 16 \<Longrightarrow> isHex (hexDigit n) \<and> hexDigitVal (hexDigit n) = n"
  by (auto simp: hexDigit_def isHex_def hexDigitVal_def)

lemma hexText_hex: "x < 65536 \<Longrightarrow> list_all isHex (hexText x)"
  by (simp add: hexText_def hexDigit_char)

lemma hexText_length: "length (hexText x) \<le> 4"
  by (simp add: hexText_def)

lemma hexText_nonempty [simp]: "hexText x \<noteq> []"
  by (simp add: hexText_def)

lemma hexVal_hexText:
  assumes "x < 65536"
  shows "hexVal (hexText x) = x"
proof -
  have d: "x div 16 div 16 = x div 256" "x div 256 div 16 = x div 4096" by (simp_all add: div_mult2_eq [symmetric])
  have e: "16 * (x div 16) + x mod 16 = x" "16 * (x div 256) + x div 16 mod 16 = x div 16" "16 * (x div 4096) + x div 256 mod 16 = x div 256"
    using mult_div_mod_eq [of 16 x] mult_div_mod_eq [of 16 "x div 16"] mult_div_mod_eq [of 16 "x div 256"] by (simp_all only: d)
  have v: "hexDigitVal (hexDigit (x div 4096)) = x div 4096" "hexDigitVal (hexDigit (y mod 16)) = y mod 16" for y using assms by (simp_all add: hexDigit_char)
  consider "4096 \<le> x" | "x < 4096" "256 \<le> x" | "x < 256" "16 \<le> x" | "x < 16" by linarith
  then show ?thesis
  proof cases
    case 1
    then have "hexVal (hexText x) = 16 * (16 * (16 * (x div 4096) + x div 256 mod 16) + x div 16 mod 16) + x mod 16" by (simp add: hexVal_def hexText_def v hexDigit_char)
    then show ?thesis by (simp only: e)
  next
    case 2
    then have "hexVal (hexText x) = 16 * (16 * (x div 256) + x div 16 mod 16) + x mod 16" by (simp add: hexVal_def hexText_def v hexDigit_char)
    then show ?thesis by (simp only: e)
  next
    case 3
    then have "hexVal (hexText x) = 16 * (x div 16) + x mod 16" by (simp add: hexVal_def hexText_def v hexDigit_char)
    then show ?thesis by (simp only: e)
  next
    case 4
    then show ?thesis by (simp add: hexVal_def hexText_def hexDigit_char)
  qed
qed

lemma itoa_head: "10 \<le> n \<Longrightarrow> hd (itoa n) \<noteq> CHR ''0''"
proof (induction n rule: itoa.induct)
  case (1 n)
  show ?case
  proof (cases "n div 10 < 10")
    case True
    have "byte (digit (n div 10)) = 48 + n div 10" "0 < n div 10" using True 1(2) by simp_all
    then have "digit (n div 10) \<noteq> CHR ''0''" by auto
    with True 1(2) show ?thesis by (simp add: itoa.simps [of n] itoa.simps [of "n div 10"])
  next
    case False
    with 1 show ?thesis by (simp add: itoa.simps [of n])
  qed
qed

lemma itoa_octet: "n < 256 \<Longrightarrow> octetText (itoa n)"
  using itoa_head [of n] itoa_digits [of n] by (cases "n < 10") (simp_all add: octetText_def, simp add: itoa.simps)

lemma digit_no_dot: "list_all isDigit p \<Longrightarrow> CHR ''.'' \<notin> set p"
  by (auto simp: list_all_iff isDigit_def)

lemma splitOn_joinWith: "ps \<noteq> [] \<Longrightarrow> \<forall>p\<in>set ps. d \<notin> set p \<Longrightarrow> splitOn d (joinWith [d] ps) = ps"
  by (induction "[d]" ps rule: joinWith.induct) (simp_all add: splitOn_free splitOn_cons)

lemma parse_string4:
  assumes "length octets = 4" "\<forall>n\<in>set octets. n < 256"
  shows "parseIPv4 (string4 octets) = Some octets"
proof -
  have "splitOn (CHR ''.'') (string4 octets) = map itoa octets"
    unfolding string4_def using assms(1) by (intro splitOn_joinWith) (auto dest: digit_no_dot [OF itoa_digits, THEN notE])
  with assms itoa_octet show ?thesis by (simp add: parseIPv4_def list_all_iff o_def)
qed

section \<open>Groups\<close>

abbreviation groups_ok :: "nat list \<Rightarrow> bool" where
  "groups_ok gs \<equiv> \<forall>g\<in>set gs. g < 65536"

lemma span_hex:
  assumes "x < 65536" and "s = [] \<or> \<not> isHex (hd s)"
  shows "takeWhile isHex (hexText x @ s) = hexText x" "dropWhile isHex (hexText x @ s) = s"
proof -
  have "\<And>c. c \<in> set (hexText x) \<Longrightarrow> isHex c" using hexText_hex [OF assms(1)] by (simp add: list_all_iff)
  moreover have "takeWhile isHex s = []" "dropWhile isHex s = s" using assms(2) by (cases s; simp)+
  ultimately show "takeWhile isHex (hexText x @ s) = hexText x" "dropWhile isHex (hexText x @ s) = s" by simp_all
qed

lemma colon_no_hex [simp]: "\<not> isHex (CHR '':'')"
  by code_simp

lemma hexText_head: "x < 65536 \<Longrightarrow> hexText x @ s \<noteq> [] \<and> hd (hexText x @ s) \<noteq> CHR '':''"
  using hexText_hex [of x] by (cases "hexText x") auto

lemma joinHex_Cons: "joinHex (g # gs) = hexText g @ (if gs = [] then [] else CHR '':'' # joinHex gs)"
  by (cases gs) (simp_all add: joinHex_def)

lemma joinHex_head: "gs \<noteq> [] \<Longrightarrow> groups_ok gs \<Longrightarrow> joinHex gs @ s \<noteq> [] \<and> hd (joinHex gs @ s) \<noteq> CHR '':''"
  using hexText_head by (cases gs) (simp_all add: joinHex_Cons)

text \<open>One round of the loop on a printed group.\<close>

lemma scan_group:
  assumes "g < 65536" "length ip < 8"
  shows "scanGroups ip ell (hexText g) = Some (ip @ [g], ell, [])"
    and "s \<noteq> [] \<Longrightarrow> hd s \<noteq> CHR '':'' \<Longrightarrow> scanGroups ip ell (hexText g @ CHR '':'' # s) = scanGroups (ip @ [g]) ell s"
    and "scanGroups ip None (hexText g @ CHR '':'' # CHR '':'' # s)
       = (if s = [] then Some (ip @ [g], Some (Suc (length ip)), []) else scanGroups (ip @ [g]) (Some (Suc (length ip))) s)"
proof -
  have e: "takeWhile isHex (hexText g) = hexText g" "dropWhile isHex (hexText g) = []" using span_hex [OF assms(1), of "[]"] by simp_all
  have c: "takeWhile isHex (hexText g @ CHR '':'' # s) = hexText g" "dropWhile isHex (hexText g @ CHR '':'' # s) = CHR '':'' # s" for s
    by (rule span_hex [OF assms(1)]; simp)+
  have n: "\<not> 4 < length (hexText g)" "\<not> 8 \<le> length ip" using hexText_length [of g] assms(2) by simp_all
  note run = Let_def hexVal_hexText [OF assms(1)] n
  show "scanGroups ip ell (hexText g) = Some (ip @ [g], ell, [])"
    by (simp add: scanGroups.simps [of ip] run e del: dropWhile_eq_Nil_conv)
  show "scanGroups ip ell (hexText g @ CHR '':'' # s) = scanGroups (ip @ [g]) ell s" if "s \<noteq> []" "hd s \<noteq> CHR '':''"
    using that by (simp add: scanGroups.simps [of ip] run c)
  show "scanGroups ip None (hexText g @ CHR '':'' # CHR '':'' # s)
       = (if s = [] then Some (ip @ [g], Some (Suc (length ip)), []) else scanGroups (ip @ [g]) (Some (Suc (length ip))) s)"
    by (simp add: scanGroups.simps [of ip] run c)
qed

lemma scan_all:
  "gs \<noteq> [] \<Longrightarrow> groups_ok gs \<Longrightarrow> length ip + length gs \<le> 8 \<Longrightarrow> scanGroups ip ell (joinHex gs) = Some (ip @ gs, ell, [])"
proof (induction gs arbitrary: ip)
  case (Cons g gs)
  then show ?case using joinHex_head [of gs "[]"] by (cases "gs = []") (simp_all add: joinHex_Cons scan_group)
qed simp

lemma scan_ellipsis:
  "gs \<noteq> [] \<Longrightarrow> groups_ok gs \<Longrightarrow> length ip + length gs \<le> 8 \<Longrightarrow> scanGroups ip None (joinHex gs @ CHR '':'' # CHR '':'' # s)
     = (if s = [] then Some (ip @ gs, Some (length ip + length gs), []) else scanGroups (ip @ gs) (Some (length ip + length gs)) s)"
proof (induction gs arbitrary: ip)
  case (Cons g gs)
  show ?case
  proof (cases "gs = []")
    case True
    with Cons.prems show ?thesis by (simp add: joinHex_Cons scan_group)
  next
    case False
    with Cons.prems joinHex_head [of gs "CHR '':'' # CHR '':'' # s"]
    have "scanGroups ip None (joinHex (g # gs) @ CHR '':'' # CHR '':'' # s) = scanGroups (ip @ [g]) None (joinHex gs @ CHR '':'' # CHR '':'' # s)"
      by (simp add: joinHex_Cons scan_group(2))
    with Cons.IH [of "ip @ [g]"] False Cons.prems show ?thesis by simp
  qed
qed simp


section \<open>Addresses read back\<close>

definition runOk :: "nat list \<Rightarrow> nat \<times> nat \<Rightarrow> bool" where
  "runOk gs r \<longleftrightarrow> (case r of (zs, ze) \<Rightarrow> \<not> zs < 8 \<or> (zs + 2 \<le> ze \<and> ze \<le> length gs \<and> gs = take zs gs @ replicate (ze - zs) 0 @ drop ze gs))"

lemma zeros_at:
  assumes "n = length (takeWhile (\<lambda>g. g = 0) (drop i gs))"
  shows "gs = take i gs @ replicate n (0 :: nat) @ drop (i + n) gs"
proof -
  have "takeWhile (\<lambda>g. g = 0) (drop i gs) = replicate n 0" unfolding assms
    by (rule replicate_length_same [symmetric]) (auto dest: set_takeWhileD)
  moreover have "dropWhile (\<lambda>g. g = 0) (drop i gs) = drop (i + n) gs" by (simp add: dropWhile_eq_drop assms add.commute)
  ultimately have "drop i gs = replicate n 0 @ drop (i + n) gs" by (metis takeWhile_dropWhile_id)
  then show ?thesis by (metis append_take_drop_id)
qed

lemma zeroRun_ok: "runOk gs (zeroRun gs)"
proof -
  have step: "runOk gs (if 2 \<le> j - i \<and> q < j - i then (i, j) else r)"
    if "runOk gs r" "j = i + length (takeWhile (\<lambda>g. g = 0) (drop i gs))" for r i j q
  proof -
    from zeros_at [OF refl, of gs i] that(2) have "gs = take i gs @ replicate (j - i) 0 @ drop j gs" by simp
    moreover have "j \<le> length gs" if "2 \<le> j - i"
    proof -
      have "length (takeWhile (\<lambda>g. g = 0) (drop i gs)) \<le> length gs - i" using length_takeWhile_le [of _ "drop i gs"] by simp
      with that \<open>j = _\<close> show ?thesis by simp
    qed
    ultimately show ?thesis using that(1) by (auto simp: runOk_def)
  qed
  have "runOk gs (foldl (\<lambda>(zs, ze) i. let j = i + length (takeWhile (\<lambda>g. g = 0) (drop i gs))
       in if 2 \<le> j - i \<and> ze - zs < j - i then (i, j) else (zs, ze)) r js)" if "runOk gs r" for r js
    using that
  proof (induction js arbitrary: r)
    case (Cons i js)
    from Cons.IH [OF step [OF Cons.prems refl, where i = i and q = "snd r - fst r"]] show ?case
      by (simp only: foldl_Cons Let_def case_prod_beta prod.collapse)
  qed simp
  moreover have "runOk gs (255, 255)" by (simp add: runOk_def)
  ultimately show ?thesis unfolding zeroRun_def .
qed

lemma expand_run:
  assumes "gs = as @ replicate n 0 @ bs" "length gs = 8" "0 < n"
  shows "expandEllipsis (as @ bs, Some (length as), []) = Some gs"
  using assms by (simp add: expandEllipsis_def)

lemma no_ellipsis_prefix: "gs \<noteq> [] \<Longrightarrow> groups_ok gs \<Longrightarrow> \<not> hasPrefix (joinHex gs @ s) ''::''"
  using joinHex_head [of gs s] by (cases "joinHex gs @ s") (simp_all add: hasPrefix_def)

lemma parse_string6:
  assumes "length gs = 8" "groups_ok gs"
  shows "parseGroups (string6 gs) = Some gs"
proof -
  obtain zs ze where z: "zeroRun gs = (zs, ze)" by fastforce
  show ?thesis
  proof (cases "zs < 8")
    case False
    have "gs \<noteq> []" using assms(1) by auto
    with False assms show ?thesis using no_ellipsis_prefix [of gs "[]"]
      by (simp add: string6_def z parseGroups_def scan_all expandEllipsis_def)
  next
    case True
    define as bs where "as = take zs gs" and "bs = drop ze gs"
    from zeroRun_ok [of gs] True have gs: "gs = as @ replicate (ze - zs) 0 @ bs" "zs + 2 \<le> ze" "ze \<le> 8" by (simp_all add: z runOk_def as_def bs_def assms(1))
    have ab: "groups_ok as" "groups_ok bs" "length as = zs" "length as + length bs \<le> 8"
      using assms True gs(2,3) set_take_subset [of zs gs] set_drop_subset [of ze gs] by (auto simp: as_def bs_def)
    have s: "string6 gs = joinHex as @ ''::'' @ joinHex bs" by (simp add: string6_def z True as_def bs_def)
    have n: "0 < ze - zs" using gs(2) by simp
    note ex = expand_run [OF gs(1) assms(1) n]
    have tail: "bs \<noteq> [] \<Longrightarrow> joinHex bs \<noteq> []" using joinHex_head [of bs "[]"] ab(2) by simp
    show ?thesis
    proof (cases "as = []")
      case True
      have z8: "gs = replicate 8 0" if "bs = []" using gs(1) assms(1) that True by (metis append_Nil append_Nil2 length_replicate)
      have s': "string6 gs = ''::'' @ joinHex bs" using s True by (simp add: joinHex_def [of "[]"])
      show ?thesis unfolding s' using True ex ab tail z8
        by (cases "bs = []") (simp_all add: parseGroups_def hasPrefix_def joinHex_def [of "[]"] scan_all)
    next
      case False
      with ab have "scanGroups [] None (string6 gs) = Some (as @ bs, Some (length as), [])" using tail
        by (cases "bs = []") (simp_all add: s scan_ellipsis scan_all joinHex_def [of "[]"])
      with ex False no_ellipsis_prefix [of as "''::'' @ joinHex bs"] ab show ?thesis by (simp add: parseGroups_def s)
    qed
  qed
qed


lemma digit_hex: "isDigit c \<Longrightarrow> isHex c"
  by (simp add: isHex_def)

lemma dot_no_hex [simp]: "\<not> isHex (CHR ''.'')"
  by code_simp

lemma itoa_length: "n < 1000 \<Longrightarrow> length (itoa n) \<le> 3"
  by (simp add: itoa.simps [of n] itoa.simps [of "n div 10"] itoa.simps [of "n div 10 div 10"])

lemma scan_octets:
  assumes "length octets = 4" "\<forall>n\<in>set octets. n < 256" "length ip \<le> 6"
  shows "scanGroups ip (Some k) (string4 octets) = Some (ip @ [256 * octets ! 0 + octets ! 1, 256 * octets ! 2 + octets ! 3], Some k, [])"
proof -
  obtain a b c d where o4: "octets = [a, b, c, d]" using assms(1) by (auto simp: length_Suc_conv numeral_eq_Suc)
  have tx: "string4 octets = itoa a @ CHR ''.'' # joinWith ''.'' (map itoa [b, c, d])" by (simp add: string4_def o4)
  have "\<And>c. c \<in> set (itoa a) \<Longrightarrow> isHex c" using itoa_digits [of a] by (auto simp: list_all_iff digit_hex)
  then have s: "takeWhile isHex (string4 octets) = itoa a" "dropWhile isHex (string4 octets) = CHR ''.'' # joinWith ''.'' (map itoa [b, c, d])"
    unfolding tx by (simp_all add: takeWhile_append2 dropWhile_append2)
  have n: "\<not> 4 < length (itoa a)" "\<not> 8 \<le> length ip" "\<not> 6 < length ip" using itoa_length [of a] assms by (simp_all add: o4)
  show ?thesis by (simp add: scanGroups.simps [of ip] Let_def s n parse_string4 [OF assms(1,2)])
qed

lemma parse_mapped:
  assumes "length octets = 4" "\<forall>n\<in>set octets. n < 256"
  shows "parseGroups (''::ffff:'' @ string4 octets) = Some [0, 0, 0, 0, 0, 65535, 256 * octets ! 0 + octets ! 1, 256 * octets ! 2 + octets ! 3]"
proof -
  have f: "hexText 65535 = ''ffff''" "replicate 5 (0 :: nat) = [0, 0, 0, 0, 0]"
    by (simp add: hexText_def hexDigit_def char_of_def bit_iff_odd) code_simp
  obtain a rest where ar: "octets = a # rest" using assms(1) by (cases octets) auto
  with assms(1) have "rest \<noteq> []" by auto
  with ar have "string4 octets = itoa a @ CHR ''.'' # string4 rest" by (cases rest) (simp_all add: string4_def)
  moreover have "hd (itoa a @ s) \<noteq> CHR '':''" for s using itoa_digits [of a] by (cases "itoa a") (auto simp: isDigit_def)
  ultimately have "string4 octets \<noteq> []" "hd (string4 octets) \<noteq> CHR '':''" by simp_all
  from scan_group(2) [of 65535 "[]" "string4 octets" "Some 0", OF _ _ this] scan_octets [OF assms, of "[65535]" 0]
  have "scanGroups [] (Some 0) (''ffff:'' @ string4 octets) = Some ([65535, 256 * octets ! 0 + octets ! 1, 256 * octets ! 2 + octets ! 3], Some 0, [])"
    by (simp add: f)
  then show ?thesis by (simp add: parseGroups_def hasPrefix_def expandEllipsis_def f)
qed

section \<open>Whole addresses\<close>

fun addr_ok :: "Addr \<Rightarrow> bool" where
  "addr_ok (V4 octets) \<longleftrightarrow> length octets = 4 \<and> (\<forall>n\<in>set octets. n < 256)"
| "addr_ok (V6 groups zone) \<longleftrightarrow> length groups = 8 \<and> groups_ok groups \<and> (is4In6 groups \<longrightarrow> zone = []) \<and> set zone \<inter> set ''[]'' = {}"

lemma octetsOf_ok:
  assumes "length gs = 8" "groups_ok gs"
  shows "length (octetsOf (drop 6 gs)) = 4" "\<forall>n\<in>set (octetsOf (drop 6 gs)). n < 256"
    "is4In6 gs \<Longrightarrow> gs = [0, 0, 0, 0, 0, 65535, 256 * octetsOf (drop 6 gs) ! 0 + octetsOf (drop 6 gs) ! 1,
       256 * octetsOf (drop 6 gs) ! 2 + octetsOf (drop 6 gs) ! 3]"
proof -
  have "\<exists>x y. xs = [x, y]" if "length xs = 2" for xs :: "nat list" using that by (auto simp: length_Suc_conv numeral_2_eq_2)
  from this [of "drop 6 gs"] assms(1) obtain x y where xy: "drop 6 gs = [x, y]" by auto
  then have "x \<in> set gs" "y \<in> set gs" using set_drop_subset [of 6 gs] by auto
  with assms(2) have "x < 65536" "y < 65536" by auto
  then show "length (octetsOf (drop 6 gs)) = 4" "\<forall>n\<in>set (octetsOf (drop 6 gs)). n < 256" by (auto simp: xy octetsOf_def)
  show "gs = [0, 0, 0, 0, 0, 65535, 256 * octetsOf (drop 6 gs) ! 0 + octetsOf (drop 6 gs) ! 1,
       256 * octetsOf (drop 6 gs) ! 2 + octetsOf (drop 6 gs) ! 3]" if "is4In6 gs"
    using that append_take_drop_id [of 6 gs] by (simp add: xy octetsOf_def is4In6_def)
qed

definition groupText :: "nat list \<Rightarrow> string" where
  "groupText gs = (if is4In6 gs then ''::ffff:'' @ string4 (octetsOf (drop 6 gs)) else string6 gs)"

lemma parse_groupText:
  assumes "length gs = 8" "groups_ok gs"
  shows "parseGroups (groupText gs) = Some gs"
proof (cases "is4In6 gs")
  case True
  with parse_mapped [OF octetsOf_ok(1,2) [OF assms]] octetsOf_ok(3) [OF assms True, symmetric] show ?thesis by (simp add: groupText_def)
qed (simp add: groupText_def parse_string6 assms)

text \<open>The characters of a printed address.\<close>
lemma joinHex_chars: "groups_ok gs \<Longrightarrow> \<forall>c\<in>set (joinHex gs). isHex c \<or> c = CHR '':''"
proof (induction gs)
  case (Cons g gs)
  then show ?case using hexText_hex [of g] by (auto simp: joinHex_Cons list_all_iff)
qed (simp add: joinHex_def)

lemma string4_chars: "\<forall>c\<in>set (string4 octets). isDigit c \<or> c = CHR ''.''"
proof (induction octets rule: induct_list012)
  case (3 a b octets)
  then show ?case using itoa_digits [of a] by (auto simp: string4_def list_all_iff)
qed (auto simp: string4_def list_all_iff dest: bspec [OF itoa_digits [unfolded list_all_iff]])


lemma joinHex_colon: "2 \<le> length gs \<Longrightarrow> CHR '':'' \<in> set (joinHex gs)"
  by (cases gs) (auto simp: joinHex_Cons)

lemma string6_chars:
  assumes "length gs = 8" "groups_ok gs"
  shows "(\<forall>c\<in>set (string6 gs). isHex c \<or> c = CHR '':'') \<and> CHR '':'' \<in> set (string6 gs)"
proof -
  obtain zs ze where z: "zeroRun gs = (zs, ze)" by fastforce
  have "groups_ok (take zs gs)" "groups_ok (drop ze gs)" using assms(2) by (auto dest: in_set_takeD in_set_dropD)
  with assms joinHex_chars joinHex_colon [of gs] show ?thesis by (simp add: string6_def z) blast
qed

text \<open>The first separator decides between the two families.\<close>

lemma first_separator:
  "\<forall>c\<in>set s. isHex c \<or> c = d \<Longrightarrow> d \<in> set s \<Longrightarrow> d \<in> set ''.:%'' \<Longrightarrow> \<exists>u. dropWhile (\<lambda>c. c \<notin> set ''.:%'') (s @ t) = d # u"
proof (induction s)
  case (Cons a s)
  have "\<not> isHex c" if "c \<in> set ''.:%''" for c using that by (auto simp: isHex_def isDigit_def)
  with Cons show ?case by (cases "a = d") auto
qed simp

lemma parse_v6:
  assumes "addr_ok (V6 gs zone)"
  shows "ParseAddr (addrString (V6 gs zone)) = Some (V6 gs zone)"
proof -
  let ?z = "if zone = [] then [] else CHR ''%'' # zone"
  have ok: "length gs = 8" "groups_ok gs" using assms by simp_all
  have a: "addrString (V6 gs zone) = groupText gs @ ?z" by (simp add: groupText_def)
  have hexp: "isHex c \<Longrightarrow> c \<noteq> CHR ''%''" for c by (auto simp: isHex_def isDigit_def)
  have "CHR ''%'' \<notin> set (groupText gs) \<and> (\<exists>u. dropWhile (\<lambda>c. c \<notin> set ''.:%'') (groupText gs @ ?z) = CHR '':'' # u)"
  proof (cases "is4In6 gs")
    case True
    then show ?thesis using string4_chars [of "octetsOf (drop 6 gs)"] digit_hex hexp by (force simp: groupText_def)
  next
    case False
    with string6_chars [OF ok] first_separator [of "string6 gs" "CHR '':''" ?z] hexp show ?thesis by (auto simp: groupText_def)
  qed
  then obtain u where p: "CHR ''%'' \<notin> set (groupText gs)" and u: "dropWhile (\<lambda>c. c \<notin> set ''.:%'') (groupText gs @ ?z) = CHR '':'' # u" by blast
  from p have "\<And>c. c \<in> set (groupText gs) \<Longrightarrow> c \<noteq> CHR ''%''" by auto
  then have "takeWhile (\<lambda>c. c \<noteq> CHR ''%'') (groupText gs @ ?z) = groupText gs" "dropWhile (\<lambda>c. c \<noteq> CHR ''%'') (groupText gs @ ?z) = ?z"
    by (simp_all add: takeWhile_append2 dropWhile_append2)
  then have "parseIPv6 (groupText gs @ ?z) = Some (V6 gs zone)" by (simp add: parseIPv6_def parse_groupText [OF ok])
  then show ?thesis unfolding a ParseAddr_def u by simp
qed

lemma parse_addr: "addr_ok ip \<Longrightarrow> ParseAddr (addrString ip) = Some ip"
proof (cases ip)
  case (V4 octets)
  assume "addr_ok ip"
  with V4 have o4: "length octets = 4" "\<forall>n\<in>set octets. n < 256" by simp_all
  then obtain a b rest where "octets = a # b # rest" by (cases octets rule: remdups_adj.cases) auto
  then have "CHR ''.'' \<in> set (string4 octets)" by (simp add: string4_def)
  moreover have "\<forall>c\<in>set (string4 octets). isHex c \<or> c = CHR ''.''" using string4_chars digit_hex by blast
  ultimately obtain u where "dropWhile (\<lambda>c. c \<notin> set ''.:%'') (string4 octets @ []) = CHR ''.'' # u" using first_separator [of "string4 octets" "CHR ''.''" "[]"] by auto
  then show ?thesis by (simp add: V4 ParseAddr_def parse_string4 [OF o4])
qed (use parse_v6 in blast)

section \<open>Host and port\<close>

lemma last_colon:
  assumes "CHR '':'' \<notin> set port"
  shows "length (h @ CHR '':'' # port) - Suc (length (takeWhile (\<lambda>c. c \<noteq> CHR '':'') (rev (h @ CHR '':'' # port)))) = length h"
proof -
  have "takeWhile (\<lambda>c. c \<noteq> CHR '':'') (rev port @ CHR '':'' # rev h) = rev port"
    using assms by (subst takeWhile_append2) auto
  then show ?thesis by simp
qed

lemma split_plain:
  assumes "set (h @ port) \<inter> set '':[]'' = {}" "h \<noteq> []"
  shows "splitHost (h @ CHR '':'' # port) = Some h"
proof -
  have "CHR '':'' \<notin> set port" using assms(1) by auto
  note i = last_colon [OF this, of h]
  have "hd (h @ CHR '':'' # port) \<noteq> CHR ''[''" using assms by (cases h) auto
  with assms(1) show ?thesis unfolding splitHost_def Let_def i by auto
qed

lemma split_bracketed:
  assumes "set h \<inter> set ''[]'' = {}" "set port \<inter> set '':[]'' = {}"
  shows "splitHost (CHR ''['' # h @ CHR '']'' # CHR '':'' # port) = Some h"
proof -
  have "CHR '':'' \<notin> set port" using assms(2) by auto
  note i = last_colon [OF this, of "CHR ''['' # h @ '']''"]
  have "\<And>c. c \<in> set h \<Longrightarrow> c \<noteq> CHR '']''" using assms(1) by auto
  then have e: "takeWhile (\<lambda>c. c \<noteq> CHR '']'') (CHR ''['' # h @ CHR '']'' # CHR '':'' # port) = CHR ''['' # h" by (simp add: takeWhile_append2)
  have s: "CHR ''['' # h @ CHR '']'' # CHR '':'' # port = (CHR ''['' # h @ '']'') @ CHR '':'' # port" by simp
  have i': "length (CHR ''['' # h @ CHR '']'' # CHR '':'' # port)
      - Suc (length (takeWhile (\<lambda>c. c \<noteq> CHR '':'') (rev (CHR ''['' # h @ CHR '']'' # CHR '':'' # port)))) = Suc (Suc (length h))"
    unfolding s i by simp
  show ?thesis using assms unfolding splitHost_def Let_def e i' by auto
qed


text \<open>The text of a TCP address, \<open>net.JoinHostPort\<close> of the address and the port.\<close>

fun tcpText :: "Addr \<Rightarrow> string \<Rightarrow> string" where
  "tcpText (V4 octets) port = addrString (V4 octets) @ CHR '':'' # port"
| "tcpText (V6 groups zone) port = CHR ''['' # addrString (V6 groups zone) @ CHR '']'' # CHR '':'' # port"

lemma digits_plain: "list_all isDigit p \<Longrightarrow> set p \<inter> set '':[]'' = {}"
  by (auto simp: list_all_iff isDigit_def)

lemma split_tcpText:
  assumes "addr_ok ip" "list_all isDigit port"
  shows "splitHost (tcpText ip port) = Some (addrString ip)"
proof (cases ip)
  case (V4 octets)
  have "set (string4 octets) \<inter> set '':[]'' = {}" using string4_chars [of octets] by (auto simp: isDigit_def)
  moreover have "string4 octets \<noteq> []" using assms(1) V4 by (cases octets rule: remdups_adj.cases) (auto simp: string4_def)
  ultimately show ?thesis using digits_plain [OF assms(2)] by (auto simp: V4 intro!: split_plain)
next
  case (V6 gs zone)
  have "set (groupText gs) \<inter> set ''[]'' = {}"
    using string6_chars [of gs] string4_chars [of "octetsOf (drop 6 gs)"] assms(1) by (force simp: groupText_def V6 isHex_def isDigit_def)
  with assms(1) have "set (addrString ip) \<inter> set ''[]'' = {}" by (auto simp: V6 groupText_def split: if_splits)
  then show ?thesis using digits_plain [OF assms(2)] by (simp add: V6 split_bracketed del: addrString.simps)
qed

lemma host_ok: "addr_ok ip \<Longrightarrow> addr_ok (withZone (unmap ip) [])"
proof (cases ip)
  case (V6 gs zone)
  assume "addr_ok ip"
  then have "length gs = 8" "groups_ok gs" by (simp_all add: V6)
  then show ?thesis using octetsOf_ok(1,2) [of gs] by (simp add: V6)
qed simp

section \<open>Properties\<close>

text \<open>
  Property C31: the key of a peer is its host. For every IPv4 or IPv6 address, the limiter counts a
  connection under the canonical text of the address; the port, the zone and the form in which an
  IPv4 address is carried do not change the key, and different hosts have different keys.
\<close>

theorem peer_key_exact:
  assumes "addr_ok ip" "addr_ok ip'" "list_all isDigit port" "list_all isDigit port'"
  shows "authPeerIP (Some (tcpText ip port)) = addrString (withZone (unmap ip) [])
    \<and> (authPeerIP (Some (tcpText ip port)) = authPeerIP (Some (tcpText ip' port')) \<longleftrightarrow> withZone (unmap ip) [] = withZone (unmap ip') [])"
proof -
  have key: "authPeerIP (Some (tcpText ip port)) = addrString (withZone (unmap ip) [])" if "addr_ok ip" "list_all isDigit port" for ip port
    unfolding authPeerIP_def option.case split_tcpText [OF that] parse_addr [OF that(1)] ..
  have "addrString (withZone (unmap ip) []) = addrString (withZone (unmap ip') []) \<longleftrightarrow> withZone (unmap ip) [] = withZone (unmap ip') []"
    using parse_addr [OF host_ok [OF assms(1)]] parse_addr [OF host_ok [OF assms(2)]] by (metis option.inject)
  with key [OF assms(1,3)] key [OF assms(2,4)] show ?thesis by (simp only: simp_thms)
qed

theorem peer_key_exact_witness:
  "authPeerIP (Some (tcpText (V6 [0, 0, 0, 0, 0, 65535, 258, 772] []) ''80'')) = ''1.2.3.4''
   \<and> authPeerIP (Some (tcpText (V4 [1, 2, 3, 4]) ''5000'')) = ''1.2.3.4''
   \<and> authPeerIP (Some (tcpText (V6 [1, 2, 3, 4, 5, 6, 7, 8] ''eth0'') ''80'')) \<noteq> ''1.2.3.4''"
proof -
  have d: "list_all isDigit ''80''" "list_all isDigit ''5000''" by code_simp+
  have a: "addr_ok (V4 [1, 2, 3, 4])" "addr_ok (V6 [0, 0, 0, 0, 0, 65535, 258, 772] [])" "addr_ok (V6 [1, 2, 3, 4, 5, 6, 7, 8] ''eth0'')"
    by (simp_all add: is4In6_def)
  have s: "string4 [1, 2, 3, 4] = ''1.2.3.4''" by code_simp
  have u: "withZone (unmap (V6 [0, 0, 0, 0, 0, 65535, 258, 772] [])) [] = V4 [1, 2, 3, 4]"
    "withZone (unmap (V6 [1, 2, 3, 4, 5, 6, 7, 8] ''eth0'')) [] \<noteq> V4 [1, 2, 3, 4]" "withZone (unmap (V4 [1, 2, 3, 4])) [] = V4 [1, 2, 3, 4]"
    by (simp_all add: is4In6_def octetsOf_def)
  from peer_key_exact [OF a(2,1) d] peer_key_exact [OF a(1,3) d(2,1)] u s show ?thesis by (metis addrString.simps(1))
qed

end
