(* ===== verification/Server_Auth.thy ===== *)
theory Server_Auth
  imports Server_Mapping Family_Reads Peer_Address
begin

text \<open>
  The edge of the API: \<open>errors.go\<close> (status codes), \<open>auth_context.go\<close> (who is calling),
  \<open>auth_limit.go\<close> (the limit per peer) and \<open>auth.go\<close> (accounts and sessions) of
  \<open>internal/server\<close>. A request that may be absent is an option; the metadata of the call is the
  lookup of a header, absent when the context carries none. What the handlers rely on about the
  caller is the contract of the locale \<open>authenticator\<close>, which the session lookup satisfies.
\<close>

section \<open>Status codes\<close>

datatype code = CodeCanceled | CodeDeadlineExceeded | InvalidArgument | Unauthenticated | PermissionDenied | NotFound
  | AlreadyExists | FailedPrecondition | ResourceExhausted | Internal | Unimplemented

record status =
  st_Code :: code
  st_Message :: string
  st_RetryDelay :: "duration option"

definition statusError :: "code \<Rightarrow> string \<Rightarrow> status" where
  "statusError c msg = \<lparr>st_Code = c, st_Message = msg, st_RetryDelay = None\<rparr>"

definition limitedText :: string where
  "limitedText = ''too many authentication attempts; please try again later''"

definition toStatusError :: "go_error \<Rightarrow> status" where
  "toStatusError err =
     (case err of
        LimitError retry \<Rightarrow> \<lparr>st_Code = ResourceExhausted, st_Message = limitedText, st_RetryDelay = Some retry\<rparr>
      | CtxError Canceled \<Rightarrow> statusError CodeCanceled ''context canceled''
      | CtxError DeadlineExceeded \<Rightarrow> statusError CodeDeadlineExceeded ''context deadline exceeded''
      | ErrInvalidArgument \<Rightarrow> statusError InvalidArgument ''invalid argument''
      | ErrUnauthenticated \<Rightarrow> statusError Unauthenticated ''unauthenticated''
      | ErrDisabledUser \<Rightarrow> statusError Unauthenticated ''disabled user''
      | ErrForbidden \<Rightarrow> statusError PermissionDenied ''forbidden''
      | ErrNotFound \<Rightarrow> statusError NotFound ''not found''
      | ErrConflict \<Rightarrow> statusError AlreadyExists ''conflict''
      | ErrPasswordChangeRequired \<Rightarrow> statusError FailedPrecondition ''password change required''
      | DbError _ \<Rightarrow> statusError Internal ''internal error''
      | OtherError _ \<Rightarrow> statusError Internal ''internal error'')"

type_synonym 'a handler = "(status, 'a) io"

abbreviation replying :: "(go_error, 'a) io \<Rightarrow> 'a handler" where
  "replying m \<equiv> mapErr toStatusError m"

section \<open>The caller\<close>

type_synonym metadata = "(string \<Rightarrow> string list) option"
type_synonym authenticator = "metadata \<Rightarrow> (go_error, User) io"

fun bearerToken :: "env \<Rightarrow> string list \<Rightarrow> string" where
  "bearerToken e [] = []"
| "bearerToken e (v # vs) =
     (let value = trimSpace v in
      if hasPrefix (toLower (uni_lower e) value) ''bearer '' then trimSpace (drop 7 value) else bearerToken e vs)"

definition sessionTokenFromContext :: "env \<Rightarrow> metadata \<Rightarrow> string" where
  "sessionTokenFromContext e md =
     (case md of None \<Rightarrow> []
      | Some get \<Rightarrow> (case get ''x-session-token'' of v # _ \<Rightarrow> trimSpace v | [] \<Rightarrow> bearerToken e (get ''authorization'')))"

definition srvAuthenticate :: "env \<Rightarrow> authenticator" where
  "srvAuthenticate e md =
     (let token = sessionTokenFromContext e md in
      if token = [] then throwP ErrUnauthenticated
      else bindP (nowP e) (\<lambda>now.
           bindP (catchP (repoGetUserBySessionTokenHash e (HashToken (sha256 e) token) now)
                    (\<lambda>err. throwP (if err = ErrNotFound then ErrUnauthenticated else err))) (\<lambda>user.
           if us_DisabledAt user \<noteq> None then throwP ErrDisabledUser else retP user)))"

definition authenticateUserID :: "authenticator option \<Rightarrow> metadata \<Rightarrow> (go_error, ID) io" where
  "authenticateUserID auth md =
     (case auth of None \<Rightarrow> throwP ErrUnauthenticated | Some a \<Rightarrow> bindP (a md) (\<lambda>user. retP (us_ID user)))"

definition authenticatedAdmin :: "authenticator option \<Rightarrow> metadata \<Rightarrow> (go_error, User) io" where
  "authenticatedAdmin auth md =
     (case auth of None \<Rightarrow> throwP ErrUnauthenticated
      | Some a \<Rightarrow> bindP (a md) (\<lambda>user.
          if us_Role user \<noteq> UserRoleAdmin then throwP ErrForbidden
          else if us_MustChangePassword user then throwP ErrPasswordChangeRequired
          else retP user))"

definition requestActorID :: "authenticator option \<Rightarrow> metadata \<Rightarrow> string \<Rightarrow> (go_error, ID) io" where
  "requestActorID auth md fallback =
     (case auth of Some a \<Rightarrow> authenticateUserID (Some a) md | None \<Rightarrow> liftE (requireID fallback))"

definition optionalAuthenticatedActorID :: "authenticator option \<Rightarrow> metadata \<Rightarrow> (go_error, ID) io" where
  "optionalAuthenticatedActorID auth md =
     (case auth of Some a \<Rightarrow> authenticateUserID (Some a) md | None \<Rightarrow> retP [])"

section \<open>The limit per peer\<close>

definition AuthRateLimitInterceptor :: "env \<Rightarrow> string \<Rightarrow> string option \<Rightarrow> 'a handler \<Rightarrow> 'a handler" where
  "AuthRateLimitInterceptor e fullMethod peer handler =
     (if fullMethod \<notin> {''/ournezt.v1.AuthService/Login'', ''/ournezt.v1.AuthService/ChangePassword'', ''/ournezt.v1.AuthService/CreateUser''}
      then handler
      else bindP (nowP e) (\<lambda>now w.
             let (retry, l) = AllowIP (sha256 e) (wo_limits w) (authPeerIP peer) now; w' = w\<lparr>wo_limits := l\<rparr>
             in if retry > 0 then (Inl (toStatusError (LimitError retry)), w') else handler w'))"

text \<open>\<open>record\<close>: the counters behind the warning in the log, and the warning when one is due. \<open>nextLog\<close> is
  absent before the first.\<close>

record Audit =
  au_failures :: int
  au_throttled :: int
  au_nextLog :: "time option"

definition recordAttempt :: "Audit \<Rightarrow> code \<Rightarrow> time \<Rightarrow> Audit \<times> (int \<times> int) option" where
  "recordAttempt a c now =
     (if c \<noteq> Unauthenticated \<and> c \<noteq> ResourceExhausted then (a, None)
      else let a = (if c = Unauthenticated then a\<lparr>au_failures := au_failures a + 1\<rparr> else a\<lparr>au_throttled := au_throttled a + 1\<rparr>)
        in if (case au_nextLog a of None \<Rightarrow> True | Some t \<Rightarrow> t \<le> now)
           then (\<lparr>au_failures = 0, au_throttled = 0, au_nextLog = Some (now + 30 * 10 ^ 9)\<rparr>, Some (au_failures a, au_throttled a))
           else (a, None))"

fun recordAll :: "Audit \<Rightarrow> (code \<times> time) list \<Rightarrow> Audit \<times> (int \<times> int) list" where
  "recordAll a [] = (a, [])"
| "recordAll a ((c, now) # xs) =
     (case recordAttempt a c now of (a', line) \<Rightarrow>
        (case recordAll a' xs of (a'', lines) \<Rightarrow> (a'', (case line of None \<Rightarrow> lines | Some x \<Rightarrow> x # lines))))"

text \<open>Every failed or throttled attempt is in exactly one warning or still counted.\<close>

lemma record_counts:
  "recordAll a xs = (a', lines) \<Longrightarrow>
     sum_list (map fst lines) + au_failures a' = au_failures a + int (length (filter (\<lambda>(c, t). c = Unauthenticated) xs))
   \<and> sum_list (map snd lines) + au_throttled a' = au_throttled a + int (length (filter (\<lambda>(c, t). c = ResourceExhausted) xs))"
proof (induction xs arbitrary: a lines)
  case (Cons x xs)
  obtain c now where x: "x = (c, now)" by fastforce
  obtain b line where r: "recordAttempt a c now = (b, line)" by fastforce
  obtain b' ls where rs: "recordAll b xs = (b', ls)" by fastforce
  from Cons.prems r rs have e: "a' = b'" "lines = (case line of None \<Rightarrow> ls | Some x \<Rightarrow> x # ls)" by (simp_all add: x)
  from Cons.IH [OF rs [folded e(1)]] r show ?case
    unfolding e(2) x by (auto simp: recordAttempt_def Let_def split: if_splits option.splits)
qed simp

section \<open>Accounts and sessions\<close>

record AuthServer =
  sv_params :: Argon2Params
  sv_tokenBytes :: int
  sv_sessionTTL :: duration

definition NewAuthServer :: "Argon2Params \<Rightarrow> int \<Rightarrow> duration \<Rightarrow> AuthServer" where
  "NewAuthServer params tokenBytes sessionTTL = \<lparr>sv_params = params, sv_tokenBytes = (if tokenBytes \<le> 0 then 32 else tokenBytes),
     sv_sessionTTL = (if sessionTTL \<le> 0 then 24 * 3600 * 10 ^ 9 else sessionTTL)\<rparr>"

definition srvCreateUser :: "env \<Rightarrow> AuthServer \<Rightarrow> metadata \<Rightarrow> (string \<times> string \<times> string \<times> string) option \<Rightarrow> user_msg handler" where
  "srvCreateUser e s md req = replying
     (case req of None \<Rightarrow> throwP ErrInvalidArgument
      | Some (email, displayName, password, role) \<Rightarrow>
          bindP (authenticatedAdmin (Some (srvAuthenticate e)) md) (\<lambda>_.
          bindP (svcCreateUser e (sv_params s) email displayName password (if role = [] then UserRoleUser else role)) (\<lambda>user.
          retP (userToProto user))))"

definition srvLogin :: "env \<Rightarrow> AuthServer \<Rightarrow> (string \<times> string) option \<Rightarrow> (user_msg \<times> string) handler" where
  "srvLogin e s req =
     (case req of None \<Rightarrow> throwP (toStatusError ErrInvalidArgument)
      | Some (email, password) \<Rightarrow>
          bindP (mapErr (\<lambda>err. toStatusError (if err \<in> {ErrNotFound, ErrDisabledUser, ErrUnauthenticated} then ErrUnauthenticated else err))
                   (svcLogin e email password)) (\<lambda>user.
          replying (bindP (tokenP e (sv_tokenBytes s)) (\<lambda>token.
            bindP (nowP e) (\<lambda>now.
            bindP (repoCreateSession e (us_ID user) (HashToken (sha256 e) token) (now + sv_sessionTTL s)) (\<lambda>_.
            retP (userToProto user, token)))))))"

definition srvValidateSession :: "env \<Rightarrow> string option \<Rightarrow> user_msg handler" where
  "srvValidateSession e req = replying
     (case req of None \<Rightarrow> throwP ErrInvalidArgument
      | Some token \<Rightarrow> if token = [] then throwP ErrInvalidArgument
          else bindP (nowP e) (\<lambda>now.
               bindP (repoGetUserBySessionTokenHash e (HashToken (sha256 e) token) now) (\<lambda>user.
               if us_DisabledAt user \<noteq> None then throwP ErrDisabledUser else retP (userToProto user))))"

definition srvChangePassword :: "env \<Rightarrow> AuthServer \<Rightarrow> metadata \<Rightarrow> (string \<times> string) option \<Rightarrow> unit handler" where
  "srvChangePassword e s md req = replying
     (case req of None \<Rightarrow> throwP ErrInvalidArgument
      | Some (currentPassword, newPassword) \<Rightarrow>
          bindP (authenticateUserID (Some (srvAuthenticate e)) md) (\<lambda>userID.
          svcChangePassword e (sv_params s) userID currentPassword newPassword))"

definition srvUpdateMyAccount :: "env \<Rightarrow> metadata \<Rightarrow> (string \<times> string) option \<Rightarrow> user_msg handler" where
  "srvUpdateMyAccount e md req = replying
     (case req of None \<Rightarrow> throwP ErrInvalidArgument
      | Some (email, displayName) \<Rightarrow>
          bindP (authenticateUserID (Some (srvAuthenticate e)) md) (\<lambda>userID.
          bindP (svcUpdateMyAccount e userID email displayName) (\<lambda>updated. retP (userToProto updated))))"

definition srvGenerateAdminAccessKey :: "env \<Rightarrow> AuthServer \<Rightarrow> metadata \<Rightarrow> (string \<times> string) handler" where
  "srvGenerateAdminAccessKey e s md = replying
     (bindP (authenticatedAdmin (Some (srvAuthenticate e)) md) (\<lambda>admin.
      bindP (nowP e) (\<lambda>now.
      bindP (svcGenerateAdminAccessKey e (us_ID admin) (sv_tokenBytes s) (10 * 60 * 10 ^ 9) now) (\<lambda>(key, expiresAt).
      retP (key, rfc3339 expiresAt)))))"

definition srvConsumeAdminAccessKey :: "env \<Rightarrow> metadata \<Rightarrow> string option \<Rightarrow> bool handler" where
  "srvConsumeAdminAccessKey e md req = replying
     (case req of None \<Rightarrow> throwP ErrInvalidArgument
      | Some accessKey \<Rightarrow>
          bindP (authenticatedAdmin (Some (srvAuthenticate e)) md) (\<lambda>admin.
          bindP (nowP e) (\<lambda>now.
          bindP (svcConsumeAdminAccessKey e (us_ID admin) accessKey now) (\<lambda>_. retP True))))"

definition srvListUsers :: "env \<Rightarrow> metadata \<Rightarrow> user_msg list handler" where
  "srvListUsers e md = replying
     (bindP (authenticatedAdmin (Some (srvAuthenticate e)) md) (\<lambda>_.
      bindP (svcListUsers e) (\<lambda>users. retP (map userToProto users))))"

definition srvDisableUser :: "env \<Rightarrow> metadata \<Rightarrow> string option \<Rightarrow> unit handler" where
  "srvDisableUser e md req = replying
     (case req of None \<Rightarrow> throwP ErrInvalidArgument
      | Some user_id \<Rightarrow>
          bindP (authenticatedAdmin (Some (srvAuthenticate e)) md) (\<lambda>actor.
          bindP (liftE (requireID user_id)) (\<lambda>userID.
          if userID = us_ID actor then throwP ErrInvalidArgument
          else bindP (svcDisableUser e userID) (\<lambda>_. repoRevokeSessionsByUserID e userID))))"

section \<open>Who is calling\<close>

definition holdsSession :: "env \<Rightarrow> metadata \<Rightarrow> world \<Rightarrow> User \<Rightarrow> bool" where
  "holdsSession e md w u \<longleftrightarrow> sessionTokenFromContext e md \<noteq> [] \<and>
     list_ex (\<lambda>s. liveSession (HashToken (sha256 e) (sessionTokenFromContext e md)) (clock_at e (wo_tick w)) s \<and> se_UserID s = us_ID u)
       (db_sessions (wo_db w))"

lemma joined_head:
  assumes "firstRow (orderBy le (concat (map (\<lambda>s. map (\<lambda>u. (s, u)) (filter (\<lambda>u. us_ID u = se_UserID s) us)) ss))) = Inr (s, u)"
  shows "s \<in> set ss \<and> u \<in> set us \<and> us_ID u = se_UserID s"
proof -
  let ?rows = "concat (map (\<lambda>s. map (\<lambda>u. (s, u)) (filter (\<lambda>u. us_ID u = se_UserID s) us)) ss)"
  from assms have "(s, u) \<in> set (orderBy le ?rows)" unfolding firstRow_Inr by (metis list.set_intros(1))
  then show ?thesis by auto
qed

lemma repoGetUserBySessionTokenHash_Inr:
  assumes "repoGetUserBySessionTokenHash e tok now w = (Inr u, w')"
  shows "u \<in> set (db_users (wo_db w)) \<and> list_ex (\<lambda>s. liveSession tok now s \<and> se_UserID s = us_ID u) (db_sessions (wo_db w))"
proof -
  from query_InrD [OF assms [unfolded repoGetUserBySessionTokenHash_def]] obtain s where
    "firstRow (orderBy (\<lambda>(s, u) (s', u'). se_CreatedAt s' \<le> se_CreatedAt s)
       (concat (map (\<lambda>s. map (\<lambda>u. (s, u)) (filter (\<lambda>u. us_ID u = se_UserID s) (db_users (wo_db w))))
          (filter (liveSession tok now) (db_sessions (wo_db w)))))) = Inr (s, u)"
    by (auto simp: Let_def bindS_Inr)
  from joined_head [OF this] show ?thesis unfolding list_ex_iff by auto
qed

lemma srvAuthenticate_kept: "db_kept (srvAuthenticate e md)"
  unfolding srvAuthenticate_def Let_def by (intro preserve_rules frame_rel_eq)

lemma srvAuthenticate_Inr:
  assumes "srvAuthenticate e md w = (Inr u, w')"
  shows "u \<in> set (db_users (wo_db w)) \<and> us_DisabledAt u = None \<and> holdsSession e md w u"
proof -
  let ?tok = "HashToken (sha256 e) (sessionTokenFromContext e md)"
  from assms have ne: "sessionTokenFromContext e md \<noteq> []" by (auto simp: srvAuthenticate_def Let_def)
  with assms have "bindP (catchP (repoGetUserBySessionTokenHash e ?tok (clock_at e (wo_tick w)))
      (\<lambda>err. throwP (if err = ErrNotFound then ErrUnauthenticated else err)))
      (\<lambda>user. if us_DisabledAt user \<noteq> None then throwP ErrDisabledUser else retP user) (w\<lparr>wo_tick := Suc (wo_tick w)\<rparr>) = (Inr u, w')"
    by (simp add: srvAuthenticate_def Let_def bindP_def nowP_def)
  then obtain v where v: "repoGetUserBySessionTokenHash e ?tok (clock_at e (wo_tick w)) (w\<lparr>wo_tick := Suc (wo_tick w)\<rparr>) = (Inr u, v)"
    "us_DisabledAt u = None"
    by (elim bindP_InrE catchP_InrE) (auto split: if_splits)
  with repoGetUserBySessionTokenHash_Inr [OF v(1)] ne show ?thesis by (simp add: holdsSession_def)
qed

text \<open>The contract of the \<open>Authenticator\<close> interface: it changes no table, and a user it
  returns is stored, enabled and the holder of the credentials of the call.\<close>

locale caller =
  fixes auth :: authenticator and holds :: "metadata \<Rightarrow> world \<Rightarrow> User \<Rightarrow> bool"
  assumes reads_only: "db_kept (auth md)"
    and genuine: "auth md w = (Inr u, w') \<Longrightarrow> u \<in> set (db_users (wo_db w)) \<and> us_DisabledAt u = None \<and> holds md w u"
begin

lemma user_id_genuine:
  assumes "authenticateUserID (Some auth) md w = (Inr i, w')"
  shows "wo_db w' = wo_db w \<and> (\<exists>u\<in>set (db_users (wo_db w)). us_ID u = i \<and> us_DisabledAt u = None \<and> holds md w u)"
proof -
  from assms obtain u where u: "auth md w = (Inr u, w')" "us_ID u = i"
    unfolding authenticateUserID_def by (auto elim!: bindP_InrE)
  from genuine [OF u(1)] preservesD [OF reads_only u(1)] u(2) show ?thesis by blast
qed

lemma admin_kept: "db_kept (authenticatedAdmin (Some auth) md)"
  unfolding authenticatedAdmin_def option.case by (intro preserve_rules reads_only frame_rel_eq)

lemma admin_genuine:
  assumes "authenticatedAdmin (Some auth) md w = (Inr u, w')"
  shows "wo_db w' = wo_db w \<and> u \<in> set (db_users (wo_db w)) \<and> us_DisabledAt u = None \<and> holds md w u
    \<and> us_Role u = UserRoleAdmin \<and> \<not> us_MustChangePassword u"
proof -
  from assms have u: "auth md w = (Inr u, w')" "us_Role u = UserRoleAdmin" "\<not> us_MustChangePassword u"
    unfolding authenticatedAdmin_def by (auto elim!: bindP_InrE split: if_splits)
  from genuine [OF u(1)] preservesD [OF reads_only u(1)] u(2,3) show ?thesis by blast
qed

lemma admin_gate:
  assumes "\<not> (\<exists>u\<in>set (db_users (wo_db w)). us_Role u = UserRoleAdmin \<and> \<not> us_MustChangePassword u \<and> us_DisabledAt u = None \<and> holds md w u)"
  shows "isl (fst (bindP (authenticatedAdmin (Some auth) md) f w)) \<and> wo_db (snd (bindP (authenticatedAdmin (Some auth) md) f w)) = wo_db w"
proof -
  obtain r w' where r: "authenticatedAdmin (Some auth) md w = (r, w')" by fastforce
  with assms admin_genuine obtain err where "r = Inl err" by (cases r) blast+
  with r preservesD [OF admin_kept r] show ?thesis by (simp add: bindP_def)
qed

end

interpretation sessions: caller "srvAuthenticate e" "holdsSession e"
  for e by unfold_locales (fact srvAuthenticate_kept, fact srvAuthenticate_Inr)

definition adminCaller :: "env \<Rightarrow> metadata \<Rightarrow> world \<Rightarrow> bool" where
  "adminCaller e md w \<longleftrightarrow> list_ex (\<lambda>u. us_Role u = UserRoleAdmin \<and> \<not> us_MustChangePassword u \<and> us_DisabledAt u = None \<and> holdsSession e md w u)
     (db_users (wo_db w))"

definition refused :: "('e + 'a) \<times> world \<Rightarrow> world \<Rightarrow> bool" where
  "refused reply w \<longleftrightarrow> isl (fst reply) \<and> wo_db (snd reply) = wo_db w"

lemma mapErr_isl [simp]: "isl (fst (mapErr g m w)) = isl (fst (m w))"
  by (auto simp: mapErr_def split: prod.splits sum.splits)

lemma refused_mapErr [simp]: "refused (mapErr g m w) w0 = refused (m w) w0"
  by (simp add: refused_def)

lemma refused_throw [simp]: "refused (throwP err w) w"
  by (simp add: refused_def throwP_def)

lemma refused_admin: "\<not> adminCaller e md w \<Longrightarrow> refused (bindP (authenticatedAdmin (Some (srvAuthenticate e)) md) f w) w"
  unfolding refused_def by (rule sessions.admin_gate) (auto simp: adminCaller_def list_ex_iff)

section \<open>Locked accounts\<close>

definition lockedOut :: "ID \<Rightarrow> database \<Rightarrow> bool" where
  "lockedOut uid d \<longleftrightarrow> uid \<in> us_ID ` set (db_users d) \<and> (\<forall>u\<in>set (db_users d). us_ID u = uid \<longrightarrow> us_DisabledAt u \<noteq> None)"

lemma lockedOut_users: "db_users d' = db_users d \<Longrightarrow> lockedOut uid d' = lockedOut uid d"
  by (simp add: lockedOut_def)

lemma lockedOut_update:
  assumes "lockedOut uid d" and "\<And>u. us_ID (f u) = us_ID u" and "\<And>u. P u \<Longrightarrow> us_ID u = uid \<Longrightarrow> us_DisabledAt u \<noteq> None \<Longrightarrow> us_DisabledAt (f u) \<noteq> None"
  shows "lockedOut uid (d\<lparr>db_users := updateRows P f (db_users d)\<rparr>)"
proof -
  have "us_DisabledAt v \<noteq> None" if "v \<in> set (updateRows P f (db_users d))" "us_ID v = uid" for v
    using in_updateRows [OF that(1)]
  proof
    assume "\<exists>r\<in>set (db_users d). P r \<and> v = f r"
    then obtain r where r: "r \<in> set (db_users d)" "P r" "v = f r" by blast
    with that(2) assms(2) have "us_ID r = uid" by simp
    with r assms(1,3) show ?thesis by (simp add: lockedOut_def)
  qed (use assms(1) that(2) in \<open>simp add: lockedOut_def\<close>)
  moreover have "us_ID ` set (updateRows P f (db_users d)) = us_ID ` set (db_users d)"
    by (rule set_updateRows_image) (rule assms(2))
  ultimately show ?thesis using assms(1) by (simp add: lockedOut_def)
qed

lemma keeps_lockedOut_rest:
  "keeps (lockedOut uid) (repoCreateSession e i tok t)" "keeps (lockedOut uid) (repoCreateAdminAccessKey e i tok t)"
  "keeps (lockedOut uid) (repoConsumeAdminAccessKey e i tok t)" "keeps (lockedOut uid) (repoRevokeSessionsByUserID e i)"
  unfolding repoCreateSession_def repoCreateAdminAccessKey_def repoConsumeAdminAccessKey_def repoRevokeSessionsByUserID_def
  by (rule keeps_query; auto simp: bindS_Inr lockedOut_def)+

lemma keeps_lockedOut_updates:
  "keeps (lockedOut uid) (repoDisableUser e i)" "keeps (lockedOut uid) (repoUpdateUserPassword e i h b)"
  unfolding repoDisableUser_def repoUpdateUserPassword_def
  by (intro preserve_rules keeps_query frame_rel_invariant; auto simp: bindS_Inr intro!: lockedOut_update)+

lemma keeps_lockedOut_account: "keeps (lockedOut uid) (repoUpdateUserAccount e i em n)"
  unfolding repoUpdateUserAccount_def by (rule keeps_query) (auto simp: Let_def bindS_Inr intro!: lockedOut_update)

lemma keeps_lockedOut_create: "keeps (lockedOut uid) (repoCreateUser e user)"
  unfolding repoCreateUser_def by (rule keeps_query) (auto simp: Let_def bindS_Inr lockedOut_def)

lemmas keeps_lockedOut = keeps_lockedOut_rest keeps_lockedOut_updates keeps_lockedOut_account keeps_lockedOut_create

lemma repoDisableUser_Inr:
  assumes "repoDisableUser e i w = (Inr (), w')"
  obtains uid t where "uuid_in e i = Some uid" and "uid \<in> us_ID ` set (db_users (wo_db w))"
    and "db_users (wo_db w') = updateRows (\<lambda>u. us_ID u = uid) (\<lambda>u. u\<lparr>us_DisabledAt := Some t, us_UpdatedAt := t\<rparr>) (db_users (wo_db w))"
proof -
  from assms obtain k where q: "query e (\<lambda>n d. bindS (castUUID e i) (\<lambda>uid.
       Inr (length (filter (\<lambda>u. us_ID u = uid) (db_users d)),
            d\<lparr>db_users := updateRows (\<lambda>u. us_ID u = uid)
                 (\<lambda>u. u\<lparr>us_DisabledAt := Some (dbNow e n), us_UpdatedAt := dbNow e n\<rparr>) (db_users d)\<rparr>))) w = (Inr k, w')" "k \<noteq> 0"
    unfolding repoDisableUser_def by (elim bindP_InrE) (auto split: if_splits)
  from query_InrD [OF q(1)] obtain uid where u: "uuid_in e i = Some uid" "k = length (filter (\<lambda>u. us_ID u = uid) (db_users (wo_db w)))"
    "wo_db w' = (wo_db w)\<lparr>db_users := updateRows (\<lambda>u. us_ID u = uid)
       (\<lambda>u. u\<lparr>us_DisabledAt := Some (dbNow e (wo_tick w)), us_UpdatedAt := dbNow e (wo_tick w)\<rparr>) (db_users (wo_db w))\<rparr>"
    by (auto simp: bindS_Inr castUUID_Inr)
  have "uid \<in> us_ID ` set (db_users (wo_db w))" using u(2) q(2) by (auto simp: filter_empty_conv)
  with u(1,3) show thesis by (intro that [of uid "dbNow e (wo_tick w)"]) simp_all
qed

lemma disabled_lockedOut:
  assumes "repoDisableUser e i w = (Inr (), w')" and "uuid_in e i = Some uid"
  shows "lockedOut uid (wo_db w')"
proof -
  from assms(1) obtain uid' t where u: "uuid_in e i = Some uid'" "uid' \<in> us_ID ` set (db_users (wo_db w))"
    "db_users (wo_db w') = updateRows (\<lambda>u. us_ID u = uid') (\<lambda>u. u\<lparr>us_DisabledAt := Some t, us_UpdatedAt := t\<rparr>) (db_users (wo_db w))"
    by (rule repoDisableUser_Inr)
  have same: "uid' = uid" using u(1) assms(2) by simp
  have "us_ID ` set (db_users (wo_db w')) = us_ID ` set (db_users (wo_db w))" unfolding u(3) by (rule set_updateRows_image) simp
  moreover have "us_DisabledAt v \<noteq> None" if v: "v \<in> set (db_users (wo_db w'))" "us_ID v = uid" for v
    using in_updateRows [OF v(1) [unfolded u(3)]]
  proof
    assume "v \<in> set (db_users (wo_db w)) \<and> us_ID v \<noteq> uid'"
    with v(2) same show ?thesis by simp
  next
    assume "\<exists>r\<in>set (db_users (wo_db w)). us_ID r = uid' \<and> v = r\<lparr>us_DisabledAt := Some t, us_UpdatedAt := t\<rparr>"
    then obtain r where "v = r\<lparr>us_DisabledAt := Some t, us_UpdatedAt := t\<rparr>" by blast
    then show ?thesis by simp
  qed
  ultimately show ?thesis using u(2) same by (simp add: lockedOut_def)
qed

lemma srvDisableUser_Inr:
  assumes "srvDisableUser e md (Some user_id) w = (Inr (), w')"
  obtains actor u v where "authenticatedAdmin (Some (srvAuthenticate e)) md w = (Inr actor, u)" "trimSpace user_id \<noteq> us_ID actor"
    "repoDisableUser e (trimSpace user_id) u = (Inr (), v)" "repoRevokeSessionsByUserID e (trimSpace user_id) v = (Inr (), w')"
proof -
  from assms obtain actor u i where a: "authenticatedAdmin (Some (srvAuthenticate e)) md w = (Inr actor, u)" "requireID user_id = Inr i"
    "(if i = us_ID actor then throwP ErrInvalidArgument
          else bindP (svcDisableUser e i) (\<lambda>_. repoRevokeSessionsByUserID e i)) u = (Inr (), w')"
    unfolding srvDisableUser_def mapErr_Inr option.case by (elim bindP_InrE) (simp only: liftE_eq, metis)
  from a(2) have "i = trimSpace user_id" by (auto simp: requireID_def Let_def split: if_splits)
  with a(3) have ne: "trimSpace user_id \<noteq> us_ID actor" and
    "bindP (svcDisableUser e (trimSpace user_id)) (\<lambda>_. repoRevokeSessionsByUserID e (trimSpace user_id)) u = (Inr (), w')"
    by (auto split: if_splits)
  then obtain v where "svcDisableUser e (trimSpace user_id) u = (Inr (), v)" "repoRevokeSessionsByUserID e (trimSpace user_id) v = (Inr (), w')"
    by (elim bindP_InrE) simp
  then show thesis by (intro that [OF a(1) ne]) (auto simp: svcDisableUser_def split: if_splits)
qed

section \<open>A login opens a session\<close>

definition tokenMetadata :: "string \<Rightarrow> metadata" where
  "tokenMetadata token = Some (\<lambda>h. if h = ''x-session-token'' then [token] else [])"

lemma b64char_plain: "n < 64 \<Longrightarrow> 32 < byte (b64char url n) \<and> byte (b64char url n) < 128"
  by (auto simp: b64char_def)

lemma plain_encoded: "plain (EncodeToString url s)"
proof -
  have "list_all (\<lambda>n. n < 64) (sextets (map of_char s))" by (rule sextets_less) simp
  then have "32 < byte c \<and> byte c < 128" if "c \<in> set (EncodeToString url s)" for c
    using that b64char_plain by (auto simp: EncodeToString_def list_all_iff)
  then show ?thesis unfolding plain_def by (metis hd_in_set last_in_set)
qed

lemma sessionToken_plain:
  assumes "NewSessionToken randRead n = Inr token" and "\<And>k buf. randRead k = Inr buf \<Longrightarrow> length buf = k"
  shows "token \<noteq> []" and "trimSpace token = token"
proof -
  from assms(1) obtain k buf where b: "randRead k = Inr buf" "32 \<le> k" "token = EncodeToString True buf"
    unfolding NewSessionToken_def Let_def by (cases "n < 32") (auto split: sum.splits)
  have "length token = (4 * length buf + 2) div 3" by (simp add: b(3) EncodeToString_def length_sextets)
  with assms(2) [OF b(1)] b(2) show "token \<noteq> []" by auto
  show "trimSpace token = token" using plain_encoded b(3) by simp
qed

lemma tokenP_Inr: "tokenP e n w = (Inr token, w') \<Longrightarrow> NewSessionToken (rand_at e (wo_tick w)) n = Inr token \<and> wo_db w' = wo_db w \<and> wo_tick w' = Suc (wo_tick w)"
  by (auto simp: tokenP_def)

lemma srvLogin_Inr:
  assumes "srvLogin e s (Some (email, pw)) w = (Inr (um, token), w1)"
  obtains u w3 and w2 :: world where "u \<in> set (db_users (wo_db w))" "us_DisabledAt u = None" "um = userToProto u"
    "NewSessionToken (rand_at e (wo_tick w2)) (sv_tokenBytes s) = Inr token" "wo_db w3 = wo_db w"
    "repoCreateSession e (us_ID u) (HashToken (sha256 e) token) (clock_at e (wo_tick w3 - 1) + sv_sessionTTL s) w3 = (Inr (), w1)"
proof -
  from assms obtain u w2 where u: "svcLogin e email pw w = (Inr u, w2)" and
    "bindP (tokenP e (sv_tokenBytes s)) (\<lambda>token. bindP (nowP e) (\<lambda>now.
       bindP (repoCreateSession e (us_ID u) (HashToken (sha256 e) token) (now + sv_sessionTTL s)) (\<lambda>_.
       retP (userToProto u, token)))) w2 = (Inr (um, token), w1)"
    unfolding srvLogin_def option.case prod.case mapErr_Inr by (elim bindP_InrE) simp
  then obtain v w3 now where v: "tokenP e (sv_tokenBytes s) w2 = (Inr token, v)" "nowP e v = (Inr now :: go_error + time, w3)" "um = userToProto u"
    "repoCreateSession e (us_ID u) (HashToken (sha256 e) token) (now + sv_sessionTTL s) w3 = (Inr (), w1)"
    by (elim bindP_InrE) auto
  from v(2) have n: "now = clock_at e (wo_tick w3 - 1)" "wo_db w3 = wo_db v" by (auto simp: nowP_def)
  have "wo_db w3 = wo_db w" using preservesD [OF svcLogin_kept u] tokenP_Inr [OF v(1)] n(2) by simp
  with svcLogin_Inr [OF u] tokenP_Inr [OF v(1)] v(3,4) n(1) show thesis by (intro that [of u w2 w3]) simp_all
qed

lemma repoCreateSession_Inr:
  assumes "repoCreateSession e i tok t w = (Inr (), w')" and "uuid_in e i = Some i"
  shows "tok \<notin> se_TokenHash ` set (db_sessions (wo_db w)) \<and> db_users (wo_db w') = db_users (wo_db w) \<and> wo_tick w' = Suc (wo_tick w)
    \<and> db_sessions (wo_db w') = db_sessions (wo_db w) @ [\<lparr>se_UserID = i, se_TokenHash = tok, se_ExpiresAt = pgTime t,
                   se_RevokedAt = None, se_CreatedAt = dbNow e (wo_tick w)\<rparr>]"
  using assms unfolding repoCreateSession_def by (elim query_Inr) (auto simp: bindS_Inr castUUID_Inr)

lemma only_user:
  assumes "distinct (map us_ID us)" and "u \<in> set us"
  shows "filter (\<lambda>v. us_ID v = us_ID u) us = [u]"
  using assms
proof (induction us)
  case (Cons v us)
  show ?case
  proof (cases "v = u")
    case True
    with Cons.prems(1) have "filter (\<lambda>v. us_ID v = us_ID u) us = []" by (simp add: filter_empty_conv) (metis image_eqI)
    with True show ?thesis by simp
  next
    case False
    with Cons.prems have "u \<in> set us" "us_ID v \<noteq> us_ID u" by auto
    with Cons show ?thesis by simp
  qed
qed simp

lemma live_session_authenticates:
  assumes ss: "db_sessions (wo_db w) = ss @ [x]" "HashToken (sha256 e) token \<notin> se_TokenHash ` set ss"
    and x: "liveSession (HashToken (sha256 e) token) (clock_at e (wo_tick w)) x" "se_UserID x = us_ID u"
    and u: "distinct (map us_ID (db_users (wo_db w)))" "u \<in> set (db_users (wo_db w))" "us_DisabledAt u = None"
    and token: "token \<noteq> []" "trimSpace token = token" and up: "fault_at e (Suc (wo_tick w)) = None"
  shows "fst (srvAuthenticate e (tokenMetadata token) w) = Inr u"
proof -
  let ?tok = "HashToken (sha256 e) token" and ?now = "clock_at e (wo_tick w)"
  have "filter (liveSession ?tok ?now) ss = []" using ss(2) by (simp add: filter_empty_conv liveSession_def) (metis image_eqI)
  then have live: "filter (liveSession ?tok ?now) (db_sessions (wo_db w)) = [x]" using ss(1) x(1) by simp
  have "filter (\<lambda>v. us_ID v = se_UserID x) (db_users (wo_db w)) = [u]" using only_user [OF u(1,2)] x(2) by simp
  with live have "repoGetUserBySessionTokenHash e ?tok ?now (w\<lparr>wo_tick := Suc (wo_tick w)\<rparr>) = (Inr u, w\<lparr>wo_tick := Suc (Suc (wo_tick w))\<rparr>)"
    by (simp add: repoGetUserBySessionTokenHash_def query_def mapErr_def sql_def Let_def up orderBy_def firstRow_def)
  with token u(3) show ?thesis
    by (simp add: srvAuthenticate_def Let_def tokenMetadata_def sessionTokenFromContext_def bindP_def catchP_def nowP_def retP_def)
qed

text \<open>Logins succeed: with the right password, a free slot and a database that answers.\<close>

lemma bindP_run: "m s = (Inr x, t) \<Longrightarrow> bindP m f s = f x t"
  by (simp add: bindP_def)

lemma svcLogin_succeeds:
  assumes "fst (beginPasswordWork e (''login:'' @ normalEmail e email) w) = Inr ()" and "\<And>n. fault_at e n = None"
    and "filter (\<lambda>u. us_Email u = normalEmail e (normalEmail e email)) (db_users (wo_db w)) = [u]" and "us_DisabledAt u = None"
    and "VerifyPassword (argon2_IDKey e) pw (us_PasswordHash u) = Inr True"
  shows "fst (svcLogin e email pw w) = Inr u"
proof -
  obtain w1 where b: "beginPasswordWork e (''login:'' @ normalEmail e email) w = (Inr (), w1)" using assms(1) by (metis prod.collapse)
  have "wo_db w1 = wo_db w" using preservesD [OF db_kept_begin b] .
  with assms(2,3) have g: "repoGetUserByEmail e (normalEmail e email) w1 = (Inr u, w1\<lparr>wo_tick := Suc (wo_tick w1)\<rparr>)"
    by (simp add: repoGetUserByEmail_def query_def mapErr_def sql_def Let_def firstRow_def normalEmail_def)
  show ?thesis
    unfolding svcLogin_def Let_def bindP_run [of "beginPasswordWork e (''login:'' @ normalEmail e email)", OF b] withSlot_def
      bindP_run [of "repoGetUserByEmail e (normalEmail e email)", OF g] using assms(4,5)
    by (simp add: liftE_def retP_def bindP_def)
qed

lemma srvLogin_succeeds:
  assumes l: "svcLogin e email pw w = (Inr u, w')" and "\<And>n. fault_at e n = None" and "uuid_in e (us_ID u) = Some (us_ID u)"
    and "u \<in> set (db_users (wo_db w))" and "db_sessions (wo_db w) = []" and "\<And>n k. \<exists>buf. rand_at e n k = Inr buf"
  shows "\<exists>token w1. srvLogin e s (Some (email, pw)) w = (Inr (userToProto u, token), w1)"
proof -
  have db: "wo_db w' = wo_db w" using preservesD [OF svcLogin_kept l] .
  obtain buf where "rand_at e (wo_tick w') (nat (if sv_tokenBytes s < 32 then 32 else sv_tokenBytes s)) = Inr buf" using assms(6) by blast
  then have t: "tokenP e (sv_tokenBytes s) w' = (Inr (EncodeToString True buf), w'\<lparr>wo_tick := Suc (wo_tick w')\<rparr>)"
    by (simp add: tokenP_def NewSessionToken_def Let_def)
  have n: "nowP e v = (Inr (clock_at e (wo_tick v)) :: go_error + time, v\<lparr>wo_tick := Suc (wo_tick v)\<rparr>)" for v by (simp add: nowP_def)
  have "fst (repoCreateSession e (us_ID u) tok t (w'\<lparr>wo_tick := n\<rparr>)) = Inr ()" for tok t n
    using assms(2-5) db by (simp add: repoCreateSession_def query_def mapErr_def sql_def Let_def castUUID_def checkS_def)
  then obtain w1 where c: "repoCreateSession e (us_ID u) (HashToken (sha256 e) (EncodeToString True buf))
      (clock_at e (Suc (wo_tick w')) + sv_sessionTTL s) (w'\<lparr>wo_tick := Suc (Suc (wo_tick w'))\<rparr>) = (Inr (), w1)" by (metis prod.collapse)
  have "mapErr g (svcLogin e email pw) w = (Inr u, w')" for g :: "go_error \<Rightarrow> status" using l by simp
  note run = bindP_run [of "mapErr g (svcLogin e email pw)" for g, OF this]
  show ?thesis
    unfolding srvLogin_def option.case prod.case run mapErr_Inr bindP_run [of "tokenP e (sv_tokenBytes s)", OF t] bindP_run [of "nowP e", OF n]
    using c by (simp add: bindP_def)
qed

section \<open>Properties\<close>


text \<open>
  Property C27: account administration is for administrators. Unless the call carries the token of
  a live session of an enabled administrator whose password needs no change, creating, listing and
  disabling users and making and using access keys are refused and change no table.
\<close>

theorem admin_only_handlers:
  "adminCaller e md w \<or> (refused (srvCreateUser e s md cr w) w \<and> refused (srvListUsers e md w) w \<and> refused (srvDisableUser e md dr w) w
     \<and> refused (srvGenerateAdminAccessKey e s md w) w \<and> refused (srvConsumeAdminAccessKey e md kr w) w)"
  by (simp add: srvCreateUser_def srvListUsers_def srvDisableUser_def srvGenerateAdminAccessKey_def srvConsumeAdminAccessKey_def
      split: option.split prod.split) (blast intro: refused_admin)

text \<open>
  Property C32: a login opens a session. When a login has succeeded, the token it returned, sent in
  the session header while the session has not expired and the database answers, authenticates as
  the very user the login returned.
\<close>

theorem login_opens_session:
  assumes "users_inv (wo_db w)" and "\<forall>u\<in>set (db_users (wo_db w)). uuid_in e (us_ID u) = Some (us_ID u)"
    and "\<And>n k buf. rand_at e n k = Inr buf \<Longrightarrow> length buf = k"
    and "srvLogin e s (Some (email, pw)) w = (Inr (um, token), w1)"
    and "fault_at e (Suc (wo_tick w1)) = None"
    and "pgTime (clock_at e (wo_tick w1)) < pgTime (clock_at e (wo_tick w1 - 2) + sv_sessionTTL s)"
  shows "\<exists>u\<in>set (db_users (wo_db w)). um = userToProto u \<and> fst (srvAuthenticate e (tokenMetadata token) w1) = Inr u"
proof -
  from assms(4) obtain u w3 and w2 :: world where u: "u \<in> set (db_users (wo_db w))" "us_DisabledAt u = None" "um = userToProto u"
    and tok: "NewSessionToken (rand_at e (wo_tick w2)) (sv_tokenBytes s) = Inr token" and db: "wo_db w3 = wo_db w"
    and c: "repoCreateSession e (us_ID u) (HashToken (sha256 e) token) (clock_at e (wo_tick w3 - 1) + sv_sessionTTL s) w3 = (Inr (), w1)"
    by (rule srvLogin_Inr)
  have "uuid_in e (us_ID u) = Some (us_ID u)" using assms(2) u(1) by blast
  note new = repoCreateSession_Inr [OF c this]
  have "distinct (map us_ID (db_users (wo_db w1)))" "u \<in> set (db_users (wo_db w1))" using new db u(1) assms(1) by (simp_all add: users_inv_def)
  moreover have "wo_tick w1 - 2 = wo_tick w3 - 1" using new by simp
  moreover have "token \<noteq> []" "trimSpace token = token" using sessionToken_plain [OF tok] assms(3) by blast+
  ultimately have "fst (srvAuthenticate e (tokenMetadata token) w1) = Inr u"
    using new u(2) assms(5,6)
    by (intro live_session_authenticates [where ss = "db_sessions (wo_db w3)" and x = "\<lparr>se_UserID = us_ID u, se_TokenHash = HashToken (sha256 e) token,
          se_ExpiresAt = pgTime (clock_at e (wo_tick w3 - 1) + sv_sessionTTL s), se_RevokedAt = None, se_CreatedAt = dbNow e (wo_tick w3)\<rparr>"])
       (simp_all add: liveSession_def)
  with u show ?thesis by blast
qed

definition login_user :: User where
  "login_user = example_admin\<lparr>us_PasswordHash := argonText
     \<lparr>ap_MemoryKB = 8, ap_Iterations = 1, ap_Parallelism = 1, ap_SaltLength = 4, ap_KeyLength = 2\<rparr> ''salt'' ''pw''\<rparr>"

definition login_world :: world where
  "login_world = example_world\<lparr>wo_db := (wo_db example_world)\<lparr>db_users := [login_user]\<rparr>\<rparr>"


lemma example_login_begins:
  "fst (beginPasswordWork example_env (''login:'' @ normalEmail example_env ''root@x.sg'') login_world) = Inr ()
   \<and> normalEmail example_env (normalEmail example_env ''root@x.sg'') = ''root@x.sg''"
  by code_simp

lemma example_password: "VerifyPassword example_idkey ''pw'' (us_PasswordHash login_user) = Inr True"
  by (simp add: VerifyPassword_def login_user_def decode_argonText params_ok_def example_idkey_def)

theorem login_opens_session_witness:
  "\<exists>um token w1. srvLogin example_env (NewAuthServer DefaultArgon2Params 0 0) (Some (''root@x.sg'', ''pw'')) login_world = (Inr (um, token), w1)
     \<and> (\<exists>u. um = userToProto u \<and> fst (srvAuthenticate example_env (tokenMetadata token) w1) = Inr u)"
proof -
  let ?s = "NewAuthServer DefaultArgon2Params 0 0" and ?u = login_user
  have users: "db_users (wo_db login_world) = [?u]" "db_sessions (wo_db login_world) = []" "users_inv (wo_db login_world)"
    by (simp_all add: login_world_def example_world_def emptyDB_def users_inv_def login_user_def example_admin_def)
  have env: "fault_at example_env n = None" "uuid_in example_env (us_ID ?u) = Some (us_ID ?u)" "\<exists>buf. rand_at example_env n k = Inr buf"
    "clock_at example_env n = int n * 1000" "argon2_IDKey example_env = example_idkey" for n k by (simp_all add: example_env_def login_user_def example_admin_def)
  have rand: "rand_at example_env n k = Inr buf \<Longrightarrow> length buf = k" for n k buf by (auto simp: example_env_def)
  have "filter (\<lambda>u. us_Email u = normalEmail example_env (normalEmail example_env ''root@x.sg'')) (db_users (wo_db login_world)) = [?u]"
    unfolding users(1) example_login_begins [THEN conjunct2] by (simp add: login_user_def example_admin_def)
  then have "fst (svcLogin example_env ''root@x.sg'' ''pw'' login_world) = Inr ?u"
    using example_login_begins example_password env(1,5) by (intro svcLogin_succeeds) (simp_all, simp add: login_user_def example_admin_def)
  then obtain w' where "svcLogin example_env ''root@x.sg'' ''pw'' login_world = (Inr ?u, w')" by (metis prod.collapse)
  from srvLogin_succeeds [OF this env(1,2) _ users(2) env(3), of ?s] obtain token w1
    where l: "srvLogin example_env ?s (Some (''root@x.sg'', ''pw'')) login_world = (Inr (userToProto ?u, token), w1)"
    by (auto simp: users(1))
  have "pgTime (clock_at example_env (wo_tick w1)) < pgTime (clock_at example_env (wo_tick w1 - 2) + sv_sessionTTL ?s)"
    by (simp add: env(4) NewAuthServer_def pgTime_def)
  from login_opens_session [OF users(3) _ rand l env(1) this] show ?thesis using l env(2) by (auto simp: users(1))
qed

text \<open>
  Property C40: the check that administrators do not disable themselves compares texts, while the
  database compares uuids. With the database's uuid input, which accepts upper case, the only
  administrator can disable the own account by writing its id in upper case, and no enabled
  administrator is left.
\<close>

definition upper_env :: env where
  "upper_env = example_env\<lparr>uuid_in := (\<lambda>s. if s = [] then None else Some (map asciiLower s))\<rparr>"

definition duty_session :: session where
  "duty_session = \<lparr>se_UserID = ''u1'', se_TokenHash = HashToken id ''tok'', se_ExpiresAt = 10 ^ 9, se_RevokedAt = None, se_CreatedAt = 0\<rparr>"

definition duty_world :: world where
  "duty_world = example_world\<lparr>wo_db := (wo_db example_world)\<lparr>db_sessions := [duty_session]\<rparr>\<rparr>"


end
