(* ===== verification/Server_Family.thy ===== *)
theory Server_Family
  imports Server_Auth
begin

text \<open>
  \<open>internal/server/family.go\<close> and \<open>internal/server/person.go\<close>: the handlers for families, join
  codes and person profiles, with the checks they make before the repository is called. A server
  is its authenticator, absent when it was built without one; a request that may be nil is an
  option of its fields.
\<close>

section \<open>Families\<close>

record FamilyServer =
  fs_auth :: "authenticator option"
  fs_codeTTL :: duration

definition NewFamilyServer :: "duration \<Rightarrow> authenticator list \<Rightarrow> FamilyServer" where
  "NewFamilyServer codeTTL auth =
     \<lparr>fs_auth = (case auth of [] \<Rightarrow> None | a # _ \<Rightarrow> Some a),
      fs_codeTTL = (if codeTTL \<le> 0 then 7 * 24 * 3600 * 10 ^ 9 else codeTTL)\<rparr>"

definition normalizeCreateFamilyType :: "env \<Rightarrow> string \<Rightarrow> go_error + FamilyType" where
  "normalizeCreateFamilyType e raw =
     (let v = toLower (uni_lower e) (trimSpace raw) in
      if v = FamilyTypeSingle then Inr FamilyTypeSingle
      else if v = FamilyTypeCouple then Inr FamilyTypeCouple
      else if v = FamilyTypeFamily then Inr FamilyTypeFamily
      else if v = FamilyTypeSharedHousehold then Inr FamilyTypeSharedHousehold
      else Inl ErrInvalidArgument)"

definition domainFamilyFromCreateRequest :: "string \<Rightarrow> FamilyType \<Rightarrow> Family" where
  "domainFamilyFromCreateRequest name familyType =
     \<lparr>fa_ID = [], fa_Name = trimSpace name, fa_Type = familyType, fa_CreatedAt = 0, fa_UpdatedAt = 0\<rparr>"

definition joinCodeAlphabet :: string where
  "joinCodeAlphabet = ''ABCDEFGHJKLMNPQRSTUVWXYZ23456789''"

definition newFamilyJoinCode :: "(nat \<Rightarrow> go_error + string) \<Rightarrow> int \<Rightarrow> go_error + string" where
  "newFamilyJoinCode randRead len =
     (let n = nat (if len \<le> 0 then 10 else len)
      in case randRead n of Inl err \<Rightarrow> Inl err
         | Inr buffer \<Rightarrow> Inr (map (\<lambda>c. joinCodeAlphabet ! (of_char c mod length joinCodeAlphabet)) buffer))"

definition joinCodeP :: "env \<Rightarrow> int \<Rightarrow> (go_error, string) io" where
  "joinCodeP e len w = (newFamilyJoinCode (rand_at e (wo_tick w)) len, w\<lparr>wo_tick := Suc (wo_tick w)\<rparr>)"

definition srvCreateFamily :: "env \<Rightarrow> FamilyServer \<Rightarrow> metadata \<Rightarrow> (string \<times> string \<times> string) option \<Rightarrow> family_msg handler" where
  "srvCreateFamily e s md req = replying
     (case req of None \<Rightarrow> throwP ErrInvalidArgument
      | Some (ownerUserId, name, familyType) \<Rightarrow>
          bindP (requestActorID (fs_auth s) md ownerUserId) (\<lambda>ownerID.
          bindP (liftE (normalizeCreateFamilyType e familyType)) (\<lambda>familyType.
          bindP (repoCreateFamily e (domainFamilyFromCreateRequest name familyType) ownerID) (\<lambda>family.
          retP (familyToProto family)))))"

definition srvGetFamily :: "env \<Rightarrow> FamilyServer \<Rightarrow> metadata \<Rightarrow> (string \<times> string) option \<Rightarrow> family_msg handler" where
  "srvGetFamily e s md req = replying
     (case req of None \<Rightarrow> throwP ErrInvalidArgument
      | Some (viewerUserId, familyId) \<Rightarrow>
          bindP (requestActorID (fs_auth s) md viewerUserId) (\<lambda>viewerID.
          bindP (liftE (requireID familyId)) (\<lambda>familyID.
          bindP (repoGetFamily e familyID viewerID) (\<lambda>family. retP (familyToProto family)))))"

definition srvListUserFamilies :: "env \<Rightarrow> FamilyServer \<Rightarrow> metadata \<Rightarrow> string option \<Rightarrow> family_msg list handler" where
  "srvListUserFamilies e s md req = replying
     (case req of None \<Rightarrow> throwP ErrInvalidArgument
      | Some userId \<Rightarrow>
          bindP (requestActorID (fs_auth s) md userId) (\<lambda>userID.
          bindP (repoListUserFamilies e userID) (\<lambda>families. retP (map familyToProto families))))"

definition srvJoinFamilyByCode :: "env \<Rightarrow> FamilyServer \<Rightarrow> metadata \<Rightarrow> (string \<times> string) option \<Rightarrow> family_msg handler" where
  "srvJoinFamilyByCode e s md req = replying
     (case req of None \<Rightarrow> throwP ErrInvalidArgument
      | Some (userId, rawCode) \<Rightarrow>
          bindP (requestActorID (fs_auth s) md userId) (\<lambda>userID.
          let code = trimSpace rawCode in
          if code = [] then throwP ErrInvalidArgument
          else bindP (repoJoinFamilyByCode e userID (HashToken (sha256 e) code)) (\<lambda>family. retP (familyToProto family))))"

definition srvGenerateFamilyJoinCode :: "env \<Rightarrow> FamilyServer \<Rightarrow> metadata \<Rightarrow> (string \<times> string) option \<Rightarrow> string handler" where
  "srvGenerateFamilyJoinCode e s md req = replying
     (case req of None \<Rightarrow> throwP ErrInvalidArgument
      | Some (actorUserId, familyId) \<Rightarrow>
          bindP (requestActorID (fs_auth s) md actorUserId) (\<lambda>actorID.
          bindP (liftE (requireID familyId)) (\<lambda>familyID.
          bindP (joinCodeP e 10) (\<lambda>code.
          bindP (nowP e) (\<lambda>now.
          bindP (repoGenerateFamilyJoinCode e actorID familyID (HashToken (sha256 e) code) (Some (now + fs_codeTTL s))) (\<lambda>_.
          retP code))))))"

definition memberToProto :: "FamilyMember \<Rightarrow> member_msg" where
  "memberToProto m = \<lparr>mm_FamilyId = me_FamilyID m, mm_UserId = me_UserID m, mm_DisplayName = me_DisplayName m, mm_Role = me_Role m\<rparr>"

definition srvListFamilyMembers :: "env \<Rightarrow> FamilyServer \<Rightarrow> metadata \<Rightarrow> (string \<times> string) option \<Rightarrow> member_msg list handler" where
  "srvListFamilyMembers e s md req = replying
     (case req of None \<Rightarrow> throwP ErrInvalidArgument
      | Some (actorUserId, familyId) \<Rightarrow>
          bindP (requestActorID (fs_auth s) md actorUserId) (\<lambda>actorID.
          bindP (liftE (requireID familyId)) (\<lambda>familyID.
          bindP (repoListFamilyMembers e actorID familyID) (\<lambda>members. retP (map memberToProto members)))))"

section \<open>People\<close>

type_synonym PersonServer = "authenticator option"

definition NewPersonServer :: "authenticator list \<Rightarrow> PersonServer" where
  "NewPersonServer auth = (case auth of [] \<Rightarrow> None | a # _ \<Rightarrow> Some a)"

text \<open>The switch on the employment status, the check of the amounts, and both behind the checks of
  name and relationship; the pointer the handlers pass is never nil.\<close>

definition normalizeEmployment :: "PersonProfile \<Rightarrow> go_error + PersonProfile" where
  "normalizeEmployment profile =
     (if pp_EmploymentStatus profile = EmploymentFullTime
      then Inr (profile\<lparr>pp_ExpectedFutureIncomeCents := 0, pp_ExpectedIncomeStartDate := None, pp_GraduationDate := None, pp_ORDDate := None\<rparr>)
      else if pp_EmploymentStatus profile = EmploymentStudent
      then if pp_GraduationDate profile = None then Inl ErrInvalidArgument else Inr (profile\<lparr>pp_ORDDate := None\<rparr>)
      else if pp_EmploymentStatus profile = EmploymentFullTimeNSF
      then if pp_ORDDate profile = None then Inl ErrInvalidArgument else Inr (profile\<lparr>pp_GraduationDate := None\<rparr>)
      else Inl ErrInvalidArgument)"

definition checkAmounts :: "PersonProfile \<Rightarrow> go_error + PersonProfile" where
  "checkAmounts profile =
     (if pp_GrossMonthlyIncomeCents profile < 0 \<or> pp_ExpectedFutureIncomeCents profile < 0 \<or> pp_CashSavingsCents profile < 0
         \<or> pp_CPFOACents profile < 0 \<or> pp_CPFSACents profile < 0 \<or> pp_CPFMACents profile < 0 \<or> pp_MonthlyExpensesCents profile < 0
      then Inl ErrInvalidArgument else Inr profile)"

definition relationshipLabels :: "string list" where
  "relationshipLabels = [''spouse'', ''fiance'', ''fiancee'', ''occupant'', ''self'', ''me'']"

definition validateAndNormalizePersonProfile :: "env \<Rightarrow> PersonProfile \<Rightarrow> go_error + PersonProfile" where
  "validateAndNormalizePersonProfile e profile =
     (if trimSpace (pp_Name profile) = [] then Inl ErrInvalidArgument
      else if trimSpace (toLower (uni_lower e) (pp_RelationshipLabel profile)) \<notin> set relationshipLabels then Inl ErrInvalidArgument
      else bindS (normalizeEmployment profile) checkAmounts)"

definition srvCreatePersonProfile :: "env \<Rightarrow> PersonServer \<Rightarrow> metadata \<Rightarrow> person_msg option \<Rightarrow> person_msg handler" where
  "srvCreatePersonProfile e auth md req = replying
     (bindP (liftE (personFromProto req)) (\<lambda>profile.
      bindP (liftE (validateAndNormalizePersonProfile e profile)) (\<lambda>profile.
      bindP (optionalAuthenticatedActorID auth md) (\<lambda>actorID.
      bindP (repoCreatePersonProfile e profile actorID) (\<lambda>created.
      retP (personToProto created))))))"

definition srvGetPersonProfile :: "env \<Rightarrow> PersonServer \<Rightarrow> metadata \<Rightarrow> (string \<times> string) option \<Rightarrow> person_msg handler" where
  "srvGetPersonProfile e auth md req = replying
     (case req of None \<Rightarrow> throwP ErrInvalidArgument
      | Some (viewerUserId, personId) \<Rightarrow>
          bindP (requestActorID auth md viewerUserId) (\<lambda>viewerID.
          bindP (liftE (requireID personId)) (\<lambda>personID.
          bindP (repoGetPersonProfile e personID viewerID) (\<lambda>profile. retP (personToProto profile)))))"

definition srvListPersonProfilesByFamily :: "env \<Rightarrow> PersonServer \<Rightarrow> metadata \<Rightarrow> (string \<times> string) option \<Rightarrow> person_msg list handler" where
  "srvListPersonProfilesByFamily e auth md req = replying
     (case req of None \<Rightarrow> throwP ErrInvalidArgument
      | Some (viewerUserId, familyId) \<Rightarrow>
          bindP (requestActorID auth md viewerUserId) (\<lambda>viewerID.
          bindP (liftE (requireID familyId)) (\<lambda>familyID.
          bindP (repoListPersonProfilesByFamily e familyID viewerID) (\<lambda>profiles. retP (map personToProto profiles)))))"

definition srvListIncomeHistoryByFamily :: "env \<Rightarrow> PersonServer \<Rightarrow> metadata \<Rightarrow> (string \<times> string) option \<Rightarrow> history_msg list handler" where
  "srvListIncomeHistoryByFamily e auth md req = replying
     (case req of None \<Rightarrow> throwP ErrInvalidArgument
      | Some (viewerUserId, familyId) \<Rightarrow>
          bindP (requestActorID auth md viewerUserId) (\<lambda>viewerID.
          bindP (liftE (requireID familyId)) (\<lambda>familyID.
          bindP (repoListPersonIncomeHistoryByFamily e familyID viewerID) (\<lambda>entries.
          retP (map personIncomeHistoryEntryToProto entries)))))"

definition srvUpdatePersonProfile :: "env \<Rightarrow> PersonServer \<Rightarrow> metadata \<Rightarrow> person_msg option \<Rightarrow> person_msg handler" where
  "srvUpdatePersonProfile e auth md req = replying
     (bindP (liftE (personFromProto req)) (\<lambda>profile.
      if pp_ID profile = [] then throwP ErrInvalidArgument
      else bindP (liftE (validateAndNormalizePersonProfile e profile)) (\<lambda>profile.
      bindP (optionalAuthenticatedActorID auth md) (\<lambda>actorID.
      bindP (repoUpdatePersonProfile e profile actorID) (\<lambda>updated.
      retP (personToProto updated))))))"

definition srvDeletePersonProfile :: "env \<Rightarrow> PersonServer \<Rightarrow> metadata \<Rightarrow> (string \<times> string) option \<Rightarrow> unit handler" where
  "srvDeletePersonProfile e auth md req = replying
     (case req of None \<Rightarrow> throwP ErrInvalidArgument
      | Some (actorUserId, personId) \<Rightarrow>
          bindP (requestActorID auth md actorUserId) (\<lambda>actorID.
          bindP (liftE (requireID personId)) (\<lambda>personID.
          repoDeletePersonProfile e personID actorID)))"

section \<open>Join codes\<close>

lemma alphabet: "length joinCodeAlphabet = 32" "distinct joinCodeAlphabet" "list_all (\<lambda>c. 32 < byte c \<and> byte c < 128) joinCodeAlphabet"
  by (simp_all add: joinCodeAlphabet_def)

lemma alphabet_nth: "joinCodeAlphabet ! (n mod length joinCodeAlphabet) \<in> set joinCodeAlphabet"
  by (rule nth_mem) (simp add: alphabet(1))

lemma newFamilyJoinCode_Inr:
  assumes "newFamilyJoinCode randRead len = Inr code"
  shows "\<exists>buf. randRead (nat (if len \<le> 0 then 10 else len)) = Inr buf \<and> length code = length buf" and "set code \<subseteq> set joinCodeAlphabet"
  using assms alphabet_nth unfolding newFamilyJoinCode_def Let_def by (auto split: sum.splits simp del: length_greater_0_conv)

lemma plain_code: "set code \<subseteq> set joinCodeAlphabet \<Longrightarrow> plain code"
proof -
  assume "set code \<subseteq> set joinCodeAlphabet"
  then have "32 < byte c \<and> byte c < 128" if "c \<in> set code" for c using that alphabet(3) unfolding list_all_iff by blast
  then show ?thesis unfolding plain_def by (metis hd_in_set last_in_set)
qed

lemma residues: "i < 32 \<Longrightarrow> {n. n < 256 \<and> n mod 32 = i} = (\<lambda>k. i + 32 * k) ` {..<8 :: nat}"
proof
  assume "i < 32"
  show "{n. n < 256 \<and> n mod 32 = i} \<subseteq> (\<lambda>k. i + 32 * k) ` {..<8}"
  proof
    fix n assume "n \<in> {n. n < 256 \<and> n mod 32 = i}"
    then have "n = i + 32 * (n div 32)" "n div 32 < 8" by auto
    then show "n \<in> (\<lambda>k. i + 32 * k) ` {..<8}" by blast
  qed
  show "(\<lambda>k. i + 32 * k) ` {..<8} \<subseteq> {n. n < 256 \<and> n mod 32 = i}" using \<open>i < 32\<close> by auto
qed

lemma chars_of_residue: "{c :: char. (of_char c :: nat) mod 32 = i} = char_of ` {n :: nat. n < 256 \<and> n mod 32 = i}"
proof (rule set_eqI)
  fix c :: char
  have b: "(of_char c :: nat) < 256" using rangeI [of "of_char :: char \<Rightarrow> nat" c] by (simp only: range_nat_of_char atLeastLessThan_iff)
  show "c \<in> {c. (of_char c :: nat) mod 32 = i} \<longleftrightarrow> c \<in> char_of ` {n :: nat. n < 256 \<and> n mod 32 = i}"
  proof
    assume "c \<in> {c. (of_char c :: nat) mod 32 = i}"
    then have "(of_char c :: nat) \<in> {n. n < 256 \<and> n mod 32 = i}" using b by simp
    then have "char_of (of_char c :: nat) \<in> (char_of ` {n :: nat. n < 256 \<and> n mod 32 = i} :: char set)" by (rule imageI)
    then show "c \<in> char_of ` {n :: nat. n < 256 \<and> n mod 32 = i}" by (simp only: char_of_char)
  next
    assume "c \<in> char_of ` {n :: nat. n < 256 \<and> n mod 32 = i}"
    then obtain n :: nat where "c = char_of n" "n < 256" "n mod 32 = i" by blast
    then show "c \<in> {c. (of_char c :: nat) mod 32 = i}" by (simp add: of_char_of)
  qed
qed

lemma char_of_inj: "inj_on (char_of :: nat \<Rightarrow> char) {n. n < 256 \<and> n mod 32 = i}"
proof (rule inj_onI)
  fix m n :: nat assume "m \<in> {n. n < 256 \<and> n mod 32 = i}" "n \<in> {n. n < 256 \<and> n mod 32 = i}" "char_of m = (char_of n :: char)"
  then show "m = n" using of_char_of [of m] of_char_of [of n] by simp
qed

lemma chars_per_residue: "i < 32 \<Longrightarrow> card {c :: char. (of_char c :: nat) mod 32 = i} = 8"
  using card_image [OF char_of_inj [of i]] card_image [of "\<lambda>k. i + 32 * k" "{..<8 :: nat}"]
  by (simp only: chars_of_residue) (simp add: residues inj_on_def)

lemma bytes_per_letter:
  assumes "x \<in> set joinCodeAlphabet"
  shows "card {c :: char. joinCodeAlphabet ! (of_char c mod length joinCodeAlphabet) = x} = 8"
proof -
  from assms obtain i where i: "i < 32" "x = joinCodeAlphabet ! i" by (metis alphabet(1) in_set_conv_nth)
  have "joinCodeAlphabet ! (n mod 32) = x \<longleftrightarrow> n mod 32 = i" for n
    using nth_eq_iff_index_eq [OF alphabet(2), of "n mod 32" i] i by (simp add: alphabet(1))
  then show ?thesis using chars_per_residue [OF i(1)] by (simp only: alphabet(1))
qed

lemma query_runs:
  assumes "st (wo_tick w) (wo_db w) = Inr (x, d)" and "fault_at e (wo_tick w) = None"
  shows "query e st w = (Inr x, w\<lparr>wo_tick := Suc (wo_tick w), wo_db := d\<rparr>)"
  using assms by (simp add: query_def mapErr_def sql_def Let_def)

text \<open>The invite a join code leaves behind.\<close>

definition joinInvite :: "ID \<Rightarrow> string \<Rightarrow> time \<Rightarrow> ID \<Rightarrow> time \<Rightarrow> family_invite" where
  "joinInvite f h x u t = \<lparr>fi_FamilyID = f, fi_CodeHash = h, fi_ExpiresAt = Some x, fi_RevokedAt = None, fi_CreatedBy = u, fi_CreatedAt = t\<rparr>"

definition newInvite :: "database \<Rightarrow> family_invite \<Rightarrow> bool" where
  "newInvite d i \<longleftrightarrow> fi_CodeHash i \<notin> fi_CodeHash ` set (db_family_invites d) \<and> fi_FamilyID i \<in> fa_ID ` set (db_families d)"

lemma repoGenerate_Inr:
  assumes "repoGenerateFamilyJoinCode e actorID familyID h (Some x) w = (Inr (), w')"
  obtains f u where "uuid_in e familyID = Some f" "\<not> blank h" "newInvite (wo_db w) (joinInvite f h (pgTime x) u (dbNow e (Suc (wo_tick w))))"
    and "w' = w\<lparr>wo_tick := Suc (Suc (wo_tick w)), wo_db := (wo_db w)\<lparr>db_family_invites := db_family_invites (wo_db w)
           @ [joinInvite f h (pgTime x) u (dbNow e (Suc (wo_tick w)))]\<rparr>\<rparr>"
proof -
  have nb: "\<not> blank h" using assms by (auto simp: repoGenerateFamilyJoinCode_def)
  with assms obtain w1 where a: "assertFamilyManager e actorID familyID w = (Inr (), w1)"
    and q: "query e (\<lambda>n d.
          bindS (castUUID e familyID) (\<lambda>f. bindS (castUUID e actorID) (\<lambda>u.
          bindS (checkS (h \<notin> fi_CodeHash ` set (db_family_invites d)) ''23505'' ''family_invites_code_hash_key'') (\<lambda>_.
          bindS (checkS (f \<in> fa_ID ` set (db_families d) \<and> u \<in> us_ID ` set (db_users d)) ''23503'' ''family_invites_fkey'') (\<lambda>_.
          Inr ((), d\<lparr>db_family_invites := db_family_invites d @
            [\<lparr>fi_FamilyID = f, fi_CodeHash = h, fi_ExpiresAt = map_option pgTime (Some x), fi_RevokedAt = None,
              fi_CreatedBy = u, fi_CreatedAt = dbNow e n\<rparr>]\<rparr>)))))) w1 = (Inr (), w')"
    by (auto simp: repoGenerateFamilyJoinCode_def elim!: bindP_InrE)
  have w1: "w1 = w\<lparr>wo_tick := Suc (wo_tick w)\<rparr>"
    using a unfolding assertFamilyManager_def by (auto simp: bindS_Inr split: if_splits elim!: bindP_InrE query_Inr)
  from q obtain d where d: "w' = w1\<lparr>wo_tick := Suc (wo_tick w1), wo_db := d\<rparr>" and st: "\<exists>f u. uuid_in e familyID = Some f
      \<and> h \<notin> fi_CodeHash ` set (db_family_invites (wo_db w1)) \<and> f \<in> fa_ID ` set (db_families (wo_db w1))
      \<and> d = (wo_db w1)\<lparr>db_family_invites := db_family_invites (wo_db w1) @ [joinInvite f h (pgTime x) u (dbNow e (wo_tick w1))]\<rparr>"
    by (rule query_Inr) (auto simp: bindS_Inr castUUID_Inr joinInvite_def)
  from st obtain f u where f: "uuid_in e familyID = Some f" "h \<notin> fi_CodeHash ` set (db_family_invites (wo_db w1))"
    "f \<in> fa_ID ` set (db_families (wo_db w1))"
    "d = (wo_db w1)\<lparr>db_family_invites := db_family_invites (wo_db w1) @ [joinInvite f h (pgTime x) u (dbNow e (wo_tick w1))]\<rparr>" by blast
  show thesis
    by (rule that [OF f(1) nb, of u]) (use f d w1 in \<open>simp_all add: newInvite_def joinInvite_def\<close>)
qed

lemma selectInvitedFamily_new:
  assumes d: "db_family_invites d = db_family_invites d0 @ [i]" "db_families d = db_families d0" and i: "newInvite d0 i" "openInvite h (dbNow e n) i"
  obtains fam where "selectInvitedFamily e h n d = Inr (fam, d)" "fa_ID fam = fi_FamilyID i"
proof -
  let ?fams = "filter (\<lambda>fam. fa_ID fam = fi_FamilyID i) (db_families d)"
  let ?rows = "orderBy (\<lambda>(i, a) (j, b). fi_CreatedAt j \<le> fi_CreatedAt i) (map (\<lambda>fam. (i, fam)) ?fams)"
  have "\<not> openInvite h (dbNow e n) j" if "j \<in> set (db_family_invites d0)" for j
    using i that unfolding newInvite_def openInvite_def by (metis image_eqI)
  then have "filter (openInvite h (dbNow e n)) (db_family_invites d0) = []" by (simp add: filter_empty_conv)
  then have j: "filter (openInvite h (dbNow e n)) (db_family_invites d) = [i]" using d(1) i(2) by simp
  have "?fams \<noteq> []" using i(1) d(2) by (auto simp: newInvite_def filter_empty_conv)
  then have "set ?rows \<noteq> {}" by (simp only: set_orderBy set_map image_is_empty set_empty not_False_eq_True)
  then obtain row rest where r: "?rows = row # rest" by (cases ?rows) simp_all
  have "row \<in> set ?rows" by (simp only: r list.set_intros)
  then obtain fam where "row = (i, fam)" "fa_ID fam = fi_FamilyID i" by (auto simp only: set_orderBy set_map set_filter)
  with j r show thesis by (intro that [of fam]) (simp_all add: selectInvitedFamily_def Let_def bindS_def firstRow_def)
qed

lemma insertMember_runs:
  assumes "uuid_in e familyID = Some f" "uuid_in e userID = Some u" "f \<in> fa_ID ` set (db_families d)" "u \<in> us_ID ` set (db_users d)"
  obtains d' where "insertMember e False familyID userID FamilyRoleMember t d = Inr ((), d')" "isMember d' f u"
proof (cases "isMember d f u")
  case True
  then show thesis using assms by (intro that [of d]) (simp_all add: insertMember_def castUUID_def bindS_def checkS_def)
next
  case False
  then show thesis using assms
    by (intro that [of "d\<lparr>db_family_members := db_family_members d @ [\<lparr>fm_FamilyID = f, fm_UserID = u, fm_Role = FamilyRoleMember, fm_JoinedAt = t\<rparr>]\<rparr>"])
       (simp_all add: insertMember_def castUUID_def bindS_def checkS_def isMember_def)
qed

lemma srvGenerate_Inr:
  assumes "srvGenerateFamilyJoinCode e s md (Some (actorUserId, familyId)) w = (Inr code, w')"
  obtains f u w0 k where "uuid_in e (trimSpace familyId) = Some f" "newFamilyJoinCode (rand_at e k) 10 = Inr code"
    "\<not> blank (HashToken (sha256 e) code)"
    "newInvite w0 (joinInvite f (HashToken (sha256 e) code) (pgTime (clock_at e (wo_tick w' - 3) + fs_codeTTL s)) u (dbNow e (wo_tick w' - 1)))"
    "wo_db w' = w0\<lparr>db_family_invites := db_family_invites w0
       @ [joinInvite f (HashToken (sha256 e) code) (pgTime (clock_at e (wo_tick w' - 3) + fs_codeTTL s)) u (dbNow e (wo_tick w' - 1))]\<rparr>"
proof -
  from assms obtain actorID and w1 :: world where c: "newFamilyJoinCode (rand_at e (wo_tick w1)) 10 = Inr code"
    and g: "repoGenerateFamilyJoinCode e actorID (trimSpace familyId) (HashToken (sha256 e) code) (Some (clock_at e (Suc (wo_tick w1)) + fs_codeTTL s))
      (w1\<lparr>wo_tick := Suc (Suc (wo_tick w1))\<rparr>) = (Inr (), w')"
    unfolding srvGenerateFamilyJoinCode_def
    by (auto simp: mapErr_Inr joinCodeP_def nowP_def liftE_def requireID_def Let_def retP_def split: if_splits elim!: bindP_InrE)
  show thesis by (rule repoGenerate_Inr [OF g]) (rule that, use c in simp_all)
qed

section \<open>Properties\<close>

text \<open>
  Property C39: join codes are drawn without bias. When the random source fills the buffer it is
  given, a generated code has ten letters (or the requested positive number), all from the
  alphabet without look-alikes, survives the trimming of \<open>JoinFamilyByCode\<close>, and every
  letter of the alphabet comes from exactly eight of the 256 values of a random byte.
\<close>

theorem join_code_uniform:
  assumes "newFamilyJoinCode randRead len = Inr code" and "\<And>k buf. randRead k = Inr buf \<Longrightarrow> length buf = k"
  shows "length code = nat (if len \<le> 0 then 10 else len) \<and> trimSpace code = code \<and> set code \<subseteq> set joinCodeAlphabet
    \<and> (\<forall>x\<in>set joinCodeAlphabet. card {c :: char. newFamilyJoinCode (\<lambda>n. Inr (replicate n c)) 1 = Inr [x]} = 8)"
proof -
  from newFamilyJoinCode_Inr [OF assms(1)] obtain buf where b: "randRead (nat (if len \<le> 0 then 10 else len)) = Inr buf" "length code = length buf"
    and c: "set code \<subseteq> set joinCodeAlphabet" by blast
  have "card {c :: char. newFamilyJoinCode (\<lambda>n. Inr (replicate n c)) 1 = Inr [x]} = 8" if "x \<in> set joinCodeAlphabet" for x
    using bytes_per_letter [OF that] by (simp add: newFamilyJoinCode_def)
  with assms(2) [OF b(1)] b(2) c plain_code [OF c] show ?thesis by simp
qed

theorem join_code_uniform_witness:
  "newFamilyJoinCode (\<lambda>n. Inr (replicate n (CHR ''r''))) 10 = Inr ''UUUUUUUUUU'' \<and> trimSpace ''UUUUUUUUUU'' = ''UUUUUUUUUU''"
proof -
  have c: "newFamilyJoinCode (\<lambda>n. Inr (replicate n (CHR ''r''))) 10 = Inr ''UUUUUUUUUU''" by code_simp
  from join_code_uniform [OF this] c show ?thesis by auto
qed

text \<open>
  Property C33: a join code admits its bearer. After \<open>GenerateFamilyJoinCode\<close> has answered a code
  for the family \<open>f\<close>, a request to join with that code which is authenticated as a stored user,
  reaches the tables as they were left and comes before the code expires, succeeds on a database
  that answers: the reply is the family and the user is a member of it.
\<close>

theorem join_code_admits:
  assumes gen: "srvGenerateFamilyJoinCode e s md (Some (actorUserId, familyId)) w = (Inr code, w1)"
    and rand: "\<And>n k buf. rand_at e n k = Inr buf \<Longrightarrow> length buf = k" and up: "\<And>n. fault_at e n = None"
    and f: "uuid_in e (trimSpace familyId) = Some f" "uuid_in e f = Some f"
    and auth: "requestActorID (fs_auth s) md2 userId w2 = (Inr userID, w3)" and db: "wo_db w3 = wo_db w1"
    and u: "\<not> blank userID" "uuid_in e userID = Some u" "u \<in> us_ID ` set (db_users (wo_db w1))"
    and time: "dbNow e (wo_tick w3) < pgTime (clock_at e (wo_tick w1 - 3) + fs_codeTTL s)"
  shows "\<exists>fam w4. srvJoinFamilyByCode e s md2 (Some (userId, code)) w2 = (Inr fam, w4) \<and> fm_msg_Id fam = f \<and> isMember (wo_db w4) f u"
proof -
  let ?h = "HashToken (sha256 e) code"
  from gen obtain a w0 k where c: "newFamilyJoinCode (rand_at e k) 10 = Inr code" and nb: "\<not> blank ?h"
    and new: "newInvite w0 (joinInvite f ?h (pgTime (clock_at e (wo_tick w1 - 3) + fs_codeTTL s)) a (dbNow e (wo_tick w1 - 1)))"
    and d: "wo_db w1 = w0\<lparr>db_family_invites := db_family_invites w0
       @ [joinInvite f ?h (pgTime (clock_at e (wo_tick w1 - 3) + fs_codeTTL s)) a (dbNow e (wo_tick w1 - 1))]\<rparr>"
    using f(1) by (elim srvGenerate_Inr) simp
  let ?i = "joinInvite f ?h (pgTime (clock_at e (wo_tick w1 - 3) + fs_codeTTL s)) a (dbNow e (wo_tick w1 - 1))"
  have fams: "f \<in> fa_ID ` set (db_families (wo_db w1))" using new d by (simp add: newInvite_def joinInvite_def)
  from newFamilyJoinCode_Inr(1) [OF c] rand have "length code = 10" by force
  then have code: "code \<noteq> []" "trimSpace code = code" using plain_code [OF newFamilyJoinCode_Inr(2) [OF c]] by auto
  have op: "openInvite ?h (dbNow e (wo_tick w3)) ?i" using time by (simp add: openInvite_def joinInvite_def)
  have inv: "db_family_invites (wo_db w3) = db_family_invites w0 @ [?i]" "db_families (wo_db w3) = db_families w0" using d db by simp_all
  obtain fam where sel: "selectInvitedFamily e ?h (wo_tick w3) (wo_db w3) = Inr (fam, wo_db w3)" "fa_ID fam = f"
    by (rule selectInvitedFamily_new [OF inv new op]) (simp add: joinInvite_def)
  define w4 where "w4 = w3\<lparr>wo_tick := Suc (wo_tick w3)\<rparr>"
  have q1: "query e (selectInvitedFamily e ?h) w3 = (Inr fam, w4)" using query_runs [of "selectInvitedFamily e ?h" w3, OF sel(1) up] by (simp add: w4_def)
  obtain d' where ins: "insertMember e False (fa_ID fam) userID FamilyRoleMember (dbNow e (wo_tick w4)) (wo_db w4) = Inr ((), d')" "isMember d' f u"
    by (rule insertMember_runs [of e "fa_ID fam" f userID u "wo_db w4"]) (use f u fams sel(2) db in \<open>simp_all add: w4_def\<close>)
  note q2 = query_runs [of "\<lambda>n d. insertMember e False (fa_ID fam) userID FamilyRoleMember (dbNow e n) d" w4, OF ins(1) up]
  have "repoJoinFamilyByCode e userID ?h w3 = (Inr fam, w4\<lparr>wo_tick := Suc (wo_tick w4), wo_db := d'\<rparr>)"
    using u(1) nb q1 q2 by (simp add: repoJoinFamilyByCode_def bindP_def retP_def)
  with auth code sel(2) ins(2) show ?thesis
    by (simp add: srvJoinFamilyByCode_def bindP_def mapErr_def retP_def Let_def familyToProto_def)
qed

definition invite_world :: world where
  "invite_world = duty_world\<lparr>wo_db := (wo_db duty_world)\<lparr>
     db_users := [example_admin, example_admin\<lparr>us_ID := ''u2'', us_Email := ''b@x.sg''\<rparr>], db_families := [example_family],
     db_sessions := [duty_session, duty_session\<lparr>se_UserID := ''u2'', se_TokenHash := HashToken id ''kot''\<rparr>],
     db_family_members := [\<lparr>fm_FamilyID = ''f1'', fm_UserID = ''u1'', fm_Role = ''owner'', fm_JoinedAt = 0\<rparr>]\<rparr>\<rparr>"

definition invite_server :: FamilyServer where
  "invite_server = NewFamilyServer 0 [srvAuthenticate example_env]"

lemma invited_run:
  "case srvGenerateFamilyJoinCode example_env invite_server (tokenMetadata ''tok'') (Some ([], ''f1'')) invite_world of
     (Inr code, w1) \<Rightarrow> code = ''UUUUUUUUUU'' \<and> wo_tick w1 = 6 \<and> list_ex (\<lambda>u. us_ID u = ''u2'') (db_users (wo_db w1))
        \<and> (case requestActorID (fs_auth invite_server) (tokenMetadata ''kot'') [] w1 of (Inr i, w3) \<Rightarrow> i = ''u2'' \<and> wo_tick w3 = 8 | _ \<Rightarrow> False)
   | _ \<Rightarrow> False"
  by code_simp

theorem join_code_admits_witness:
  "\<exists>w1 fam w4. srvGenerateFamilyJoinCode example_env invite_server (tokenMetadata ''tok'') (Some ([], ''f1'')) invite_world = (Inr ''UUUUUUUUUU'', w1)
     \<and> srvJoinFamilyByCode example_env invite_server (tokenMetadata ''kot'') (Some ([], ''UUUUUUUUUU'')) w1 = (Inr fam, w4)
     \<and> fm_msg_Id fam = ''f1'' \<and> isMember (wo_db w4) ''f1'' ''u2''"
proof -
  from invited_run obtain w1 w3 where
    gen: "srvGenerateFamilyJoinCode example_env invite_server (tokenMetadata ''tok'') (Some ([], ''f1'')) invite_world = (Inr ''UUUUUUUUUU'', w1)"
    and u: "list_ex (\<lambda>u. us_ID u = ''u2'') (db_users (wo_db w1))" and t: "wo_tick w1 = 6" "wo_tick w3 = 8"
    and auth: "requestActorID (fs_auth invite_server) (tokenMetadata ''kot'') [] w1 = (Inr ''u2'', w3)"
    by (auto split: prod.splits sum.splits)
  have "authenticateUserID (Some (srvAuthenticate example_env)) (tokenMetadata ''kot'') w1 = (Inr ''u2'', w3)"
    using auth by (simp add: invite_server_def NewFamilyServer_def requestActorID_def)
  then have db: "wo_db w3 = wo_db w1" using sessions.user_id_genuine by blast
  have env: "fault_at example_env n = None" "rand_at example_env n k = Inr buf \<Longrightarrow> length buf = k" "trimSpace ''f1'' = ''f1''" "\<not> blank ''u2''"
    "uuid_in example_env ''f1'' = Some ''f1''" "uuid_in example_env ''u2'' = Some ''u2''" "clock_at example_env n = int n * 1000" for n k buf
    by (auto simp: example_env_def trimSpace_code alnum_def blank_def)
  have "\<exists>fam w4. srvJoinFamilyByCode example_env invite_server (tokenMetadata ''kot'') (Some ([], ''UUUUUUUUUU'')) w1 = (Inr fam, w4)
     \<and> fm_msg_Id fam = ''f1'' \<and> isMember (wo_db w4) ''f1'' ''u2''"
    by (rule join_code_admits [OF gen env(2) env(1) _ env(5) auth db env(4) env(6)])
       (use u t in \<open>simp_all add: env list_ex_iff image_iff dbNow_def pgTime_def invite_server_def NewFamilyServer_def Bex_def\<close>, metis)
  with gen show ?thesis by blast
qed

end
