(* ===== verification/Server_Housing.thy ===== *)
theory Server_Housing
  imports Server_Auth
begin

text \<open>
  \<open>internal/server/housing.go\<close>, \<open>housing_checklist.go\<close> and \<open>housing_notes.go\<close>: the handlers for
  housing options, groups, notes and the checklist, with their validation and the grant estimate
  they fill in. The getters of a nil request return zero values, which is what \<open>getText\<close> does.
\<close>

record HousingServer =
  hs_auth :: "authenticator option"
  hs_hasPeople :: bool
  hs_hasChecklist :: bool

definition NewHousingServer :: "bool \<Rightarrow> bool \<Rightarrow> authenticator list \<Rightarrow> HousingServer" where
  "NewHousingServer hasChecklist hasPeople auth =
     \<lparr>hs_auth = (case auth of [] \<Rightarrow> None | a # _ \<Rightarrow> Some a), hs_hasPeople = hasPeople, hs_hasChecklist = hasChecklist\<rparr>"

definition getText :: "('r \<Rightarrow> string) \<Rightarrow> 'r option \<Rightarrow> string" where
  "getText field req = (case req of None \<Rightarrow> [] | Some r \<Rightarrow> field r)"

definition checkE :: "go_error option \<Rightarrow> (go_error, unit) io" where
  "checkE r = (case r of None \<Rightarrow> retP () | Some err \<Rightarrow> throwP err)"

section \<open>Validation\<close>

definition validateHousingCondoCombination :: "HousingOption \<Rightarrow> go_error option" where
  "validateHousingCondoCombination option =
     (if \<not> IsNonHDBHousingType (ho_Type option) then None
      else if ho_LoanType option = LoanTypeHDB then Some ErrInvalidArgument
      else if ho_GrantAmountCents option > 0 then Some ErrInvalidArgument
      else None)"

definition validateHousingLoanTenure :: "HousingOption \<Rightarrow> go_error option" where
  "validateHousingLoanTenure option =
     (if ho_LoanType option = LoanTypeCash \<or> ho_LoanTenureMonths option \<le> 0 then None
      else if ho_LoanTenureMonths option > MaxLoanTenureMonthsForHousingType (ho_Type option) then Some ErrInvalidArgument
      else None)"

definition validateHousingOption :: "HousingOption \<Rightarrow> go_error option" where
  "validateHousingOption option =
     (case validateHousingCondoCombination option of Some err \<Rightarrow> Some err | None \<Rightarrow> validateHousingLoanTenure option)"

definition applyGrantEstimate :: "env \<Rightarrow> HousingServer \<Rightarrow> HousingOption \<Rightarrow> ID \<Rightarrow> (go_error, HousingOption) io" where
  "applyGrantEstimate e s option viewerID =
     (if \<not> hs_hasPeople s \<or> ho_FamilyID option = [] then retP option
      else if IsNonHDBHousingType (ho_Type option) then retP (option\<lparr>ho_GrantAmountCents := 0\<rparr>)
      else if IsDeferredHousingOption option then retP (option\<lparr>ho_GrantAmountCents := 0\<rparr>)
      else bindP (repoListPersonProfilesByFamily e (ho_FamilyID option) viewerID) (\<lambda>people.
           retP (option\<lparr>ho_GrantAmountCents := ge_GrantAmountCents (EstimateHousingGrantAmount (ho_Type option) people)\<rparr>)))"

section \<open>Options\<close>

definition srvCreateHousingOption :: "env \<Rightarrow> HousingServer \<Rightarrow> metadata \<Rightarrow> option_msg option \<Rightarrow> option_msg handler" where
  "srvCreateHousingOption e s md req = replying
     (bindP (checkE (ValidateHousingNotes (getText hm_Notes req))) (\<lambda>_.
      bindP (liftE (housingFromProto req)) (\<lambda>option.
      bindP (checkE (validateHousingOption option)) (\<lambda>_.
      bindP (optionalAuthenticatedActorID (hs_auth s) md) (\<lambda>actorID.
      bindP (applyGrantEstimate e s option actorID) (\<lambda>option.
      bindP (repoCreateHousingOption e option actorID) (\<lambda>created.
      retP (housingToProto created))))))))"

definition srvGetHousingOption :: "env \<Rightarrow> HousingServer \<Rightarrow> metadata \<Rightarrow> (string \<times> string) option \<Rightarrow> option_msg handler" where
  "srvGetHousingOption e s md req = replying
     (case req of None \<Rightarrow> throwP ErrInvalidArgument
      | Some (viewerUserId, housingId) \<Rightarrow>
          bindP (requestActorID (hs_auth s) md viewerUserId) (\<lambda>viewerID.
          bindP (liftE (requireID housingId)) (\<lambda>housingID.
          bindP (repoGetHousingOption e housingID viewerID) (\<lambda>option. retP (housingToProto option)))))"

definition srvListHousingOptions :: "env \<Rightarrow> HousingServer \<Rightarrow> metadata \<Rightarrow> (string \<times> string) option \<Rightarrow> option_msg list handler" where
  "srvListHousingOptions e s md req = replying
     (case req of None \<Rightarrow> throwP ErrInvalidArgument
      | Some (viewerUserId, familyId) \<Rightarrow>
          bindP (requestActorID (hs_auth s) md viewerUserId) (\<lambda>viewerID.
          bindP (liftE (requireID familyId)) (\<lambda>familyID.
          bindP (repoListHousingOptions e familyID viewerID) (\<lambda>options. retP (map housingToProto options)))))"

text \<open>A request without a group or a visibility keeps the stored ones.\<close>

definition mergeExisting :: "env \<Rightarrow> option_msg \<Rightarrow> HousingOption \<Rightarrow> ID \<Rightarrow> (go_error, HousingOption) io" where
  "mergeExisting e req option actorID =
     (if hm_HousingGroupId req = None \<or> hm_VisibleOnDashboard req = None
      then bindP (repoGetHousingOption e (ho_ID option) actorID) (\<lambda>existing.
           let option = (if hm_HousingGroupId req = None then option\<lparr>ho_GroupID := ho_GroupID existing\<rparr> else option)
           in retP (if hm_VisibleOnDashboard req = None then option\<lparr>ho_VisibleOnDashboard := ho_VisibleOnDashboard existing\<rparr> else option))
      else retP option)"

definition srvUpdateHousingOption :: "env \<Rightarrow> HousingServer \<Rightarrow> metadata \<Rightarrow> option_msg option \<Rightarrow> option_msg handler" where
  "srvUpdateHousingOption e s md req = replying
     (bindP (liftE (housingFromProto req)) (\<lambda>option.
      if ho_ID option = [] then throwP ErrInvalidArgument
      else bindP (checkE (validateHousingOption option)) (\<lambda>_.
      bindP (optionalAuthenticatedActorID (hs_auth s) md) (\<lambda>actorID.
      bindP (mergeExisting e (the req) option actorID) (\<lambda>option.
      bindP (applyGrantEstimate e s option actorID) (\<lambda>option.
      bindP (repoUpdateHousingOption e option actorID) (\<lambda>updated.
      retP (housingToProto updated))))))))"

definition srvDeleteHousingOption :: "env \<Rightarrow> HousingServer \<Rightarrow> metadata \<Rightarrow> (string \<times> string) option \<Rightarrow> unit handler" where
  "srvDeleteHousingOption e s md req = replying
     (case req of None \<Rightarrow> throwP ErrInvalidArgument
      | Some (actorUserId, housingId) \<Rightarrow>
          bindP (requestActorID (hs_auth s) md actorUserId) (\<lambda>actorID.
          bindP (liftE (requireID housingId)) (\<lambda>housingID.
          repoDeleteHousingOption e housingID actorID)))"

section \<open>Groups\<close>

definition srvCreateHousingGroup :: "env \<Rightarrow> HousingServer \<Rightarrow> metadata \<Rightarrow> group_msg option \<Rightarrow> group_msg handler" where
  "srvCreateHousingGroup e s md req = replying
     (bindP (liftE (housingGroupFromProto req)) (\<lambda>group.
      if trimSpace (hg_FamilyID group) = [] \<or> trimSpace (hg_Name group) = [] then throwP ErrInvalidArgument
      else bindP (optionalAuthenticatedActorID (hs_auth s) md) (\<lambda>actorID.
      bindP (repoCreateHousingGroup e group actorID) (\<lambda>created.
      retP (housingGroupToProto created)))))"

definition srvListHousingGroups :: "env \<Rightarrow> HousingServer \<Rightarrow> metadata \<Rightarrow> (string \<times> string) option \<Rightarrow> group_msg list handler" where
  "srvListHousingGroups e s md req = replying
     (case req of None \<Rightarrow> throwP ErrInvalidArgument
      | Some (viewerUserId, familyId) \<Rightarrow>
          bindP (requestActorID (hs_auth s) md viewerUserId) (\<lambda>viewerID.
          bindP (liftE (requireID familyId)) (\<lambda>familyID.
          bindP (repoListHousingGroups e familyID viewerID) (\<lambda>groups. retP (map housingGroupToProto groups)))))"

definition srvUpdateHousingGroup :: "env \<Rightarrow> HousingServer \<Rightarrow> metadata \<Rightarrow> group_msg option \<Rightarrow> group_msg handler" where
  "srvUpdateHousingGroup e s md req = replying
     (bindP (liftE (housingGroupFromProto req)) (\<lambda>group.
      if trimSpace (hg_ID group) = [] \<or> trimSpace (hg_Name group) = [] then throwP ErrInvalidArgument
      else bindP (optionalAuthenticatedActorID (hs_auth s) md) (\<lambda>actorID.
      bindP (repoUpdateHousingGroup e group actorID) (\<lambda>updated.
      retP (housingGroupToProto updated)))))"

definition srvDeleteHousingGroup :: "env \<Rightarrow> HousingServer \<Rightarrow> metadata \<Rightarrow> (string \<times> string) option \<Rightarrow> unit handler" where
  "srvDeleteHousingGroup e s md req = replying
     (case req of None \<Rightarrow> throwP ErrInvalidArgument
      | Some (actorUserId, groupId) \<Rightarrow>
          bindP (requestActorID (hs_auth s) md actorUserId) (\<lambda>actorID.
          bindP (liftE (requireID groupId)) (\<lambda>groupID.
          repoDeleteHousingGroup e groupID actorID)))"

definition srvAssignHousingOptionGroup :: "env \<Rightarrow> HousingServer \<Rightarrow> metadata \<Rightarrow> (string \<times> string \<times> string) option \<Rightarrow> option_msg handler" where
  "srvAssignHousingOptionGroup e s md req = replying
     (case req of None \<Rightarrow> throwP ErrInvalidArgument
      | Some (actorUserId, housingId, groupId) \<Rightarrow>
          bindP (requestActorID (hs_auth s) md actorUserId) (\<lambda>actorID.
          bindP (liftE (requireID housingId)) (\<lambda>housingID.
          bindP (repoAssignHousingOptionGroup e housingID (trimSpace groupId) actorID) (\<lambda>updated.
          retP (housingToProto updated)))))"

definition srvUpdateHousingOptionVisibility :: "env \<Rightarrow> HousingServer \<Rightarrow> metadata \<Rightarrow> (string \<times> string \<times> bool) option \<Rightarrow> option_msg handler" where
  "srvUpdateHousingOptionVisibility e s md req = replying
     (case req of None \<Rightarrow> throwP ErrInvalidArgument
      | Some (actorUserId, housingId, visible) \<Rightarrow>
          bindP (requestActorID (hs_auth s) md actorUserId) (\<lambda>actorID.
          bindP (liftE (requireID housingId)) (\<lambda>housingID.
          bindP (repoUpdateHousingOptionVisibility e housingID visible actorID) (\<lambda>updated.
          retP (housingToProto updated)))))"

definition srvBulkUpdateHousingGroupVisibility :: "env \<Rightarrow> HousingServer \<Rightarrow> metadata \<Rightarrow> (string \<times> string \<times> bool) option \<Rightarrow> option_msg list handler" where
  "srvBulkUpdateHousingGroupVisibility e s md req = replying
     (case req of None \<Rightarrow> throwP ErrInvalidArgument
      | Some (actorUserId, groupId, visible) \<Rightarrow>
          bindP (requestActorID (hs_auth s) md actorUserId) (\<lambda>actorID.
          bindP (liftE (requireID groupId)) (\<lambda>groupID.
          bindP (repoBulkUpdateHousingGroupVisibility e groupID visible actorID) (\<lambda>options.
          retP (map housingToProto options)))))"

section \<open>Affordability and grants\<close>

definition srvCalculateHousingAffordability ::
    "float_env \<Rightarrow> (option_msg option \<times> int64 \<times> int64 \<times> int64 \<times> int64) option \<Rightarrow> affordability_msg handler" where
  "srvCalculateHousingAffordability fenv req = replying
     (case req of None \<Rightarrow> throwP ErrInvalidArgument
      | Some (housingOption, cashSavings, cpfOa, takeHome, monthlyExpenses) \<Rightarrow>
          bindP (liftE (housingFromProto housingOption)) (\<lambda>option.
          bindP (checkE (validateHousingOption option)) (\<lambda>_.
          retP (housingAffordabilityToProto (CalculateHousingAffordability fenv option
            \<lparr>as_CashSavingsCents = cashSavings, as_CPFOACents = cpfOa, as_TakeHomeCents = takeHome,
             as_MonthlyExpensesCents = monthlyExpenses\<rparr>)))))"

definition srvEstimateHousingGrant :: "env \<Rightarrow> HousingServer \<Rightarrow> metadata \<Rightarrow> (string \<times> string \<times> string) option \<Rightarrow> HousingGrantEstimate handler" where
  "srvEstimateHousingGrant e s md req = replying
     (case req of None \<Rightarrow> throwP ErrInvalidArgument
      | Some (viewerUserId, familyId, housingType) \<Rightarrow>
          bindP (requestActorID (hs_auth s) md viewerUserId) (\<lambda>viewerID.
          bindP (liftE (requireID familyId)) (\<lambda>familyID.
          bindP (repoListPersonProfilesByFamily e familyID viewerID) (\<lambda>people.
          retP (EstimateHousingGrantAmount housingType people)))))"

section \<open>Notes\<close>

definition srvUpdateHousingNotes :: "env \<Rightarrow> HousingServer \<Rightarrow> metadata \<Rightarrow> (string \<times> string) option \<Rightarrow> string handler" where
  "srvUpdateHousingNotes e s md req = replying
     (bindP (authenticateUserID (hs_auth s) md) (\<lambda>actorID.
      bindP (liftE (requireID (getText fst req))) (\<lambda>housingID.
      bindP (checkE (ValidateHousingNotes (getText snd req))) (\<lambda>_.
      repoUpdateHousingNotes e housingID (getText snd req) actorID))))"

section \<open>The checklist\<close>

record criterion_msg =
  cr_Id :: string
  cr_FamilyId :: string
  cr_Name :: string
  cr_Description :: string
  cr_DisplayOrder :: int32
  cr_Weight :: "float64 option"

record answer_msg =
  an_HousingId :: string
  an_CriterionId :: string
  an_State :: string
  an_Rating :: "int32 option"
  an_Notes :: string

record evaluation_msg =
  ev_Criteria :: "criterion_msg list"
  ev_Answers :: "answer_msg list"
  ev_Summary :: "HousingEvaluationSummary option"

definition criterionToProto :: "HousingCriterion \<Rightarrow> criterion_msg" where
  "criterionToProto c = \<lparr>cr_Id = hc_ID c, cr_FamilyId = hc_FamilyID c, cr_Name = hc_Name c, cr_Description = hc_Description c,
     cr_DisplayOrder = hc_DisplayOrder c, cr_Weight = hc_Weight c\<rparr>"

definition answerToProto :: "HousingAnswer \<Rightarrow> answer_msg" where
  "answerToProto a = \<lparr>an_HousingId = ha_HousingID a, an_CriterionId = ha_CriterionID a, an_State = ha_State a,
     an_Rating = ha_Rating a, an_Notes = ha_Notes a\<rparr>"

definition checklistActor :: "HousingServer \<Rightarrow> metadata \<Rightarrow> ID handler" where
  "checklistActor s md =
     bindP (replying (authenticateUserID (hs_auth s) md)) (\<lambda>i.
     if \<not> hs_hasChecklist s then throwP (statusError Unimplemented ''housing checklist repository unavailable'') else retP i)"

definition srvListHousingCriteria :: "env \<Rightarrow> HousingServer \<Rightarrow> metadata \<Rightarrow> string option \<Rightarrow> criterion_msg list handler" where
  "srvListHousingCriteria e s md req =
     bindP (checklistActor s md) (\<lambda>actor. replying
       (bindP (liftE (requireID (getText id req))) (\<lambda>familyID.
        bindP (repoListHousingCriteria e familyID actor) (\<lambda>criteria.
        retP (map criterionToProto criteria)))))"

definition srvSaveHousingCriterion :: "env \<Rightarrow> HousingServer \<Rightarrow> metadata \<Rightarrow> criterion_msg option \<Rightarrow> criterion_msg handler" where
  "srvSaveHousingCriterion e s md req =
     bindP (checklistActor s md) (\<lambda>actor. replying
       (case req of None \<Rightarrow> throwP ErrInvalidArgument
        | Some r \<Rightarrow>
            let c = \<lparr>hc_ID = trimSpace (cr_Id r), hc_FamilyID = trimSpace (cr_FamilyId r), hc_Name = trimSpace (cr_Name r),
                     hc_Description = trimSpace (cr_Description r), hc_DisplayOrder = cr_DisplayOrder r, hc_Weight = cr_Weight r\<rparr>
            in bindP (checkE (ValidateHousingCriterion c)) (\<lambda>_.
               bindP (repoSaveHousingCriterion e c actor) (\<lambda>saved.
               retP (criterionToProto saved)))))"

definition srvDeleteHousingCriterion :: "env \<Rightarrow> HousingServer \<Rightarrow> metadata \<Rightarrow> (string \<times> string) option \<Rightarrow> unit handler" where
  "srvDeleteHousingCriterion e s md req =
     bindP (checklistActor s md) (\<lambda>actor. replying
       (bindP (liftE (requireID (getText fst req))) (\<lambda>familyID.
        bindP (liftE (requireID (getText snd req))) (\<lambda>i.
        repoDeleteHousingCriterion e familyID i actor))))"

fun distinctIDs :: "ID list \<Rightarrow> string list \<Rightarrow> go_error + ID list" where
  "distinctIDs seen [] = Inr []"
| "distinctIDs seen (raw # rest) =
     (case requireID raw of Inl err \<Rightarrow> Inl ErrInvalidArgument
      | Inr i \<Rightarrow> if i \<in> set seen then Inl ErrInvalidArgument
          else bindS (distinctIDs (i # seen) rest) (\<lambda>ids. Inr (i # ids)))"

definition srvReorderHousingCriteria :: "env \<Rightarrow> HousingServer \<Rightarrow> metadata \<Rightarrow> (string \<times> string list) option \<Rightarrow> criterion_msg list handler" where
  "srvReorderHousingCriteria e s md req =
     bindP (checklistActor s md) (\<lambda>actor.
     bindP (replying
       (bindP (liftE (requireID (getText fst req))) (\<lambda>familyID.
        bindP (liftE (distinctIDs [] (case req of None \<Rightarrow> [] | Some r \<Rightarrow> snd r))) (\<lambda>ids.
        bindP (repoReorderHousingCriteria e familyID ids actor) (\<lambda>_. retP familyID))))) (\<lambda>familyID.
     srvListHousingCriteria e s md (Some familyID)))"

definition srvGetHousingEvaluation :: "env \<Rightarrow> HousingServer \<Rightarrow> metadata \<Rightarrow> string option \<Rightarrow> evaluation_msg handler" where
  "srvGetHousingEvaluation e s md req =
     bindP (checklistActor s md) (\<lambda>actor. replying
       (bindP (liftE (requireID (getText id req))) (\<lambda>i.
        bindP (repoGetHousingOption e i actor) (\<lambda>option.
        bindP (repoListHousingCriteria e (ho_FamilyID option) actor) (\<lambda>criteria.
        bindP (repoListHousingAnswers e (ho_FamilyID option) actor) (\<lambda>answers.
        let selected = filter (\<lambda>a. ha_HousingID a = i \<and> ha_CriterionID a \<in> set (map hc_ID criteria)) answers
        in retP \<lparr>ev_Criteria = map criterionToProto criteria, ev_Answers = map answerToProto selected,
                 ev_Summary = Some (SummarizeHousingEvaluation criteria selected)\<rparr>))))))"

definition srvSaveHousingAnswer :: "env \<Rightarrow> HousingServer \<Rightarrow> metadata \<Rightarrow> answer_msg option \<Rightarrow> answer_msg handler" where
  "srvSaveHousingAnswer e s md req =
     bindP (checklistActor s md) (\<lambda>actor. replying
       (case req of None \<Rightarrow> throwP ErrInvalidArgument
        | Some r \<Rightarrow>
            let a = \<lparr>ha_HousingID = trimSpace (an_HousingId r), ha_CriterionID = trimSpace (an_CriterionId r), ha_State = an_State r,
                     ha_Rating = an_Rating r, ha_Notes = trimSpace (an_Notes r)\<rparr>
            in bindP (checkE (ValidateHousingAnswer a)) (\<lambda>_.
               bindP (repoSaveHousingAnswer e a actor) (\<lambda>saved.
               retP (answerToProto saved)))))"

end
