(* ===== verification/Service_Dashboard.thy ===== *)
theory Service_Dashboard
  imports Server_Auth
begin

text \<open>
  \<open>internal/service/dashboard.go\<close> with its handler \<open>internal/server/dashboard.go\<close>, and the
  stateless calculators of \<open>internal/server/finance.go\<close>.
\<close>

section \<open>The household dashboard\<close>

record HouseholdDashboard =
  da_FamilyID :: ID
  da_Income :: HouseholdIncomeSummary
  da_CashSavingsCents :: int64
  da_HousingAffordability :: "HousingAffordability list"

definition sumCash :: "PersonProfile list \<Rightarrow> int64" where
  "sumCash people = foldl (\<lambda>cash person. i64 (cash + pp_CashSavingsCents person)) 0 people"

fun visibleResults :: "float_env \<Rightarrow> HouseholdAssets \<Rightarrow> HousingOption list \<Rightarrow> HousingAffordability list" where
  "visibleResults fenv assets [] = []"
| "visibleResults fenv assets (option # options) =
     (if \<not> ho_VisibleOnDashboard option then visibleResults fenv assets options
      else CalculateHousingAffordability fenv option assets # visibleResults fenv assets options)"

definition BuildHouseholdDashboard :: "float_env \<Rightarrow> ID \<Rightarrow> PersonProfile list \<Rightarrow> HousingOption list \<Rightarrow> HouseholdDashboard" where
  "BuildHouseholdDashboard fenv familyID people housingOptions =
     (let income = CalculateHouseholdIncomeSummary people;
          cash = sumCash people;
          assets = \<lparr>as_CashSavingsCents = cash, as_CPFOACents = hi_CurrentCPFOACents income,
                    as_TakeHomeCents = hi_TakeHomeIncomeCents income, as_MonthlyExpensesCents = hi_MonthlyExpensesCents income\<rparr>
      in \<lparr>da_FamilyID = familyID, da_Income = income, da_CashSavingsCents = cash,
          da_HousingAffordability = visibleResults fenv assets housingOptions\<rparr>)"

record dashboard_msg =
  dm_FamilyId :: string
  dm_Income :: household_msg
  dm_CashSavingsCents :: int64
  dm_HousingAffordability :: "affordability_msg list"

type_synonym DashboardServer = "authenticator option"

definition NewDashboardServer :: "authenticator list \<Rightarrow> DashboardServer" where
  "NewDashboardServer auth = (case auth of [] \<Rightarrow> None | a # _ \<Rightarrow> Some a)"

definition dashboardToProto :: "HouseholdDashboard \<Rightarrow> dashboard_msg" where
  "dashboardToProto dashboard = \<lparr>dm_FamilyId = da_FamilyID dashboard, dm_Income = householdIncomeToProto (da_Income dashboard),
     dm_CashSavingsCents = da_CashSavingsCents dashboard,
     dm_HousingAffordability = map housingAffordabilityToProto (da_HousingAffordability dashboard)\<rparr>"

definition srvGetHouseholdDashboard ::
    "env \<Rightarrow> float_env \<Rightarrow> DashboardServer \<Rightarrow> metadata \<Rightarrow> (string \<times> string) option \<Rightarrow> dashboard_msg handler" where
  "srvGetHouseholdDashboard e fenv auth md req = replying
     (case req of None \<Rightarrow> throwP ErrInvalidArgument
      | Some (viewerUserId, familyId) \<Rightarrow>
          bindP (requestActorID auth md viewerUserId) (\<lambda>viewerID.
          bindP (liftE (requireID familyId)) (\<lambda>familyID.
          bindP (repoListPersonProfilesByFamily e familyID viewerID) (\<lambda>people.
          bindP (repoListHousingOptions e familyID viewerID) (\<lambda>housingOptions.
          retP (dashboardToProto (BuildHouseholdDashboard fenv familyID people housingOptions)))))))"

section \<open>Calculators\<close>

definition srvCalculateIncomeBreakdown :: "person_msg option option \<Rightarrow> status + breakdown_msg" where
  "srvCalculateIncomeBreakdown req =
     (case req of None \<Rightarrow> Inl (toStatusError ErrInvalidArgument)
      | Some p \<Rightarrow> (case personFromProto p of Inl err \<Rightarrow> Inl (toStatusError err)
                   | Inr person \<Rightarrow> Inr (incomeBreakdownToProto (CalculateIncomeBreakdown person))))"

fun peopleFromProto :: "person_msg option list \<Rightarrow> go_error + PersonProfile list" where
  "peopleFromProto [] = Inr []"
| "peopleFromProto (p # ps) = bindS (personFromProto p) (\<lambda>person. bindS (peopleFromProto ps) (\<lambda>people. Inr (person # people)))"

definition srvCalculateHouseholdIncomeSummary :: "person_msg option list option \<Rightarrow> status + household_msg" where
  "srvCalculateHouseholdIncomeSummary req =
     (case req of None \<Rightarrow> Inl (toStatusError ErrInvalidArgument)
      | Some ps \<Rightarrow> (case peopleFromProto ps of Inl err \<Rightarrow> Inl (toStatusError err)
                    | Inr people \<Rightarrow> Inr (householdIncomeToProto (CalculateHouseholdIncomeSummary people))))"

definition srvCalculateCPFContribution :: "(int32 \<times> int64 \<times> string) option \<Rightarrow> status + cpf_msg" where
  "srvCalculateCPFContribution req =
     (case req of None \<Rightarrow> Inl (toStatusError ErrInvalidArgument)
      | Some (age, monthlyWageCents, employmentStatus) \<Rightarrow>
          Inr (cpfContributionToProto (CalculateCPFContribution age monthlyWageCents employmentStatus)))"

section \<open>What the dashboard adds up\<close>

lemma sum_wraps: "foldl (\<lambda>cash p. i64 (cash + f p)) (i64 c) ps = i64 (c + sum_list (map f ps))"
  by (induction ps arbitrary: c) (simp_all add: add.assoc)

lemma sumCash_wraps: "sumCash people = i64 (sum_list (map pp_CashSavingsCents people))"
  using sum_wraps [of pp_CashSavingsCents 0 people] by (simp add: sumCash_def in64_def)

lemma visible_ids: "map af_HousingOptionID (visibleResults fenv assets options) = map ho_ID (filter ho_VisibleOnDashboard options)"
  by (induction options) (simp_all add: CalculateHousingAffordability_def Let_def)

lemma sum_list_mset_eq: "mset xs = mset ys \<Longrightarrow> sum_list xs = (sum_list ys :: int)"
  by (metis sum_mset_sum_list)

lemma shown_ids:
  fixes xs ys :: "HousingOption list"
  assumes "mset (map (\<lambda>h. (ho_ID h, ho_VisibleOnDashboard h)) xs) = mset (map (\<lambda>h. (ho_ID h, ho_VisibleOnDashboard h)) ys)"
  shows "mset (map ho_ID (filter ho_VisibleOnDashboard xs)) = mset (map ho_ID (filter ho_VisibleOnDashboard ys))"
proof -
  have "map ho_ID (filter ho_VisibleOnDashboard hs) = map fst (filter snd (map (\<lambda>h. (ho_ID h, ho_VisibleOnDashboard h)) hs))" for hs :: "HousingOption list"
    by (induction hs) simp_all
  then have shown: "mset (map ho_ID (filter ho_VisibleOnDashboard hs))
      = image_mset fst (filter_mset snd (mset (map (\<lambda>h. (ho_ID h, ho_VisibleOnDashboard h)) hs)))" for hs :: "HousingOption list"
    by (simp only: mset_map [symmetric] mset_filter [symmetric])
  show ?thesis unfolding shown by (simp only: assms)
qed

text \<open>The lists behind it are the rows of the family, all of them and in some order.\<close>

lemma read_cash:
  "gives (\<lambda>d people. \<forall>f. uuid_in e familyID = Some f \<longrightarrow>
      mset (map pp_CashSavingsCents people) = mset (map pp_CashSavingsCents (filter (\<lambda>p. pp_FamilyID p = f) (db_person_profiles d))))
     (repoListPersonProfilesByFamily e familyID viewer)" (is "gives ?P _")
proof -
  have st: "gives ?P (sql e (selectPeople e familyID))"
  proof (rule gives_sql)
    fix n d x d'
    assume "selectPeople e familyID n d = Inr (x, d')"
    then obtain f where "uuid_in e familyID = Some f" "d' = d"
      "x = orderBy (\<lambda>p q. pp_CreatedAt q \<le> pp_CreatedAt p) (filter (\<lambda>p. pp_FamilyID p = f) (db_person_profiles d))"
      by (auto simp: selectPeople_def bindS_Inr castUUID_Inr)
    then show "d' = d \<and> ?P d x" by simp
  qed
  have scanned: "gives ?P (bindP (sql e (selectPeople e familyID)) (\<lambda>rows. retP (map g rows)))"
    if "\<And>p. pp_CashSavingsCents (g p) = pp_CashSavingsCents p" for g
    by (rule gives_bind [OF st], rule gives_ret) (simp add: comp_def that)
  have "pp_CashSavingsCents (scanPersonRow p) = pp_CashSavingsCents p" "pp_CashSavingsCents (scanLegacyPersonRow p) = pp_CashSavingsCents p" for p
    by (simp_all add: scanPersonRow_def scanLegacyPersonRow_def)
  then have rd: "gives ?P (catchP (bindP (sql e (selectPeople e familyID)) (\<lambda>rows. retP (map scanPersonRow rows))) (\<lambda>err.
         if isLinkedUserCompatibilityError e err
         then mapErr normalizeError (bindP (sql e (selectPeople e familyID)) (\<lambda>rows. retP (map scanLegacyPersonRow rows)))
         else throwP (normalizeError err)))"
    by (intro gives_catch gives_if gives_mapErr gives_throw scanned [of scanPersonRow] scanned [of scanLegacyPersonRow])
  show ?thesis unfolding repoListPersonProfilesByFamily_def
    by (rule gives_bind [OF gives_access], intro gives_if gives_throw) (rule gives_mono [OF rd], simp)
qed

lemma attach_shown:
  "gives (\<lambda>d out. map (\<lambda>h. (ho_ID h, ho_VisibleOnDashboard h)) out = map (\<lambda>h. (ho_ID h, ho_VisibleOnDashboard h)) options)
     (attachHousingEvaluations e options familyID viewer)"
proof -
  have "gives (\<lambda>d x. True) (repoListHousingCriteria e familyID viewer)" "gives (\<lambda>d x. True) (repoListHousingAnswers e familyID viewer)"
    by (rule gives_mono [OF read_criteria] gives_mono [OF read_answers], simp)+
  then show ?thesis unfolding attachHousingEvaluations_def by (intro gives_if gives_ret gives_bind) (simp_all add: comp_def)
qed

lemma read_shown:
  "gives (\<lambda>d options. \<forall>f. uuid_in e familyID = Some f \<longrightarrow> mset (map (\<lambda>h. (ho_ID h, ho_VisibleOnDashboard h)) options)
        = mset (map (\<lambda>h. (ho_ID h, ho_VisibleOnDashboard h)) (filter (\<lambda>h. ho_FamilyID h = f) (db_housing_options d))))
     (repoListHousingOptions e familyID viewer)" (is "gives ?P _")
proof -
  let ?rd = "query e (\<lambda>n d. bindS (castUUID e familyID) (\<lambda>f.
            Inr (map scanHousingRow (orderBy (\<lambda>a b. ho_CreatedAt b \<le> ho_CreatedAt a)
                   (filter (\<lambda>r. ho_FamilyID r = f) (db_housing_options d))), d)))"
  have st: "gives ?P ?rd" by (rule gives_query) (auto simp: bindS_Inr castUUID_Inr scanHousingRow_def multiset.map_comp comp_def)
  have "gives ?P (bindP ?rd (\<lambda>options. attachHousingEvaluations e options familyID viewer))"
    by (rule gives_bind [OF st], rule gives_mono [OF attach_shown]) simp
  then show ?thesis unfolding repoListHousingOptions_def
    by (intro gives_bind [OF gives_access] gives_if gives_throw) (erule gives_mono, simp)
qed

lemma requireID_run: "liftE (requireID s) w = (Inr i, w') \<Longrightarrow> i = trimSpace s \<and> w' = w"
  by (auto simp: requireID_def Let_def split: if_splits)

section \<open>Properties\<close>

text \<open>
  Property C36: the dashboard shows a member exactly the household. When it answers, the token of the
  call belongs to a live session of an enabled user who is a member of the family, no table has
  changed, the cash is the sum over all people of the family, wrapped to 64 bits, and the
  affordability list has one entry for each option of the family that is visible and none for any
  other.
\<close>

theorem household_dashboard_exact:
  assumes "srvGetHouseholdDashboard e fenv (NewDashboardServer [srvAuthenticate e]) md (Some (viewerUserId, familyId)) w = (Inr r, w')"
  shows "\<exists>u f. u \<in> set (db_users (wo_db w)) \<and> us_DisabledAt u = None \<and> holdsSession e md w u
    \<and> uuid_in e (trimSpace familyId) = Some f \<and> mayRead e (wo_db w) f (us_ID u) \<and> wo_db w' = wo_db w
    \<and> dm_CashSavingsCents r = i64 (sum_list (map pp_CashSavingsCents (filter (\<lambda>p. pp_FamilyID p = f) (db_person_profiles (wo_db w)))))
    \<and> mset (map am_HousingOptionId (dm_HousingAffordability r))
        = mset (map ho_ID (filter ho_VisibleOnDashboard (filter (\<lambda>h. ho_FamilyID h = f) (db_housing_options (wo_db w)))))"
proof -
  let ?f = "trimSpace familyId"
  from assms obtain i v people v1 options
    where a: "authenticateUserID (Some (srvAuthenticate e)) md w = (Inr i, v)"
      and p: "repoListPersonProfilesByFamily e ?f i v = (Inr people, v1)" and o: "repoListHousingOptions e ?f i v1 = (Inr options, w')"
      and r: "r = dashboardToProto (BuildHouseholdDashboard fenv ?f people options)"
    unfolding srvGetHouseholdDashboard_def NewDashboardServer_def list.case option.case prod.case mapErr_Inr requestActorID_def
    by (elim bindP_InrE) (drule requireID_run, simp)
  from sessions.user_id_genuine [OF a] obtain u where u: "u \<in> set (db_users (wo_db w))" "us_ID u = i" "us_DisabledAt u = None" "holdsSession e md w u"
    and v: "wo_db v = wo_db w" by blast
  have v1: "wo_db v1 = wo_db w" using gives_kept [OF read_people p] v by simp
  have w': "wo_db w' = wo_db w" using gives_kept [OF read_options o] v1 by simp
  from givesD [OF read_people p] obtain f where f: "uuid_in e ?f = Some f" "mayRead e (wo_db w) f i"
    unfolding familyRead_def v by blast
  have cash: "sum_list (map pp_CashSavingsCents people) = sum_list (map pp_CashSavingsCents (filter (\<lambda>p. pp_FamilyID p = f) (db_person_profiles (wo_db w))))"
    using givesD [OF read_cash p] f(1) by (intro sum_list_mset_eq) (simp add: v)
  have ids: "mset (map ho_ID (filter ho_VisibleOnDashboard options))
      = mset (map ho_ID (filter ho_VisibleOnDashboard (filter (\<lambda>h. ho_FamilyID h = f) (db_housing_options (wo_db w)))))"
    using givesD [OF read_shown o] f(1) by (intro shown_ids) (simp add: v1)
  have sum: "dm_CashSavingsCents r = sumCash people" by (simp add: r dashboardToProto_def BuildHouseholdDashboard_def Let_def)
  obtain assets where "dm_HousingAffordability r = map housingAffordabilityToProto (visibleResults fenv assets options)"
    by (simp add: r dashboardToProto_def BuildHouseholdDashboard_def Let_def)
  then have "map am_HousingOptionId (dm_HousingAffordability r) = map ho_ID (filter ho_VisibleOnDashboard options)"
    using visible_ids [of fenv assets options] by (simp add: housingAffordabilityToProto_def comp_def)
  then show ?thesis using u f w' sum sumCash_wraps cash ids by (intro exI [of _ u] exI [of _ f]) simp
qed

definition dash_world :: world where
  "dash_world = duty_world\<lparr>wo_db := (wo_db duty_world)\<lparr>db_families := [example_family],
     db_family_members := [\<lparr>fm_FamilyID = ''f1'', fm_UserID = ''u1'', fm_Role = ''viewer'', fm_JoinedAt = 0\<rparr>],
     db_person_profiles := [example_person, example_person\<lparr>pp_FamilyID := ''f2''\<rparr>],
     db_housing_options := [Repo_Checklist.example_option, Repo_Checklist.example_option\<lparr>ho_ID := ''h2'', ho_VisibleOnDashboard := False\<rparr>]\<rparr>\<rparr>"

definition example_floats :: float_env where
  "example_floats = \<lparr>fe_pow = (\<lambda>_ _. NaN), fe_conv = (\<lambda>_. 0)\<rparr>"

theorem household_dashboard_exact_witness:
  "\<exists>r w'. srvGetHouseholdDashboard example_env example_floats (NewDashboardServer [srvAuthenticate example_env]) (tokenMetadata ''tok'')
       (Some ([], '' f1 '')) dash_world = (Inr r, w') \<and> mset (map am_HousingOptionId (dm_HousingAffordability r)) = {#''h1''#}"
proof -
  let ?run = "srvGetHouseholdDashboard example_env example_floats (NewDashboardServer [srvAuthenticate example_env]) (tokenMetadata ''tok'')
       (Some ([], '' f1 '')) dash_world"
  have "\<not> isl (fst ?run) \<and> uuid_in example_env (trimSpace '' f1 '') = Some ''f1''" by code_simp
  then obtain r w' where r: "?run = (Inr r, w')" and f: "uuid_in example_env (trimSpace '' f1 '') = Some ''f1''"
    by (metis prod.collapse sum.collapse(2))
  have "map ho_ID (filter ho_VisibleOnDashboard (filter (\<lambda>h. ho_FamilyID h = ''f1'') (db_housing_options (wo_db dash_world)))) = [''h1'']"
    by code_simp
  moreover have "mset (map am_HousingOptionId (dm_HousingAffordability r))
      = mset (map ho_ID (filter ho_VisibleOnDashboard (filter (\<lambda>h. ho_FamilyID h = ''f1'') (db_housing_options (wo_db dash_world)))))"
    using household_dashboard_exact [OF r] unfolding f option.inject by blast
  ultimately have "mset (map am_HousingOptionId (dm_HousingAffordability r)) = {#''h1''#}" by (simp only: mset.simps)
  with r show ?thesis by (intro exI conjI)
qed

end
