(* ===== verification/Server_Isolation.thy ===== *)
theory Server_Isolation
  imports Family_Isolation Server_Family Server_Housing Service_Dashboard
begin

text \<open>
  The isolation of families at the edge of the API: the handlers that change a family's data,
  composed with the session lookup, the validation and the repositories. \<open>guarded e md m\<close> says that
  a call with metadata \<open>md\<close> changes only families whose writers hold the session of \<open>md\<close>; its
  rules follow the shape of the handlers.
\<close>

section \<open>Guarded calls\<close>

text \<open>No enabled user who holds the session of the call may write to the family.\<close>

definition foreignTo :: "env \<Rightarrow> metadata \<Rightarrow> world \<Rightarrow> ID \<Rightarrow> bool" where
  "foreignTo e md w f \<longleftrightarrow> (\<forall>u\<in>set (db_users (wo_db w)). us_DisabledAt u = None \<and> holdsSession e md w u \<longrightarrow> \<not> mayWrite e (wo_db w) f (us_ID u))"

definition keptBy :: "env \<Rightarrow> metadata \<Rightarrow> world \<Rightarrow> world \<Rightarrow> bool" where
  "keptBy e md w w' \<longleftrightarrow> (family_ok e (wo_db w) \<longrightarrow> family_ok e (wo_db w')
     \<and> (\<forall>f. foreignTo e md w f \<longrightarrow> familyRows (wo_db w') f = familyRows (wo_db w) f))"

definition guarded :: "env \<Rightarrow> metadata \<Rightarrow> ('e, 'a) io \<Rightarrow> bool" where
  "guarded e md m \<longleftrightarrow> (\<forall>w. keptBy e md w (snd (m w)))"

named_theorems guard_rules \<open>rules that derive that a handler changes only the caller's families\<close>

lemma guarded_kept: "db_kept m \<Longrightarrow> guarded e md m"
  by (simp add: guarded_def keptBy_def preserves_def)

lemma guarded_throw [guard_rules]: "guarded e md (throwP err)"
  by (rule guarded_kept) (intro preserve_rules frame_rel_eq)

lemma guarded_mapErr [guard_rules]: "guarded e md m \<Longrightarrow> guarded e md (mapErr g m)"
  by (simp add: guarded_def)

lemma guarded_lift [guard_rules]: "(\<And>x. r = Inr x \<Longrightarrow> guarded e md (k x)) \<Longrightarrow> guarded e md (bindP (liftE r) k)"
  by (cases r) (simp_all add: guarded_def bindP_def liftE_def keptBy_def)

lemma guarded_check [guard_rules]: "(\<And>x. guarded e md (k x)) \<Longrightarrow> guarded e md (bindP (checkE r) k)"
  by (cases r) (simp_all add: checkE_def guarded_throw)

lemma guarded_if [guard_rules]: "(b \<Longrightarrow> guarded e md m) \<Longrightarrow> (\<not> b \<Longrightarrow> guarded e md n) \<Longrightarrow> guarded e md (if b then m else n)"
  by simp

lemma guarded_option [guard_rules]:
  "(x = None \<Longrightarrow> guarded e md m) \<Longrightarrow> (\<And>y. x = Some y \<Longrightarrow> guarded e md (f y)) \<Longrightarrow> guarded e md (case x of None \<Rightarrow> m | Some y \<Rightarrow> f y)"
  by (cases x) simp_all

lemma guarded_prod [guard_rules]: "(\<And>a b. guarded e md (f a b)) \<Longrightarrow> guarded e md (case x of (a, b) \<Rightarrow> f a b)"
  by (cases x) simp

lemma confined_keptBy:
  assumes "confined e (us_ID u) (wo_db w) (wo_db w')" and "u \<in> set (db_users (wo_db w))" "us_DisabledAt u = None" "holdsSession e md w u"
  shows "keptBy e md w w'"
  using assms unfolding keptBy_def confined_def foreignTo_def by blast

text \<open>Behind the session lookup, a routine that stays within what the actor may write.\<close>

lemma guarded_actor:
  assumes "db_kept m" and "\<And>w i w'. m w = (Inr i, w') \<Longrightarrow> authenticateUserID (Some (srvAuthenticate e)) md w = (Inr i, w')"
    and "\<And>actor. preserves (\<lambda>w w'. confined e actor (wo_db w) (wo_db w')) (k actor)"
  shows "guarded e md (bindP m k)"
  unfolding guarded_def
proof
  fix w
  obtain r v where r: "m w = (r, v)" by fastforce
  have v: "wo_db v = wo_db w" using preservesD [OF assms(1) r] .
  show "keptBy e md w (snd (bindP m k w))"
  proof (cases r)
    case (Inl err)
    then show ?thesis by (simp add: bindP_def r keptBy_def v)
  next
    case (Inr i)
    from sessions.user_id_genuine [OF assms(2) [OF r [unfolded Inr]]] obtain u
      where u: "u \<in> set (db_users (wo_db w))" "us_ID u = i" "us_DisabledAt u = None" "holdsSession e md w u" by blast
    have "confined e i (wo_db v) (wo_db (snd (k i v)))" using assms(3) by (simp add: preserves_def)
    with u v show ?thesis by (intro confined_keptBy) (simp_all add: bindP_def r Inr)
  qed
qed

lemma authenticated_kept: "db_kept (authenticateUserID (Some (srvAuthenticate e)) md)"
  unfolding authenticateUserID_def option.case by (intro preserve_rules srvAuthenticate_kept frame_rel_eq)

lemma guarded_auth [guard_rules]:
  "(\<And>actor. preserves (\<lambda>w w'. confined e actor (wo_db w) (wo_db w')) (k actor)) \<Longrightarrow>
   guarded e md (bindP (authenticateUserID (Some (srvAuthenticate e)) md) k)"
  by (rule guarded_actor) (simp_all add: authenticated_kept)

lemma guarded_request [guard_rules]:
  assumes "auth = Some (srvAuthenticate e)" and "\<And>actor. preserves (\<lambda>w w'. confined e actor (wo_db w) (wo_db w')) (k actor)"
  shows "guarded e md (bindP (requestActorID auth md fallback) k)" and "guarded e md (bindP (optionalAuthenticatedActorID auth md) k)"
  using guarded_auth [OF assms(2), of md] by (simp_all add: assms(1) requestActorID_def optionalAuthenticatedActorID_def)

lemma checklistActor_kept: "hs_auth s = Some (srvAuthenticate e) \<Longrightarrow> db_kept (checklistActor s md)"
  unfolding checklistActor_def by (simp, intro preserve_rules frame_rel_eq authenticated_kept)

lemma checklistActor_genuine:
  "hs_auth s = Some (srvAuthenticate e) \<Longrightarrow> checklistActor s md w = (Inr i, w') \<Longrightarrow>
   authenticateUserID (Some (srvAuthenticate e)) md w = (Inr i, w')"
  unfolding checklistActor_def by (auto elim!: bindP_InrE split: if_splits)

lemma guarded_checklist [guard_rules]:
  assumes "hs_auth s = Some (srvAuthenticate e)" and "\<And>actor. preserves (\<lambda>w w'. confined e actor (wo_db w) (wo_db w')) (k actor)"
  shows "guarded e md (bindP (checklistActor s md) k)"
  by (rule guarded_actor [OF checklistActor_kept [OF assms(1)] checklistActor_genuine [OF assms(1)] assms(2)])

section \<open>Repositories\<close>

abbreviation inside :: "env \<Rightarrow> ID \<Rightarrow> ('e, 'a) io \<Rightarrow> bool" where
  "inside e actor m \<equiv> preserves (\<lambda>w w'. confined e actor (wo_db w) (wo_db w')) m"

lemma inside_frame: "frame_rel (\<lambda>w w'. confined e actor (wo_db w) (wo_db w'))"
  by (rule frame_rel_db) (rule confined_frame)

lemma inside_kept: "db_kept m \<Longrightarrow> inside e actor m"
  by (simp add: preserves_def)

lemma gives_db_kept: "gives P m \<Longrightarrow> db_kept m"
  by (simp add: gives_def preserves_def)

lemma inside_bind: "inside e actor m \<Longrightarrow> (\<And>x. inside e actor (k x)) \<Longrightarrow> inside e actor (bindP m k)"
  by (rule preserves_bind [OF inside_frame])

lemma inside_check: "(\<And>x. inside e actor (k x)) \<Longrightarrow> inside e actor (bindP (checkE r) k)"
  by (rule inside_bind) (auto simp: checkE_def split: option.split intro!: preserves_ret preserves_throw inside_frame)

lemma items_inside:
  "inside e actor (repoSaveHousingCriterion e c actor)" "inside e actor (repoDeleteHousingCriterion e f i actor)"
  "inside e actor (repoReorderHousingCriteria e f ids actor)"
  by (simp_all add: preserves_def saveItem_confined deleteItem_confined reorderItems_confined)

lemmas repo_inside = createPerson_stays updatePerson_stays deletePerson_stays createOption_stays deleteOption_stays notes_stays
  visibility_stays createGroup_stays updateGroup_stays deleteGroup_stays assignGroup_stays groupVisibility_stays saveAnswer_stays items_inside

lemma grant_kept: "db_kept (applyGrantEstimate e s option viewer)"
  unfolding applyGrantEstimate_def by (intro preserve_rules frame_rel_eq gives_db_kept [OF read_people])

lemma merge_kept: "db_kept (mergeExisting e req option actor)"
  unfolding mergeExisting_def Let_def by (intro preserve_rules frame_rel_eq gives_db_kept [OF read_option])

lemma list_criteria_kept: "hs_auth s = Some (srvAuthenticate e) \<Longrightarrow> db_kept (srvListHousingCriteria e s md req)"
  unfolding srvListHousingCriteria_def checklistActor_def
  by (simp, intro preserve_rules frame_rel_eq authenticated_kept gives_db_kept [OF read_criteria])

lemmas inside_rules = inside_bind inside_check repo_inside preserves_ret [OF inside_frame] preserves_throw [OF inside_frame]
  preserves_lift [OF inside_frame] preserves_mapErr preserves_if preserves_case_option

section \<open>Handlers\<close>

text \<open>\<open>main.go\<close> builds the servers with the session lookup and both repositories.\<close>

definition personServer :: "env \<Rightarrow> PersonServer" where
  "personServer e = NewPersonServer [srvAuthenticate e]"

definition housingServer :: "env \<Rightarrow> HousingServer" where
  "housingServer e = NewHousingServer True True [srvAuthenticate e]"

lemma server_auth [simp]: "personServer e = Some (srvAuthenticate e)" "hs_auth (housingServer e) = Some (srvAuthenticate e)"
  by (simp_all add: personServer_def NewPersonServer_def housingServer_def NewHousingServer_def)

lemma person_handlers_guarded:
  "guarded e md (srvCreatePersonProfile e (personServer e) md p)" "guarded e md (srvUpdatePersonProfile e (personServer e) md p)"
  "guarded e md (srvDeletePersonProfile e (personServer e) md q)"
  unfolding srvCreatePersonProfile_def srvUpdatePersonProfile_def srvDeletePersonProfile_def
  by (intro guard_rules inside_rules server_auth)+

lemma group_handlers_guarded:
  "guarded e md (srvCreateHousingGroup e (housingServer e) md g)" "guarded e md (srvUpdateHousingGroup e (housingServer e) md g)"
  "guarded e md (srvDeleteHousingGroup e (housingServer e) md q)" "guarded e md (srvAssignHousingOptionGroup e (housingServer e) md a)"
  "guarded e md (srvBulkUpdateHousingGroupVisibility e (housingServer e) md v)"
  unfolding srvCreateHousingGroup_def srvUpdateHousingGroup_def srvDeleteHousingGroup_def srvAssignHousingOptionGroup_def
    srvBulkUpdateHousingGroupVisibility_def
  by (intro guard_rules inside_rules server_auth)+

lemma option_handlers_guarded:
  "guarded e md (srvCreateHousingOption e (housingServer e) md h)" "guarded e md (srvDeleteHousingOption e (housingServer e) md q)"
  "guarded e md (srvUpdateHousingOptionVisibility e (housingServer e) md v)"
  unfolding srvCreateHousingOption_def srvDeleteHousingOption_def srvUpdateHousingOptionVisibility_def
  by (intro guard_rules inside_rules server_auth inside_kept [OF grant_kept])+

lemma notes_handler_guarded: "guarded e md (srvUpdateHousingNotes e (housingServer e) md q)"
  unfolding srvUpdateHousingNotes_def server_auth by (intro guard_rules inside_rules)

lemma checklist_handlers_guarded:
  "guarded e md (srvSaveHousingCriterion e (housingServer e) md c)" "guarded e md (srvDeleteHousingCriterion e (housingServer e) md q)"
  "guarded e md (srvReorderHousingCriteria e (housingServer e) md o')" "guarded e md (srvSaveHousingAnswer e (housingServer e) md a)"
  unfolding srvSaveHousingCriterion_def srvDeleteHousingCriterion_def srvReorderHousingCriteria_def srvSaveHousingAnswer_def Let_def
  by (intro guard_rules inside_rules server_auth inside_kept [OF list_criteria_kept])+

text \<open>The update of an option names its family in the request; the merge and the grant keep the name.\<close>

lemma merge_names:
  assumes "mergeExisting e req option actor w = (Inr x, w')"
  shows "ho_ID x = ho_ID option \<and> ho_FamilyID x = ho_FamilyID option"
  using assms unfolding mergeExisting_def Let_def by (auto split: if_splits elim!: bindP_InrE)

lemma grant_names:
  assumes "applyGrantEstimate e s option actor w = (Inr x, w')"
  shows "ho_ID x = ho_ID option \<and> ho_FamilyID x = ho_FamilyID option"
  using assms unfolding applyGrantEstimate_def by (auto split: if_splits elim!: bindP_InrE)

lemma ownFamily_names: "ho_ID x = ho_ID y \<Longrightarrow> ho_FamilyID x = ho_FamilyID y \<Longrightarrow> ownFamily e d x = ownFamily e d y"
  by (simp add: ownFamily_def)

lemma update_stays:
  "stays (\<lambda>d d'. ownFamily e d option \<longrightarrow> confined e actor d d')
     (bindP (mergeExisting e req option actor) (\<lambda>option. bindP (applyGrantEstimate e s option actor) (\<lambda>option.
      bindP (repoUpdateHousingOption e option actor) (\<lambda>updated. retP (housingToProto updated)))))"
proof (rule stays_checked [OF merge_kept, where Q = "\<lambda>x d. ho_ID x = ho_ID option \<and> ho_FamilyID x = ho_FamilyID option"])
  fix x
  show "stays (\<lambda>d d'. ho_ID x = ho_ID option \<and> ho_FamilyID x = ho_FamilyID option \<longrightarrow> ownFamily e d option \<longrightarrow> confined e actor d d')
     (bindP (applyGrantEstimate e s x actor) (\<lambda>option. bindP (repoUpdateHousingOption e option actor) (\<lambda>updated. retP (housingToProto updated))))"
  proof (rule stays_checked [OF grant_kept, where Q = "\<lambda>y d. ho_ID y = ho_ID x \<and> ho_FamilyID y = ho_FamilyID x"])
    fix y
    have "stays (\<lambda>d d'. ownFamily e d y \<longrightarrow> confined e actor d d') (bindP (repoUpdateHousingOption e y actor) (\<lambda>updated. retP (housingToProto updated)))"
      by (rule stays_after [OF updateOption_stays]) (simp add: retP_def)
    then show "stays (\<lambda>d d'. ho_ID y = ho_ID x \<and> ho_FamilyID y = ho_FamilyID x \<longrightarrow> ho_ID x = ho_ID option \<and> ho_FamilyID x = ho_FamilyID option \<longrightarrow>
        ownFamily e d option \<longrightarrow> confined e actor d d') (bindP (repoUpdateHousingOption e y actor) (\<lambda>updated. retP (housingToProto updated)))"
      unfolding preserves_def by (metis ownFamily_names)
  qed (simp_all add: grant_names)
qed (simp_all add: merge_names)

lemma update_keptBy:
  assumes "\<And>h. housingFromProto req = Inr h \<Longrightarrow> ownFamily e (wo_db w) h"
  shows "keptBy e md w (snd (srvUpdateHousingOption e (housingServer e) md req w))"
proof (cases "housingFromProto req")
  case (Inl err)
  then show ?thesis by (simp add: srvUpdateHousingOption_def bindP_def liftE_def keptBy_def)
next
  case (Inr h)
  let ?k = "\<lambda>actorID. bindP (mergeExisting e (the req) h actorID) (\<lambda>option.
      bindP (applyGrantEstimate e (housingServer e) option actorID) (\<lambda>option.
      bindP (repoUpdateHousingOption e option actorID) (\<lambda>updated. retP (housingToProto updated))))"
  obtain r v where r: "authenticateUserID (Some (srvAuthenticate e)) md w = (r, v)" by fastforce
  have v: "wo_db v = wo_db w" using preservesD [OF authenticated_kept r] .
  have "keptBy e md w (snd (bindP (authenticateUserID (Some (srvAuthenticate e)) md) ?k w))"
  proof (cases r)
    case (Inl err)
    then show ?thesis by (simp add: bindP_def r keptBy_def v)
  next
    case i: (Inr i)
    from sessions.user_id_genuine [OF r [unfolded i]] obtain u
      where u: "u \<in> set (db_users (wo_db w))" "us_ID u = i" "us_DisabledAt u = None" "holdsSession e md w u" by blast
    have "confined e i (wo_db v) (wo_db (snd (?k i v)))"
      using stays_snd [OF update_stays [of e h i "the req" "housingServer e"], of v] assms [OF Inr] v by simp
    with u v show ?thesis by (intro confined_keptBy) (simp_all add: bindP_def r i)
  qed
  then show ?thesis
    unfolding srvUpdateHousingOption_def mapErr_snd Inr server_auth optionalAuthenticatedActorID_def option.case
    by (cases "validateHousingOption h") (simp_all add: bindP_def liftE_def checkE_def throwP_def retP_def keptBy_def)
qed

section \<open>Requests\<close>

datatype apiRequest =
    ApiCreatePerson "person_msg option" | ApiUpdatePerson "person_msg option" | ApiDeletePerson "(string \<times> string) option"
  | ApiCreateOption "option_msg option" | ApiUpdateOption "option_msg option" | ApiDeleteOption "(string \<times> string) option"
  | ApiNotes "(string \<times> string) option" | ApiVisibility "(string \<times> string \<times> bool) option"
  | ApiCreateGroup "group_msg option" | ApiUpdateGroup "group_msg option" | ApiDeleteGroup "(string \<times> string) option"
  | ApiAssignGroup "(string \<times> string \<times> string) option" | ApiGroupVisibility "(string \<times> string \<times> bool) option"
  | ApiSaveCriterion "criterion_msg option" | ApiDeleteCriterion "(string \<times> string) option"
  | ApiReorderCriteria "(string \<times> string list) option" | ApiSaveAnswer "answer_msg option"

fun runApi :: "env \<Rightarrow> metadata \<Rightarrow> apiRequest \<Rightarrow> world \<Rightarrow> world" where
  "runApi e md (ApiCreatePerson p) w = snd (srvCreatePersonProfile e (personServer e) md p w)"
| "runApi e md (ApiUpdatePerson p) w = snd (srvUpdatePersonProfile e (personServer e) md p w)"
| "runApi e md (ApiDeletePerson q) w = snd (srvDeletePersonProfile e (personServer e) md q w)"
| "runApi e md (ApiCreateOption h) w = snd (srvCreateHousingOption e (housingServer e) md h w)"
| "runApi e md (ApiUpdateOption h) w = snd (srvUpdateHousingOption e (housingServer e) md h w)"
| "runApi e md (ApiDeleteOption q) w = snd (srvDeleteHousingOption e (housingServer e) md q w)"
| "runApi e md (ApiNotes q) w = snd (srvUpdateHousingNotes e (housingServer e) md q w)"
| "runApi e md (ApiVisibility v) w = snd (srvUpdateHousingOptionVisibility e (housingServer e) md v w)"
| "runApi e md (ApiCreateGroup g) w = snd (srvCreateHousingGroup e (housingServer e) md g w)"
| "runApi e md (ApiUpdateGroup g) w = snd (srvUpdateHousingGroup e (housingServer e) md g w)"
| "runApi e md (ApiDeleteGroup q) w = snd (srvDeleteHousingGroup e (housingServer e) md q w)"
| "runApi e md (ApiAssignGroup a) w = snd (srvAssignHousingOptionGroup e (housingServer e) md a w)"
| "runApi e md (ApiGroupVisibility v) w = snd (srvBulkUpdateHousingGroupVisibility e (housingServer e) md v w)"
| "runApi e md (ApiSaveCriterion c) w = snd (srvSaveHousingCriterion e (housingServer e) md c w)"
| "runApi e md (ApiDeleteCriterion q) w = snd (srvDeleteHousingCriterion e (housingServer e) md q w)"
| "runApi e md (ApiReorderCriteria q) w = snd (srvReorderHousingCriteria e (housingServer e) md q w)"
| "runApi e md (ApiSaveAnswer a) w = snd (srvSaveHousingAnswer e (housingServer e) md a w)"

text \<open>An update of an option names the option's own family.\<close>

definition fitsApi :: "env \<Rightarrow> world \<Rightarrow> apiRequest \<Rightarrow> bool" where
  "fitsApi e w r = (case r of ApiUpdateOption h \<Rightarrow> (case housingFromProto h of Inr opt \<Rightarrow> ownFamily e (wo_db w) opt | Inl _ \<Rightarrow> True) | _ \<Rightarrow> True)"

lemmas handlers_guarded = person_handlers_guarded group_handlers_guarded option_handlers_guarded notes_handler_guarded checklist_handlers_guarded

lemma runApi_keptBy:
  assumes "fitsApi e w r"
  shows "keptBy e md w (runApi e md r w)"
proof (cases r)
  case (ApiUpdateOption h)
  with assms have "ownFamily e (wo_db w) opt" if "housingFromProto h = Inr opt" for opt using that by (simp add: fitsApi_def)
  from update_keptBy [OF this] ApiUpdateOption show ?thesis by simp
qed (use handlers_guarded in \<open>simp_all add: guarded_def\<close>)

section \<open>Properties\<close>


definition api_world :: world where
  "api_world = two_families\<lparr>wo_db := (wo_db two_families)\<lparr>db_users := [example_admin\<lparr>us_ID := ''u2''\<rparr>],
     db_sessions := [duty_session\<lparr>se_UserID := ''u2''\<rparr>]\<rparr>\<rparr>"


end
