(* ===== verification/Server_Rows.thy ===== *)
theory Server_Rows
  imports Server_Isolation
begin

text \<open>
  What the rows written through the API look like. The validation of the handlers, the grant they
  fill in and the constraints of the tables together keep every stored person profile and housing
  option well-formed; every routine on the way keeps that invariant, and the lemmas say so one
  routine at a time.
\<close>

section \<open>Well-formed rows\<close>

definition maxGrantCents :: int64 where
  "maxGrantCents = 12000000"

text \<open>A full-time employee has no future income or dates, a student a graduation date only, a
  national serviceman an ORD date only.\<close>

definition profile_ok :: "env \<Rightarrow> PersonProfile \<Rightarrow> bool" where
  "profile_ok e p \<longleftrightarrow> \<not> blank (pp_Name p)
     \<and> trimSpace (toLower (uni_lower e) (pp_RelationshipLabel p)) \<in> set relationshipLabels
     \<and> ((pp_EmploymentStatus p = EmploymentFullTime \<and> pp_ExpectedFutureIncomeCents p = 0 \<and> pp_ExpectedIncomeStartDate p = None
           \<and> pp_GraduationDate p = None \<and> pp_ORDDate p = None)
        \<or> (pp_EmploymentStatus p = EmploymentStudent \<and> pp_GraduationDate p \<noteq> None \<and> pp_ORDDate p = None)
        \<or> (pp_EmploymentStatus p = EmploymentFullTimeNSF \<and> pp_GraduationDate p = None \<and> pp_ORDDate p \<noteq> None))"

definition profile_wf :: "env \<Rightarrow> PersonProfile \<Rightarrow> bool" where
  "profile_wf e p \<longleftrightarrow> profile_ok e p \<and> personCheck p"

definition option_ok :: "HousingOption \<Rightarrow> bool" where
  "option_ok h \<longleftrightarrow> (IsNonHDBHousingType (ho_Type h) \<longrightarrow> ho_LoanType h \<noteq> LoanTypeHDB \<and> ho_GrantAmountCents h = 0)
     \<and> (ho_LoanType h = LoanTypeCash \<or> ho_LoanTenureMonths h \<le> MaxLoanTenureMonthsForHousingType (ho_Type h))
     \<and> ho_GrantAmountCents h \<le> maxGrantCents"

definition option_wf :: "HousingOption \<Rightarrow> bool" where
  "option_wf h \<longleftrightarrow> option_ok h \<and> housingCheck h"

definition rows_wf :: "env \<Rightarrow> database \<Rightarrow> bool" where
  "rows_wf e d \<longleftrightarrow> (\<forall>p\<in>set (db_person_profiles d). profile_wf e p) \<and> (\<forall>h\<in>set (db_housing_options d). option_wf h)"

section \<open>Statements\<close>

lemma castDate_None: "castDate (optionalDateString d) = Inr d' \<Longrightarrow> d' = None \<longleftrightarrow> d = None"
  by (cases d; cases d') (auto simp: castDate_def optionalDateString_def split: option.splits if_splits)

lemma castProfile_ok:
  assumes "castProfile p = Inr p'" and "profile_ok e p"
  shows "profile_ok e p'"
proof -
  from assms(1) obtain age s g ord where d: "castDate (optionalDateString (pp_ExpectedIncomeStartDate p)) = Inr s"
    "castDate (optionalDateString (pp_GraduationDate p)) = Inr g" "castDate (optionalDateString (pp_ORDDate p)) = Inr ord"
    and p': "p' = p\<lparr>pp_Age := age, pp_ExpectedIncomeStartDate := s, pp_GraduationDate := g, pp_ORDDate := ord\<rparr>"
    unfolding castProfile_def bindS_Inr by blast
  from assms(2) d [THEN castDate_None] show ?thesis by (simp add: p' profile_ok_def)
qed

lemma personConstraints_check: "personConstraints d others p = Inr u \<Longrightarrow> personCheck p"
  by (auto simp: personConstraints_def bindS_Inr)

lemma insertPerson_rows:
  assumes "insertPerson e history linked profile n d = Inr (x, d')" and "profile_ok e profile" and "rows_wf e d"
  shows "rows_wf e d'"
proof -
  from assms(1) obtain f l p row where p: "castProfile profile = Inr p" "personConstraints d (db_person_profiles d) row = Inr ()"
    and row: "row = p\<lparr>pp_ID := uuid_at e n, pp_FamilyID := f, pp_LinkedUserID := l, pp_CreatedAt := dbNow e n, pp_UpdatedAt := dbNow e n\<rparr>"
    and d': "db_person_profiles d' = db_person_profiles d @ [row]" "db_housing_options d' = db_housing_options d"
    by (auto simp: insertPerson_def Let_def bindS_Inr)
  have "profile_ok e row" using castProfile_ok [OF p(1) assms(2)] by (simp add: row profile_ok_def)
  with personConstraints_check [OF p(2)] assms(3) d' show ?thesis by (simp add: rows_wf_def profile_wf_def)
qed

lemma updatePerson_row:
  assumes "updatePerson e history linked profile actor n d = Inr (row, d')" and "profile_ok e profile"
  shows "profile_wf e row"
proof -
  from assms(1) show ?thesis unfolding updatePerson_def Let_def bindS_Inr
  proof (elim exE conjE, goal_cases)
    case (1 i u l p old x)
    from 1(7) have row: "row = p\<lparr>pp_ID := pp_ID old, pp_FamilyID := pp_FamilyID old, pp_LinkedUserID := (if l = [] then pp_LinkedUserID old else l),
        pp_CreatedAt := pp_CreatedAt old, pp_UpdatedAt := dbNow e n\<rparr>" by simp
    have "personCheck row" unfolding row using 1(6) by (rule personConstraints_check)
    moreover have "profile_ok e row" using castProfile_ok [OF 1(4) assms(2)] by (simp add: row profile_ok_def)
    ultimately show ?thesis by (simp add: profile_wf_def)
  qed
qed

lemma updatePerson_rows:
  assumes "updatePerson e history linked profile actor n d = Inr (row, d')" and "profile_ok e profile" and "rows_wf e d"
  shows "rows_wf e d'"
proof -
  from assms(1) obtain i u where d': "d' = d\<lparr>db_person_profiles := updateRows (\<lambda>q. pp_ID q = i \<and> isWriter d (pp_FamilyID q) u) (\<lambda>q. row) (db_person_profiles d),
            db_person_income_history := db_person_income_history d @ (if history then [historyOf row] else [])\<rparr>"
    by (rule updatePerson_Inr)
  with updatePerson_row [OF assms(1,2)] assms(3) show ?thesis by (auto simp: rows_wf_def dest!: in_updateRows)
qed

lemma castHousing_ok: "castHousing e h = Inr h' \<Longrightarrow> option_ok h \<Longrightarrow> option_ok h'"
  by (auto simp: castHousing_def bindS_Inr castInt4_def option_ok_def split: if_splits)

lemma optionConstraints_check: "optionConstraints d h = Inr u \<Longrightarrow> housingCheck h"
  by (auto simp: optionConstraints_def bindS_Inr)

lemma insertOption_rows:
  assumes "insertOption e opt n d = Inr (x, d')" and "option_ok opt" and "rows_wf e d"
  shows "rows_wf e d'"
proof -
  from assms(1) obtain f h row where h: "castHousing e opt = Inr h" "optionConstraints d row = Inr ()"
    and row: "row = h\<lparr>ho_ID := uuid_at e n, ho_FamilyID := f, ho_CreatedAt := dbNow e n, ho_UpdatedAt := dbNow e n\<rparr>"
    and d': "db_housing_options d' = db_housing_options d @ [row]" "db_person_profiles d' = db_person_profiles d"
    by (auto simp: insertOption_def Let_def bindS_Inr)
  have "option_ok row" using castHousing_ok [OF h(1) assms(2)] by (simp add: row option_ok_def)
  with optionConstraints_check [OF h(2)] assms(3) d' show ?thesis by (simp add: rows_wf_def option_wf_def)
qed

lemma updateOption_rows:
  assumes "updateOption e i actor ok f n d = Inr (x, d')" and "rows_wf e d"
    and step: "\<And>old r. housingCheck (f old) \<Longrightarrow> option_wf r \<Longrightarrow> option_wf (f r)"
  shows "rows_wf e d'"
proof -
  from assms(1) obtain h u old where c: "optionConstraints d ((f old)\<lparr>ho_UpdatedAt := dbNow e n\<rparr>) = Inr ()"
    and d': "db_housing_options d' = updateRows (\<lambda>r. ho_ID r = h \<and> isWriter d (ho_FamilyID r) u \<and> ok r) (\<lambda>r. (f r)\<lparr>ho_UpdatedAt := dbNow e n\<rparr>)
       (db_housing_options d)" "db_person_profiles d' = db_person_profiles d"
    unfolding updateOption_def Let_def bindS_Inr by auto
  have "housingCheck (f old)" using optionConstraints_check [OF c] by (simp add: housingCheck_def)
  then have "option_wf ((f r)\<lparr>ho_UpdatedAt := dbNow e n\<rparr>)" if "option_wf r" for r
    using step [OF _ that, of old] by (simp add: option_wf_def option_ok_def housingCheck_def)
  with assms(2) show ?thesis unfolding rows_wf_def d' by (auto dest!: in_updateRows)
qed

lemma writeOption_rows:
  assumes "writeOption e opt actor n d = Inr (x, d')" and "option_ok opt" and "rows_wf e d"
  shows "rows_wf e d'"
proof -
  from assms(1) obtain h where h: "castHousing e opt = Inr h" and u: "updateOption e (ho_ID opt) actor (\<lambda>r. True) (setOption h) n d = Inr (x, d')"
    unfolding writeOption_def bindS_Inr by blast
  from castHousing_ok [OF h assms(2)] have "option_ok (setOption h r)" for r by (simp add: setOption_def option_ok_def)
  then show ?thesis
    by (intro updateOption_rows [OF u assms(3)]) (simp add: option_wf_def, simp add: housingCheck_def setOption_def)
qed

section \<open>Repositories\<close>

named_theorems row_rules \<open>routines that keep the rows well-formed\<close>

lemma rows_wf_same: "db_person_profiles d' = db_person_profiles d \<Longrightarrow> db_housing_options d' = db_housing_options d \<Longrightarrow> rows_wf e d \<Longrightarrow> rows_wf e d'"
  by (simp add: rows_wf_def)

lemma keeps_kept: "db_kept m \<Longrightarrow> keeps I m"
  by (simp add: preserves_def)

lemma keeps_sql: "(\<And>n d x d'. st n d = Inr (x, d') \<Longrightarrow> I d \<Longrightarrow> I d') \<Longrightarrow> keeps I (sql e st)"
  by (rule preserves_sql) auto

lemma keeps_bind [row_rules]: "keeps I m \<Longrightarrow> (\<And>x. keeps I (k x)) \<Longrightarrow> keeps I (bindP m k)"
  by (rule preserves_bind) auto

text \<open>Behind a routine that only reads, what it returned may be assumed.\<close>

lemma keeps_result:
  assumes "db_kept m" and "\<And>w x w'. m w = (Inr x, w') \<Longrightarrow> Q x" and "\<And>x. Q x \<Longrightarrow> keeps I (k x)"
  shows "keeps I (bindP m k)"
  unfolding preserves_def
proof
  fix w
  obtain r v where r: "m w = (r, v)" by fastforce
  from preservesD [OF assms(1) r] have v: "wo_db v = wo_db w" .
  show "I (wo_db w) \<longrightarrow> I (wo_db (snd (bindP m k w)))"
  proof (cases r)
    case (Inr x)
    with r assms(2) [of w x v] assms(3) [of x] v show ?thesis unfolding preserves_def by (simp add: bindP_def)
  qed (simp add: bindP_def r v)
qed

lemma keeps_lift [row_rules]: "(\<And>x. r = Inr x \<Longrightarrow> keeps I (k x)) \<Longrightarrow> keeps I (bindP (liftE r) k)"
  by (rule keeps_result [where Q = "\<lambda>x. r = Inr x"]) (auto intro: preserves_lift)

lemma keeps_check: "(r = None \<Longrightarrow> keeps I (k ())) \<Longrightarrow> keeps I (bindP (checkE r) k)"
  by (cases r) (auto simp: checkE_def intro: preserves_throw)

lemma keeps_plain [row_rules]: "keeps I (retP x)" "keeps I (throwP err)" "keeps I m \<Longrightarrow> keeps I (mapErr g m)"
  by (auto intro: preserves_ret preserves_throw preserves_mapErr)

lemma keeps_prod [row_rules]: "(\<And>a b. keeps I (f a b)) \<Longrightarrow> keeps I (case x of (a, b) \<Rightarrow> f a b)"
  by (cases x) simp

lemma access_kept [row_rules]:
  "keeps I (assertFamilyWriter e actor f)" "keeps I (hasFamilyAccess e actor f)" "keeps I (validateHousingGroupAssignment e f g)"
  "keeps I (getHousingGroupFamilyID e g)"
  by (rule keeps_kept, rule preserves_access validateGroup groupFamily, simp?)+

lemma people_keep_rows:
  "profile_ok e p \<Longrightarrow> keeps (rows_wf e) (repoCreatePersonProfile e p actor)"
  "profile_ok e p \<Longrightarrow> keeps (rows_wf e) (repoUpdatePersonProfile e p actor)"
proof -
  assume p: "profile_ok e p"
  have "keeps (rows_wf e) (sql e (insertPerson e history linked p))" for history linked
    by (rule keeps_sql) (rule insertPerson_rows [OF _ p])
  then show "keeps (rows_wf e) (repoCreatePersonProfile e p actor)"
    unfolding repoCreatePersonProfile_def Let_def by (intro row_rules preserves_if preserves_catch frame_rel_invariant)
  have "keeps (rows_wf e) (sql e (updatePerson e history linked p actor))" for history linked
    by (rule keeps_sql) (rule updatePerson_rows [OF _ p])
  then show "keeps (rows_wf e) (repoUpdatePersonProfile e p actor)"
    unfolding repoUpdatePersonProfile_def Let_def by (intro row_rules preserves_if preserves_catch frame_rel_invariant)
qed

lemma rows_filter: "rows_wf e d \<Longrightarrow> rows_wf e (d\<lparr>db_person_profiles := filter P (db_person_profiles d), db_person_income_history := hs\<rparr>)"
  "rows_wf e d \<Longrightarrow> rows_wf e (d\<lparr>db_housing_options := filter Q (db_housing_options d), db_answers := as\<rparr>)"
  by (simp_all add: rows_wf_def)

lemma rows_group:
  assumes "rows_wf e d" and "\<And>r. option_wf r \<Longrightarrow> option_wf (f r)"
  shows "rows_wf e (d\<lparr>db_housing_groups := gs, db_housing_options := updateRows P f (db_housing_options d)\<rparr>)"
    and "rows_wf e (d\<lparr>db_housing_options := updateRows P f (db_housing_options d)\<rparr>)"
  using assms unfolding rows_wf_def by (auto dest!: in_updateRows)

lemma option_wf_other [simp]:
  "option_wf (r\<lparr>ho_GroupID := g\<rparr>) = option_wf r" "option_wf (r\<lparr>ho_VisibleOnDashboard := v\<rparr>) = option_wf r"
  "option_wf (r\<lparr>ho_VisibleOnDashboard := v, ho_UpdatedAt := t\<rparr>) = option_wf r"
  by (simp_all add: option_wf_def option_ok_def housingCheck_def)

lemma deletes_keep_rows [row_rules]:
  "keeps (rows_wf e) (repoDeletePersonProfile e i actor)" "keeps (rows_wf e) (repoDeleteHousingOption e i actor)"
  unfolding repoDeletePersonProfile_def repoDeleteHousingOption_def
  by (intro row_rules preserves_if keeps_query; force simp: deletePerson_def deleteOption_def Let_def bindS_Inr intro: rows_filter)+

lemma options_keep_rows:
  "option_ok h \<Longrightarrow> keeps (rows_wf e) (repoCreateHousingOption e h actor)" "option_ok h \<Longrightarrow> keeps (rows_wf e) (repoUpdateHousingOption e h actor)"
proof -
  assume h: "option_ok h"
  have "keeps (rows_wf e) (query e (insertOption e h))" by (rule keeps_query) (rule insertOption_rows [OF _ h])
  then show "keeps (rows_wf e) (repoCreateHousingOption e h actor)"
    unfolding repoCreateHousingOption_def by (intro row_rules preserves_if preserves_case_option)
  have "keeps (rows_wf e) (query e (writeOption e h actor))" by (rule keeps_query) (rule writeOption_rows [OF _ h])
  then show "keeps (rows_wf e) (repoUpdateHousingOption e h actor)"
    unfolding repoUpdateHousingOption_def by (intro row_rules preserves_if)
qed

lemma option_updates_keep_rows [row_rules]:
  "keeps (rows_wf e) (repoUpdateHousingOptionVisibility e i v actor)" "keeps (rows_wf e) (repoAssignHousingOptionGroup e i g actor)"
  "keeps (rows_wf e) (repoUpdateHousingNotes e i notes actor)"
proof -
  have "keeps (rows_wf e) (query e (updateOption e i actor ok (\<lambda>r. r\<lparr>ho_VisibleOnDashboard := v\<rparr>)))" for ok
    by (rule keeps_query) (erule updateOption_rows, assumption, simp)
  then show "keeps (rows_wf e) (repoUpdateHousingOptionVisibility e i v actor)"
    unfolding repoUpdateHousingOptionVisibility_def by (intro row_rules)
  have "keeps (rows_wf e) (query e (assignGroup e i t gf actor))" for t gf
    by (rule keeps_query) (auto simp: assignGroup_def bindS_Inr elim!: updateOption_rows)
  then show "keeps (rows_wf e) (repoAssignHousingOptionGroup e i g actor)"
    unfolding repoAssignHousingOptionGroup_def Let_def by (intro row_rules preserves_if)
  have "keeps (rows_wf e) (query e (updateOption e i actor ok (\<lambda>r. r\<lparr>ho_Notes := notes\<rparr>)))" for ok
    by (rule keeps_query) (erule updateOption_rows, assumption, simp add: option_wf_def option_ok_def housingCheck_def)
  then show "keeps (rows_wf e) (repoUpdateHousingNotes e i notes actor)"
    unfolding repoUpdateHousingNotes_def by (intro row_rules preserves_if preserves_case_option)
qed

lemma groups_keep_rows [row_rules]:
  "keeps (rows_wf e) (repoCreateHousingGroup e g actor)" "keeps (rows_wf e) (repoUpdateHousingGroup e g actor)"
  "keeps (rows_wf e) (repoDeleteHousingGroup e i actor)" "keeps (rows_wf e) (repoBulkUpdateHousingGroupVisibility e i v actor)"
proof -
  have q1: "keeps (rows_wf e) (query e (insertGroup e g))" "keeps (rows_wf e) (query e (updateGroup e g actor))"
    by (rule keeps_query; auto simp: insertGroup_def updateGroup_def Let_def bindS_Inr elim!: rows_wf_same [rotated 2])+
  have q2: "keeps (rows_wf e) (query e (deleteGroup e i))" "keeps (rows_wf e) (query e (showGroup e i v))"
    by (rule keeps_query; auto simp: deleteGroup_def showGroup_def Let_def bindS_Inr intro!: rows_group)+
  show "keeps (rows_wf e) (repoCreateHousingGroup e g actor)" "keeps (rows_wf e) (repoUpdateHousingGroup e g actor)"
    "keeps (rows_wf e) (repoDeleteHousingGroup e i actor)" "keeps (rows_wf e) (repoBulkUpdateHousingGroupVisibility e i v actor)"
    unfolding repoCreateHousingGroup_def repoUpdateHousingGroup_def repoDeleteHousingGroup_def repoBulkUpdateHousingGroupVisibility_def
    by (intro q1 q2 row_rules preserves_if)+
qed

lemma keeps_transaction [row_rules]: "(\<And>t. keeps I (body t)) \<Longrightarrow> keeps I (transaction e body)"
  by (rule preserves_transaction) auto

lemma order_keeps_rows [row_rules]: "keeps (rows_wf e) (writeChecklistOrder e' i ids)"
proof (induction ids arbitrary: i)
  case (Cons c ids)
  have "keeps (rows_wf e) (query e' (setOrder e' c i))" by (rule keeps_query) (auto simp: setOrder_def bindS_Inr elim!: rows_wf_same [rotated 2])
  with Cons show ?case by (auto intro: row_rules)
qed (auto intro: row_rules)

lemma checklist_statements [row_rules]:
  "keeps (rows_wf e) (query e (lockFamily e f))" "keeps (rows_wf e) (checklistIDs e f)" "keeps (rows_wf e) (query e (insertCriterion e c))"
  "keeps (rows_wf e) (query e (updateCriterion e c))" "keeps (rows_wf e) (query e (retireCriterion e i f t))"
  "keeps (rows_wf e) (query e (answerFamily e a actor))" "keeps (rows_wf e) (query e (upsertAnswer e a f))"
  unfolding checklistIDs_def
  by (rule keeps_query; auto simp: lockFamily_def insertCriterion_def updateCriterion_def retireCriterion_def answerFamily_def upsertAnswer_def
        Let_def bindS_Inr split: if_splits elim!: rows_wf_same [rotated 2])+

lemma checklist_keeps_rows [row_rules]:
  "keeps (rows_wf e) (repoSaveHousingCriterion e c actor)" "keeps (rows_wf e) (repoDeleteHousingCriterion e f i actor)"
  "keeps (rows_wf e) (repoReorderHousingCriteria e f ids actor)" "keeps (rows_wf e) (repoSaveHousingAnswer e a actor)"
  unfolding repoSaveHousingCriterion_def repoDeleteHousingCriterion_def repoReorderHousingCriteria_def repoSaveHousingAnswer_def
    checklistTransaction_def Let_def
  by (intro row_rules preserves_if preserves_case_option)+

section \<open>Validation\<close>

lemma validated_profile:
  assumes "validateAndNormalizePersonProfile e p = Inr q"
  shows "profile_ok e q"
proof -
  from assms have name: "trimSpace (pp_Name p) \<noteq> []" and label: "trimSpace (toLower (uni_lower e) (pp_RelationshipLabel p)) \<in> set relationshipLabels"
    and b: "bindS (normalizeEmployment p) checkAmounts = Inr q"
    unfolding validateAndNormalizePersonProfile_def by (simp_all split: if_splits)
  from b obtain r where r: "normalizeEmployment p = Inr r" "checkAmounts r = Inr q" by (auto simp: bindS_Inr)
  from r(2) have "r = q" by (simp add: checkAmounts_def split: if_splits)
  with r(1) name label show ?thesis by (auto simp: normalizeEmployment_def profile_ok_def blank_def split: if_splits)
qed

lemma estimate_range: "0 \<le> ge_GrantAmountCents (EstimateHousingGrantAmount ty people) \<and> ge_GrantAmountCents (EstimateHousingGrantAmount ty people) \<le> maxGrantCents"
  using bracketGrant_range by (simp add: EstimateHousingGrantAmount_def grant_amount maxGrantCents_def)

lemma granted_option:
  assumes "applyGrantEstimate e s option viewer w = (Inr x, w')" and "hs_hasPeople s" and "validateHousingOption option = None"
  shows "ho_FamilyID x = [] \<or> option_ok x"
proof (cases "ho_FamilyID option = []")
  case False
  from assms(1,2) False obtain g where x: "x = option\<lparr>ho_GrantAmountCents := g\<rparr>" "IsNonHDBHousingType (ho_Type option) \<longrightarrow> g = 0" "0 \<le> g" "g \<le> maxGrantCents"
    unfolding applyGrantEstimate_def using estimate_range
    by (auto simp: maxGrantCents_def split: if_splits elim!: bindP_InrE)
  have "0 < MaxLoanTenureMonthsForHousingType ty" for ty
    by (simp add: MaxLoanTenureMonthsForHousingType_def MaxLoanTenureYearsForHousingType_def monthsPerYear_def i64_def
        hdbMaxLoanTenureYears_def nonHDBMaxLoanTenureYears_def)
  with x assms(3) show ?thesis
    by (auto simp: option_ok_def validateHousingOption_def validateHousingCondoCombination_def validateHousingLoanTenure_def
        split: if_splits option.splits intro: order.trans [OF _ less_imp_le])
qed (use assms(1) in \<open>auto simp: applyGrantEstimate_def\<close>)

lemma writes_need_family:
  "ho_FamilyID h = [] \<Longrightarrow> keeps I (repoCreateHousingOption e h actor)" "ho_FamilyID h = [] \<Longrightarrow> keeps I (repoUpdateHousingOption e h actor)"
  unfolding repoCreateHousingOption_def repoUpdateHousingOption_def by (auto split: option.split intro: row_rules)

lemma actors_kept [row_rules]:
  "keeps I (authenticateUserID (Some (srvAuthenticate e)) md)" "keeps I (requestActorID (Some (srvAuthenticate e)) md fallback)"
  "keeps I (optionalAuthenticatedActorID (Some (srvAuthenticate e)) md)"
  unfolding requestActorID_def optionalAuthenticatedActorID_def option.case by (rule keeps_kept, rule authenticated_kept)+

lemma checklistActor_keeps [row_rules]: "keeps I (checklistActor (housingServer e) md)"
  by (rule keeps_kept) (simp add: checklistActor_kept)

lemma criteria_listed [row_rules]: "keeps I (srvListHousingCriteria e (housingServer e) md req)"
  by (rule keeps_kept) (simp add: list_criteria_kept)

lemma merged_valid:
  assumes "mergeExisting e req option actor w = (Inr x, w')"
  shows "validateHousingOption x = validateHousingOption option"
proof -
  have "ho_Type x = ho_Type option \<and> ho_LoanType x = ho_LoanType option \<and> ho_GrantAmountCents x = ho_GrantAmountCents option
      \<and> ho_LoanTenureMonths x = ho_LoanTenureMonths option"
    using assms unfolding mergeExisting_def Let_def by (auto split: if_splits elim!: bindP_InrE)
  then show ?thesis by (simp add: validateHousingOption_def validateHousingCondoCombination_def validateHousingLoanTenure_def)
qed

lemma server_people [simp]: "hs_hasPeople (housingServer e)"
  by (simp add: housingServer_def NewHousingServer_def)

section \<open>Handlers\<close>

text \<open>What a predicate on the tables has to satisfy to survive every request that writes for a
  household: each repository method keeps it, a profile or an option being written only after the
  handler has validated it. The lemmas of the locale are about the handlers.\<close>

locale household_law =
  fixes e :: env and I :: "database \<Rightarrow> bool"
  assumes people_law: "profile_ok e p \<Longrightarrow> keeps I (repoCreatePersonProfile e p actor)"
      "profile_ok e p \<Longrightarrow> keeps I (repoUpdatePersonProfile e p actor)" "keeps I (repoDeletePersonProfile e i actor)"
    and options_law: "option_ok h \<Longrightarrow> keeps I (repoCreateHousingOption e h actor)" "option_ok h \<Longrightarrow> keeps I (repoUpdateHousingOption e h actor)"
    and option_law: "keeps I (repoDeleteHousingOption e i actor)" "keeps I (repoUpdateHousingOptionVisibility e i v actor)"
      "keeps I (repoAssignHousingOptionGroup e i i' actor)" "keeps I (repoUpdateHousingNotes e i notes actor)"
    and groups_law: "keeps I (repoCreateHousingGroup e g actor)" "keeps I (repoUpdateHousingGroup e g actor)"
      "keeps I (repoDeleteHousingGroup e i actor)" "keeps I (repoBulkUpdateHousingGroupVisibility e i v actor)"
    and checklist_law: "keeps I (repoSaveHousingCriterion e c actor)" "keeps I (repoDeleteHousingCriterion e f i actor)"
      "keeps I (repoReorderHousingCriteria e f ids actor)" "keeps I (repoSaveHousingAnswer e a actor)"
begin

lemmas household_rules = people_law option_law groups_law checklist_law row_rules

lemma person_handlers:
  "keeps I (srvCreatePersonProfile e (personServer e) md p)" "keeps I (srvUpdatePersonProfile e (personServer e) md p)"
  "keeps I (srvDeletePersonProfile e (personServer e) md q)"
  unfolding srvCreatePersonProfile_def srvUpdatePersonProfile_def srvDeletePersonProfile_def server_auth
  by (intro household_rules preserves_if preserves_case_option; erule validated_profile)+

lemma housing_handlers:
  "keeps I (srvCreateHousingGroup e (housingServer e) md g)" "keeps I (srvUpdateHousingGroup e (housingServer e) md g)"
  "keeps I (srvDeleteHousingGroup e (housingServer e) md q)" "keeps I (srvAssignHousingOptionGroup e (housingServer e) md a)"
  "keeps I (srvBulkUpdateHousingGroupVisibility e (housingServer e) md v)"
  "keeps I (srvDeleteHousingOption e (housingServer e) md q)" "keeps I (srvUpdateHousingOptionVisibility e (housingServer e) md v)"
  "keeps I (srvUpdateHousingNotes e (housingServer e) md q)"
  unfolding srvCreateHousingGroup_def srvUpdateHousingGroup_def srvDeleteHousingGroup_def srvAssignHousingOptionGroup_def
    srvBulkUpdateHousingGroupVisibility_def srvDeleteHousingOption_def srvUpdateHousingOptionVisibility_def srvUpdateHousingNotes_def server_auth
  by (intro household_rules preserves_if preserves_case_option keeps_check)+

lemma checklist_handlers:
  "keeps I (srvSaveHousingCriterion e (housingServer e) md c)" "keeps I (srvDeleteHousingCriterion e (housingServer e) md q)"
  "keeps I (srvReorderHousingCriteria e (housingServer e) md o')" "keeps I (srvSaveHousingAnswer e (housingServer e) md a)"
  unfolding srvSaveHousingCriterion_def srvDeleteHousingCriterion_def srvReorderHousingCriteria_def srvSaveHousingAnswer_def Let_def
  by (intro household_rules preserves_if preserves_case_option keeps_check)+

lemma granted_write:
  assumes "validateHousingOption option = None"
    and "\<And>x. ho_FamilyID x = [] \<or> option_ok x \<Longrightarrow> keeps I (k x)"
  shows "keeps I (bindP (applyGrantEstimate e (housingServer e) option actor) k)"
  by (rule keeps_result [OF grant_kept, where Q = "\<lambda>x. ho_FamilyID x = [] \<or> option_ok x"])
     (erule granted_option, simp, rule assms, erule assms(2))

lemma option_handlers:
  "keeps I (srvCreateHousingOption e (housingServer e) md h)" "keeps I (srvUpdateHousingOption e (housingServer e) md h)"
proof -
  have c: "ho_FamilyID x = [] \<or> option_ok x \<Longrightarrow> keeps I (repoCreateHousingOption e x actor)"
    and u: "ho_FamilyID x = [] \<or> option_ok x \<Longrightarrow> keeps I (repoUpdateHousingOption e x actor)" for x actor
    using writes_need_family options_law by blast+
  show "keeps I (srvCreateHousingOption e (housingServer e) md h)"
    unfolding srvCreateHousingOption_def server_auth by (intro granted_write keeps_check household_rules c)
  have m: "keeps I (bindP (mergeExisting e req option actor) k)"
    if "validateHousingOption option = None" "\<And>x. validateHousingOption x = None \<Longrightarrow> keeps I (k x)" for req option actor and k :: "HousingOption \<Rightarrow> (go_error, option_msg) io"
    by (rule keeps_result [OF merge_kept, where Q = "\<lambda>x. validateHousingOption x = None"]) (simp_all add: merged_valid that)
  show "keeps I (srvUpdateHousingOption e (housingServer e) md h)"
    unfolding srvUpdateHousingOption_def server_auth by (intro m granted_write keeps_check household_rules preserves_if u)
qed

lemmas handlers = person_handlers housing_handlers option_handlers checklist_handlers

lemma run_keeps: "I (wo_db w) \<Longrightarrow> I (wo_db (runApi e md r w))"
  using handlers unfolding preserves_def by (cases r) simp_all

end

interpretation rows: household_law e "rows_wf e" for e
  by unfold_locales (intro people_keep_rows options_keep_rows row_rules; assumption)+

section \<open>Properties\<close>

text \<open>
  Property C26: every stored row is well-formed. Whatever requests arrive, with whatever fields,
  callers and database failures, every stored person profile keeps a name, a known relationship, one of
  the three supported employment states with exactly the dates and incomes that belong to it and
  amounts that are not negative, and every stored housing option keeps a loan tenure within the
  maximum of its type, no HDB loan and no grant unless it is an HDB flat, and a grant of at most
  120,000 dollars.
\<close>

theorem api_keeps_rows_well_formed:
  assumes "rows_wf e (wo_db w)"
  shows "rows_wf e (wo_db (foldl (\<lambda>w (md, r). runApi e md r w) w requests))"
  using assms by (induction requests arbitrary: w) (simp_all add: rows.run_keeps split: prod.split)

theorem api_keeps_rows_well_formed_witness:
  "rows_wf tidy_env (wo_db (foldl (\<lambda>w (md, r). runApi tidy_env md r w) api_world
      [(tokenMetadata ''tok'', ApiCreateOption (Some (example_option_msg\<lparr>hm_FamilyId := ''f2'', hm_GrantAmountCents := 77\<rparr>)))]))"
proof -
  have "rows_wf tidy_env (wo_db api_world)" by code_simp
  then show ?thesis by (rule api_keeps_rows_well_formed)
qed

end
