(* ===== verification/Server_Reads.thy ===== *)
theory Server_Reads
  imports Server_Isolation
begin

text \<open>
  What the API shows. \<open>shown e md P m\<close> says that a call with metadata \<open>md\<close> leaves the tables alone and
  that what it answers satisfies \<open>P\<close> for an enabled user who holds the session of the call. The
  handlers that read share one shape, the locale \<open>member_read\<close>, with the contract of the repository
  as its assumption; each handler is an interpretation of it. The last section compares the two
  ways to read the evaluation of a housing option.
\<close>

section \<open>Answers behind the session lookup\<close>

definition shown :: "env \<Rightarrow> metadata \<Rightarrow> (database \<Rightarrow> ID \<Rightarrow> 'a \<Rightarrow> bool) \<Rightarrow> ('e, 'a) io \<Rightarrow> bool" where
  "shown e md P m \<longleftrightarrow> (\<forall>w. wo_db (snd (m w)) = wo_db w
     \<and> (\<forall>x. fst (m w) = Inr x \<longrightarrow> (\<exists>u\<in>set (db_users (wo_db w)). us_DisabledAt u = None \<and> holdsSession e md w u \<and> P (wo_db w) (us_ID u) x)))"

lemma shownI:
  assumes "db_kept m" and "\<And>w x w'. m w = (Inr x, w') \<Longrightarrow>
    \<exists>u\<in>set (db_users (wo_db w)). us_DisabledAt u = None \<and> holdsSession e md w u \<and> P (wo_db w) (us_ID u) x"
  shows "shown e md P m"
  using assms unfolding shown_def preserves_def by (metis prod.collapse)

lemma shown_throw: "shown e md P (throwP err)"
  by (simp add: shown_def throwP_def)

lemma fst_mapErr_Inr [simp]: "fst (mapErr g m w) = Inr x \<longleftrightarrow> fst (m w) = Inr x"
  by (cases "m w") (simp add: mapErr_def split: sum.split)

lemma shown_mapErr: "shown e md P m \<Longrightarrow> shown e md P (mapErr g m)"
  by (simp add: shown_def)

text \<open>Whoever the session lookup returned, the rest of the handler is a read of that user.\<close>

lemma shown_actor:
  assumes "db_kept m" and "\<And>w i w'. m w = (Inr i, w') \<Longrightarrow> authenticateUserID (Some (srvAuthenticate e)) md w = (Inr i, w')"
    and "\<And>viewer. gives (\<lambda>d x. P d viewer x) (k viewer)"
  shows "shown e md P (bindP m k)"
proof (rule shownI)
  show "db_kept (bindP m k)" by (intro preserves_bind frame_rel_eq assms(1) gives_db_kept [OF assms(3)])
  fix w x w'
  assume "bindP m k w = (Inr x, w')"
  then obtain i v where i: "m w = (Inr i, v)" and x: "k i v = (Inr x, w')" by (rule bindP_InrE)
  from sessions.user_id_genuine [OF assms(2) [OF i]] givesD [OF assms(3) x]
  show "\<exists>u\<in>set (db_users (wo_db w)). us_DisabledAt u = None \<and> holdsSession e md w u \<and> P (wo_db w) (us_ID u) x" by auto
qed

lemma shown_request: "(\<And>viewer. gives (\<lambda>d x. P d viewer x) (k viewer)) \<Longrightarrow>
    shown e md P (bindP (requestActorID (Some (srvAuthenticate e)) md fallback) k)"
  unfolding requestActorID_def option.case by (rule shown_actor [OF authenticated_kept])

lemma shown_checklist:
  assumes "hs_auth s = Some (srvAuthenticate e)" and "\<And>viewer. gives (\<lambda>d x. P d viewer x) (k viewer)"
  shows "shown e md P (bindP (checklistActor s md) k)"
  by (rule shown_actor [OF checklistActor_kept [OF assms(1)] checklistActor_genuine [OF assms(1)] assms(2)])

lemma gives_lift: "(\<And>x. r = Inr x \<Longrightarrow> gives P (k x)) \<Longrightarrow> gives P (bindP (liftE r) k)"
  by (cases r) (simp_all add: bindP_def liftE_def gives_def)

lemma requireID_Inr: "requireID v = Inr i \<Longrightarrow> i = trimSpace v"
  by (auto simp: requireID_def Let_def split: if_splits)

section \<open>Reads by id\<close>

locale member_read =
  fixes e :: env and repo :: "ID \<Rightarrow> ID \<Rightarrow> (go_error, 'a) io" and reply :: "'a \<Rightarrow> 'b" and P :: "ID \<Rightarrow> database \<Rightarrow> ID \<Rightarrow> 'b \<Rightarrow> bool"
  assumes contract: "gives (\<lambda>d x. P i d viewer (reply x)) (repo i viewer)"
begin

lemma answered:
  "shown e md (\<lambda>d u y. \<exists>v raw. req = Some (v, raw) \<and> P (trimSpace raw) d u y)
     (replying (case req of None \<Rightarrow> throwP ErrInvalidArgument
      | Some (v, raw) \<Rightarrow>
          bindP (requestActorID (Some (srvAuthenticate e)) md v) (\<lambda>viewer.
          bindP (liftE (requireID raw)) (\<lambda>i. bindP (repo i viewer) (\<lambda>x. retP (reply x))))))"
proof (rule shown_mapErr, cases req)
  case (Some q)
  obtain v raw where q: "q = (v, raw)" by fastforce
  have "gives (\<lambda>d y. P (trimSpace raw) d viewer y) (bindP (liftE (requireID raw)) (\<lambda>i. bindP (repo i viewer) (\<lambda>x. retP (reply x))))" for viewer
  proof (rule gives_lift)
    fix i
    assume "requireID raw = Inr i"
    then have "i = trimSpace raw" by (rule requireID_Inr)
    then show "gives (\<lambda>d y. P (trimSpace raw) d viewer y) (bindP (repo i viewer) (\<lambda>x. retP (reply x)))"
      by (intro gives_bind [OF contract [of i viewer]]) (simp add: gives_def retP_def)
  qed
  then show "shown e md (\<lambda>d u y. \<exists>v raw. req = Some (v, raw) \<and> P (trimSpace raw) d u y)
     (case req of None \<Rightarrow> throwP ErrInvalidArgument
      | Some (v, raw) \<Rightarrow>
          bindP (requestActorID (Some (srvAuthenticate e)) md v) (\<lambda>viewer.
          bindP (liftE (requireID raw)) (\<lambda>i. bindP (repo i viewer) (\<lambda>x. retP (reply x)))))"
    unfolding Some q option.case prod.case option.inject prod.inject by (intro shown_request) simp
qed (simp add: shown_throw)

end

interpretation get_family: member_read e "repoGetFamily e" familyToProto "\<lambda>i d v m. mayRead e d (fm_msg_Id m) v"
  for e by unfold_locales (rule gives_mono [OF read_family], simp add: rowRead_def familyToProto_def)

interpretation list_members: member_read e "\<lambda>i v. repoListFamilyMembers e v i" "map memberToProto" "\<lambda>i d v. familyRead e v i mm_FamilyId d"
  for e by unfold_locales (rule gives_mono [OF read_members], auto simp: familyRead_def memberToProto_def)

interpretation get_person: member_read e "repoGetPersonProfile e" personToProto "\<lambda>i d v m. mayRead e d (pm_FamilyId m) v"
  for e by unfold_locales (rule gives_mono [OF read_person], simp add: rowRead_def personToProto_def)

interpretation list_people: member_read e "repoListPersonProfilesByFamily e" "map personToProto" "\<lambda>i d v. familyRead e v i pm_FamilyId d"
  for e by unfold_locales (rule gives_mono [OF read_people], auto simp: familyRead_def personToProto_def)

interpretation list_history: member_read e "repoListPersonIncomeHistoryByFamily e" "map personIncomeHistoryEntryToProto"
  "\<lambda>i d v. familyRead e v i (\<lambda>_. the (uuid_in e i)) d"
  for e by unfold_locales (rule gives_mono [OF read_history], auto simp: familyRead_def)

interpretation get_option: member_read e "repoGetHousingOption e" housingToProto "\<lambda>i d v m. mayRead e d (hm_FamilyId m) v"
  for e by unfold_locales (rule gives_mono [OF read_option], simp add: rowRead_def housingToProto_def)

interpretation list_options: member_read e "repoListHousingOptions e" "map housingToProto" "\<lambda>i d v. familyRead e v i hm_FamilyId d"
  for e by unfold_locales (rule gives_mono [OF read_options], auto simp: familyRead_def housingToProto_def)

interpretation list_groups: member_read e "repoListHousingGroups e" "map housingGroupToProto" "\<lambda>i d v. familyRead e v i gm_FamilyId d"
  for e by unfold_locales (rule gives_mono [OF read_groups], auto simp: familyRead_def housingGroupToProto_def)

section \<open>The other reads\<close>

text \<open>The rows of the family a request names.\<close>

definition ofFamily :: "env \<Rightarrow> (string \<times> string) option \<Rightarrow> ('r \<Rightarrow> ID) \<Rightarrow> database \<Rightarrow> ID \<Rightarrow> 'r list \<Rightarrow> bool" where
  "ofFamily e req family d u rows \<longleftrightarrow> (\<exists>v raw. req = Some (v, raw) \<and> familyRead e u (trimSpace raw) family d rows)"

lemma shown_mono: "shown e md P m \<Longrightarrow> (\<And>d u x. P d u x \<Longrightarrow> Q d u x) \<Longrightarrow> shown e md Q m"
  unfolding shown_def by blast

lemma family_server_auth [simp]: "fs_auth (NewFamilyServer ttl [a]) = Some a"
  by (simp add: NewFamilyServer_def)

lemma read_user_families: "gives (\<lambda>d fams. list_all (\<lambda>f. mayRead e d (fa_ID f) u) fams) (repoListUserFamilies e u)"
  unfolding repoListUserFamilies_def
  by (rule gives_query) (auto simp: bindS_Inr castUUID_Inr mayRead_def list_all_iff)

lemma user_families_shown:
  "shown e md (\<lambda>d u ms. list_all (\<lambda>m. mayRead e d (fm_msg_Id m) u) ms) (srvListUserFamilies e (NewFamilyServer ttl [srvAuthenticate e]) md req)"
proof -
  have "gives (\<lambda>d ms. list_all (\<lambda>m. mayRead e d (fm_msg_Id m) u) ms) (bindP (repoListUserFamilies e u) (\<lambda>fams. retP (map familyToProto fams)))" for u
    by (rule gives_bind [OF read_user_families]) (simp add: gives_def retP_def list_all_iff familyToProto_def)
  then show ?thesis unfolding srvListUserFamilies_def family_server_auth
    by (intro shown_mapErr) (simp add: shown_throw shown_request split: option.split)
qed

lemma criteria_gives:
  "gives (\<lambda>d ms. familyRead e viewer (trimSpace raw) cr_FamilyId d ms)
     (bindP (liftE (requireID raw)) (\<lambda>familyID. bindP (repoListHousingCriteria e familyID viewer) (\<lambda>criteria. retP (map criterionToProto criteria))))"
proof (rule gives_lift)
  fix i
  assume "requireID raw = Inr i"
  then have "i = trimSpace raw" by (rule requireID_Inr)
  then show "gives (\<lambda>d ms. familyRead e viewer (trimSpace raw) cr_FamilyId d ms)
      (bindP (repoListHousingCriteria e i viewer) (\<lambda>criteria. retP (map criterionToProto criteria)))"
    by (intro gives_bind [OF read_criteria]) (auto simp: gives_def retP_def familyRead_def criterionToProto_def)
qed

lemma criteria_shown:
  "shown e md (\<lambda>d u ms. familyRead e u (trimSpace (getText id req)) cr_FamilyId d ms) (srvListHousingCriteria e (housingServer e) md req)"
  unfolding srvListHousingCriteria_def by (intro shown_checklist server_auth gives_mapErr criteria_gives)

text \<open>The evaluation of an option shows the criteria of the option's family.\<close>

lemma evaluation_gives:
  "gives (\<lambda>d ev. \<exists>f. mayRead e d f viewer \<and> list_all (\<lambda>c. uuid_in e f = Some (cr_FamilyId c)) (ev_Criteria ev))
     (bindP (repoGetHousingOption e i viewer) (\<lambda>option.
        bindP (repoListHousingCriteria e (ho_FamilyID option) viewer) (\<lambda>criteria.
        bindP (repoListHousingAnswers e (ho_FamilyID option) viewer) (\<lambda>answers.
        let selected = filter (\<lambda>a. ha_HousingID a = i \<and> ha_CriterionID a \<in> set (map hc_ID criteria)) answers
        in retP \<lparr>ev_Criteria = map criterionToProto criteria, ev_Answers = map answerToProto selected,
                 ev_Summary = Some (SummarizeHousingEvaluation criteria selected)\<rparr>))))"
  by (rule gives_bind [OF read_option], rule gives_bind [OF read_criteria], rule gives_bind [OF read_answers])
     (auto simp: gives_def retP_def Let_def rowRead_def familyRead_def list_all_iff criterionToProto_def)

lemma evaluation_shown:
  "shown e md (\<lambda>d u ev. \<exists>f. mayRead e d f u \<and> list_all (\<lambda>c. uuid_in e f = Some (cr_FamilyId c)) (ev_Criteria ev))
     (srvGetHousingEvaluation e (housingServer e) md req)"
  unfolding srvGetHousingEvaluation_def by (intro shown_checklist server_auth gives_mapErr gives_lift evaluation_gives)

section \<open>Two ways to an evaluation\<close>

text \<open>\<open>GetHousingOption\<close> and \<open>ListHousingOptions\<close> attach a summary to an option, \<open>GetHousingEvaluation\<close>
  computes one from the answers it selects. Answers to criteria outside the list do not count.\<close>

lemma answersByID_filter: "P k \<Longrightarrow> answersByID (filter (\<lambda>a. P (ha_CriterionID a)) answers) k = answersByID answers k"
  unfolding answersByID_def by (induction answers rule: rev_induct) auto

lemma summarize_cong:
  assumes "\<And>c. c \<in> set criteria \<Longrightarrow> m (hc_ID c) = m' (hc_ID c)"
  shows "foldl (summarizeStep m) st criteria = foldl (summarizeStep m') st criteria"
proof (rule foldl_cong [OF refl refl])
  fix st c
  assume "c \<in> set criteria"
  then show "summarizeStep m st c = summarizeStep m' st c" using assms by (simp add: summarizeStep_def lookupAnswer_def)
qed

lemma summary_restrict:
  "SummarizeHousingEvaluation criteria (filter (\<lambda>a. ha_CriterionID a \<in> set (map hc_ID criteria)) answers)
   = SummarizeHousingEvaluation criteria answers"
proof -
  let ?as = "filter (\<lambda>a. ha_CriterionID a \<in> set (map hc_ID criteria)) answers"
  have eq: "foldl (summarizeStep (answersByID ?as)) st criteria = foldl (summarizeStep (answersByID answers)) st criteria" for st
    by (rule summarize_cong) (rule answersByID_filter, simp)
  show ?thesis unfolding SummarizeHousingEvaluation_def Let_def eq ..
qed

lemma summary_selected:
  "SummarizeHousingEvaluation criteria (filter (\<lambda>a. Q a \<and> ha_CriterionID a \<in> set (map hc_ID criteria)) answers)
   = SummarizeHousingEvaluation criteria (filter Q answers)"
proof -
  have "filter (\<lambda>a. Q a \<and> ha_CriterionID a \<in> set (map hc_ID criteria)) answers
      = filter (\<lambda>a. ha_CriterionID a \<in> set (map hc_ID criteria)) (filter Q answers)" by (simp only: filter_filter)
  then show ?thesis by (simp only: summary_restrict)
qed

definition criteriaOf :: "database \<Rightarrow> ID \<Rightarrow> HousingCriterion list" where
  "criteriaOf d f = map cr_Criterion (activeCriteria d f)"

definition answersOf :: "database \<Rightarrow> ID \<Rightarrow> HousingAnswer list" where
  "answersOf d f = map ar_Answer (filter (\<lambda>a. ar_FamilyID a = f \<and> activeAnswer d a) (db_answers d))"

definition summaryOf :: "database \<Rightarrow> ID \<Rightarrow> ID \<Rightarrow> HousingEvaluationSummary" where
  "summaryOf d f i = SummarizeHousingEvaluation (criteriaOf d f) (filter (\<lambda>a. ha_HousingID a = i) (answersOf d f))"

lemma criteria_exact: "gives (\<lambda>d cs. \<exists>f. uuid_in e familyID = Some f \<and> cs = criteriaOf d f) (repoListHousingCriteria e familyID viewer)"
  unfolding repoListHousingCriteria_def
  by (rule gives_bind [OF gives_access], intro gives_if gives_throw gives_query) (auto simp: bindS_Inr castUUID_Inr criteriaOf_def)

lemma answers_exact: "gives (\<lambda>d as. \<exists>f. uuid_in e familyID = Some f \<and> as = answersOf d f) (repoListHousingAnswers e familyID viewer)"
  unfolding repoListHousingAnswers_def
  by (rule gives_bind [OF gives_access], intro gives_if gives_throw gives_query) (auto simp: bindS_Inr castUUID_Inr answersOf_def)

lemma attach_exact:
  "gives (\<lambda>d out. \<exists>f. uuid_in e familyID = Some f \<and> out = [opt\<lparr>ho_Evaluation := Some (summaryOf d f (ho_ID opt))\<rparr>])
     (attachHousingEvaluations e [opt] familyID viewer)"
  unfolding attachHousingEvaluations_def
  by (simp, rule gives_bind [OF criteria_exact], rule gives_bind [OF answers_exact]) (auto simp: gives_def retP_def summaryOf_def)

definition evaluated :: "env \<Rightarrow> ID \<Rightarrow> database \<Rightarrow> HousingOption \<Rightarrow> bool" where
  "evaluated e i d opt \<longleftrightarrow> (\<exists>row f. row \<in> set (db_housing_options d) \<and> uuid_in e i = Some (ho_ID row) \<and> ho_ID opt = ho_ID row
     \<and> ho_FamilyID opt = ho_FamilyID row \<and> uuid_in e (ho_FamilyID row) = Some f \<and> ho_Evaluation opt = Some (summaryOf d f (ho_ID row)))"

lemma option_exact: "gives (evaluated e i) (repoGetHousingOption e i viewer)"
  unfolding repoGetHousingOption_def
proof (rule gives_bind [where P = "\<lambda>d opt. \<exists>row. row \<in> set (db_housing_options d) \<and> uuid_in e i = Some (ho_ID row)
    \<and> ho_ID opt = ho_ID row \<and> ho_FamilyID opt = ho_FamilyID row"])
  show "gives (\<lambda>d opt. \<exists>row. row \<in> set (db_housing_options d) \<and> uuid_in e i = Some (ho_ID row) \<and> ho_ID opt = ho_ID row \<and> ho_FamilyID opt = ho_FamilyID row)
      (query e (\<lambda>n d. bindS (castUUID e i) (\<lambda>h. bindS (castUUID e viewer) (\<lambda>u.
       bindS (firstRow (filter (\<lambda>r. ho_ID r = h \<and> isMember d (ho_FamilyID r) u) (db_housing_options d))) (\<lambda>row.
       Inr (scanHousingRow row, d))))))"
    by (rule gives_query) (auto simp: bindS_Inr castUUID_Inr scanHousingRow_def dest!: firstRow_filter)
  show "gives (\<lambda>d y. (\<exists>row. row \<in> set (db_housing_options d) \<and> uuid_in e i = Some (ho_ID row) \<and> ho_ID opt = ho_ID row \<and> ho_FamilyID opt = ho_FamilyID row)
      \<longrightarrow> evaluated e i d y) (bindP (attachHousingEvaluations e [opt] (ho_FamilyID opt) viewer) (\<lambda>opts. retP (hd opts)))" for opt
    by (rule gives_bind [OF attach_exact]) (auto simp: gives_def retP_def evaluated_def)
qed

lemma evaluation_exact:
  assumes "srvGetHousingEvaluation e (housingServer e) md (Some raw) w = (Inr ev, w')"
  obtains row f where "row \<in> set (db_housing_options (wo_db w))" "uuid_in e (trimSpace raw) = Some (ho_ID row)"
    "uuid_in e (ho_FamilyID row) = Some f" "ev_Summary ev = Some (summaryOf (wo_db w) f (trimSpace raw))"
proof -
  let ?P = "\<lambda>i d ev. \<exists>row f. row \<in> set (db_housing_options d) \<and> uuid_in e i = Some (ho_ID row) \<and> uuid_in e (ho_FamilyID row) = Some f
       \<and> ev_Summary ev = Some (summaryOf d f i)"
  have g: "gives (?P i)
     (bindP (repoGetHousingOption e i viewer) (\<lambda>option.
        bindP (repoListHousingCriteria e (ho_FamilyID option) viewer) (\<lambda>criteria.
        bindP (repoListHousingAnswers e (ho_FamilyID option) viewer) (\<lambda>answers.
        let selected = filter (\<lambda>a. ha_HousingID a = i \<and> ha_CriterionID a \<in> set (map hc_ID criteria)) answers
        in retP \<lparr>ev_Criteria = map criterionToProto criteria, ev_Answers = map answerToProto selected,
                 ev_Summary = Some (SummarizeHousingEvaluation criteria selected)\<rparr>))))" for i viewer
    unfolding Let_def summary_selected
    by (rule gives_bind [OF option_exact], rule gives_bind [OF criteria_exact], rule gives_bind [OF answers_exact])
       (auto simp: gives_def retP_def summaryOf_def evaluated_def)
  have "shown e md (\<lambda>d u ev. ?P (trimSpace raw) d ev) (srvGetHousingEvaluation e (housingServer e) md (Some raw))"
    unfolding srvGetHousingEvaluation_def
    by (intro shown_checklist server_auth gives_mapErr gives_lift) (use g requireID_Inr in \<open>force simp: getText_def\<close>)
  with assms that show thesis unfolding shown_def by (metis fst_conv)
qed

section \<open>Properties\<close>

text \<open>
  Property C20: the API shows a family to its members only. Every handler that reads families,
  members, people, income history, housing options, groups, criteria or evaluations leaves the
  tables alone, whatever ids of users the request claims, and when it answers, the token of the call
  belongs to a live session of an enabled user who is a member of the family the answer is about.
\<close>

theorem api_reads_need_membership:
  "shown e md (\<lambda>d u m. mayRead e d (fm_msg_Id m) u) (srvGetFamily e (NewFamilyServer ttl [srvAuthenticate e]) md q)
   \<and> shown e md (\<lambda>d u ms. list_all (\<lambda>m. mayRead e d (fm_msg_Id m) u) ms) (srvListUserFamilies e (NewFamilyServer ttl [srvAuthenticate e]) md uq)
   \<and> shown e md (ofFamily e q mm_FamilyId) (srvListFamilyMembers e (NewFamilyServer ttl [srvAuthenticate e]) md q)
   \<and> shown e md (\<lambda>d u m. mayRead e d (pm_FamilyId m) u) (srvGetPersonProfile e (personServer e) md q)
   \<and> shown e md (ofFamily e q pm_FamilyId) (srvListPersonProfilesByFamily e (personServer e) md q)
   \<and> shown e md (ofFamily e q (\<lambda>_. the (uuid_in e (trimSpace (snd (the q)))))) (srvListIncomeHistoryByFamily e (personServer e) md q)
   \<and> shown e md (\<lambda>d u m. mayRead e d (hm_FamilyId m) u) (srvGetHousingOption e (housingServer e) md q)
   \<and> shown e md (ofFamily e q hm_FamilyId) (srvListHousingOptions e (housingServer e) md q)
   \<and> shown e md (ofFamily e q gm_FamilyId) (srvListHousingGroups e (housingServer e) md q)
   \<and> shown e md (\<lambda>d u ms. familyRead e u (trimSpace (getText id cq)) cr_FamilyId d ms) (srvListHousingCriteria e (housingServer e) md cq)
   \<and> shown e md (\<lambda>d u ev. \<exists>f. mayRead e d f u \<and> list_all (\<lambda>c. uuid_in e f = Some (cr_FamilyId c)) (ev_Criteria ev))
       (srvGetHousingEvaluation e (housingServer e) md cq)"
proof (intro conjI)
  show "shown e md (\<lambda>d u m. mayRead e d (fm_msg_Id m) u) (srvGetFamily e (NewFamilyServer ttl [srvAuthenticate e]) md q)"
    unfolding srvGetFamily_def family_server_auth by (rule shown_mono [OF get_family.answered]) auto
  show "shown e md (ofFamily e q mm_FamilyId) (srvListFamilyMembers e (NewFamilyServer ttl [srvAuthenticate e]) md q)"
    unfolding srvListFamilyMembers_def family_server_auth ofFamily_def by (rule list_members.answered)
  show "shown e md (\<lambda>d u m. mayRead e d (pm_FamilyId m) u) (srvGetPersonProfile e (personServer e) md q)"
    unfolding srvGetPersonProfile_def server_auth by (rule shown_mono [OF get_person.answered]) auto
  show "shown e md (ofFamily e q pm_FamilyId) (srvListPersonProfilesByFamily e (personServer e) md q)"
    unfolding srvListPersonProfilesByFamily_def server_auth ofFamily_def by (rule list_people.answered)
  show "shown e md (ofFamily e q (\<lambda>_. the (uuid_in e (trimSpace (snd (the q)))))) (srvListIncomeHistoryByFamily e (personServer e) md q)"
    unfolding srvListIncomeHistoryByFamily_def server_auth by (rule shown_mono [OF list_history.answered]) (auto simp: ofFamily_def)
  show "shown e md (\<lambda>d u m. mayRead e d (hm_FamilyId m) u) (srvGetHousingOption e (housingServer e) md q)"
    unfolding srvGetHousingOption_def server_auth by (rule shown_mono [OF get_option.answered]) auto
  show "shown e md (ofFamily e q hm_FamilyId) (srvListHousingOptions e (housingServer e) md q)"
    unfolding srvListHousingOptions_def server_auth ofFamily_def by (rule list_options.answered)
  show "shown e md (ofFamily e q gm_FamilyId) (srvListHousingGroups e (housingServer e) md q)"
    unfolding srvListHousingGroups_def server_auth ofFamily_def by (rule list_groups.answered)
qed (rule user_families_shown criteria_shown evaluation_shown)+

text \<open>
  Property C21: an evaluation is the same wherever it is read. For an option whose id is requested in
  the normal form of the database, on tables with unique option ids, the summary that
  \<open>GetHousingEvaluation\<close> answers is the summary that \<open>GetHousingOption\<close> attaches to the option on the
  same tables.
\<close>

theorem evaluation_agrees_with_option:
  assumes "srvGetHousingEvaluation e (housingServer e) md (Some raw) w = (Inr ev, w')"
    and "srvGetHousingOption e (housingServer e) md (Some (v, raw)) w1 = (Inr m, w1')" and "wo_db w1 = wo_db w"
    and "uuid_in e (trimSpace raw) = Some (trimSpace raw)" and "distinct (map ho_ID (db_housing_options (wo_db w)))"
  shows "ev_Summary ev = hm_Evaluation m \<and> hm_Id m = trimSpace raw"
proof -
  obtain row f where r: "row \<in> set (db_housing_options (wo_db w))" "uuid_in e (trimSpace raw) = Some (ho_ID row)"
    "uuid_in e (ho_FamilyID row) = Some f" "ev_Summary ev = Some (summaryOf (wo_db w) f (trimSpace raw))"
    by (rule evaluation_exact [OF assms(1)])
  from assms(2) obtain viewer opt v1 v2 where o: "repoGetHousingOption e (trimSpace raw) viewer v1 = (Inr opt, v2)" "m = housingToProto opt"
    and a: "authenticateUserID (Some (srvAuthenticate e)) md w1 = (Inr viewer, v1)"
    unfolding srvGetHousingOption_def server_auth requestActorID_def option.case prod.case mapErr_Inr
    by (elim bindP_InrE) (auto simp: liftE_def dest: requireID_Inr)
  have "wo_db v1 = wo_db w" using preservesD [OF authenticated_kept a] assms(3) by simp
  with givesD [OF option_exact o(1)] obtain row' f' where r': "row' \<in> set (db_housing_options (wo_db w))" "uuid_in e (trimSpace raw) = Some (ho_ID row')"
    "ho_ID opt = ho_ID row'" "uuid_in e (ho_FamilyID row') = Some f'" "ho_Evaluation opt = Some (summaryOf (wo_db w) f' (ho_ID row'))"
    by (auto simp: evaluated_def)
  have "row' = row" using assms(5) r(1,2) r'(1,2) by (simp add: distinct_map inj_on_def)
  with r r' o(2) assms(4) show ?thesis by (simp add: housingToProto_def)
qed

definition eval_world :: world where
  "eval_world = two_families\<lparr>wo_db := (wo_db two_families)\<lparr>db_sessions := [duty_session],
     db_criteria := [\<lparr>cr_Criterion = \<lparr>hc_ID = ''c1'', hc_FamilyID = ''f1'', hc_Name = ''Commute'', hc_Description = [], hc_DisplayOrder = 0,
        hc_Weight = None\<rparr>, cr_DeletedAt = None\<rparr>],
     db_answers := [\<lparr>ar_Answer = example_answer\<lparr>ha_Rating := None\<rparr>, ar_FamilyID = ''f1''\<rparr>]\<rparr>\<rparr>"

lemma eval_replies:
  "(case fst (srvGetHousingEvaluation upper_env (housingServer upper_env) (tokenMetadata ''tok'') (Some ''h1'') eval_world) of
      Inr ev \<Rightarrow> (case ev_Summary ev of Some s \<Rightarrow> es_Completed s = 1 | None \<Rightarrow> False) | Inl _ \<Rightarrow> False)"
  "\<not> isl (fst (srvGetHousingOption upper_env (housingServer upper_env) (tokenMetadata ''tok'') (Some ([], ''h1'')) eval_world))"
  by code_simp+

theorem evaluation_agrees_with_option_witness:
  "\<exists>ev m. fst (srvGetHousingEvaluation upper_env (housingServer upper_env) (tokenMetadata ''tok'') (Some ''h1'') eval_world) = Inr ev
     \<and> fst (srvGetHousingOption upper_env (housingServer upper_env) (tokenMetadata ''tok'') (Some ([], ''h1'')) eval_world) = Inr m
     \<and> ev_Summary ev = hm_Evaluation m \<and> hm_Evaluation m \<noteq> None"
proof -
  obtain ev w' where ev: "srvGetHousingEvaluation upper_env (housingServer upper_env) (tokenMetadata ''tok'') (Some ''h1'') eval_world = (Inr ev, w')"
    using eval_replies(1) by (cases "srvGetHousingEvaluation upper_env (housingServer upper_env) (tokenMetadata ''tok'') (Some ''h1'') eval_world")
      (auto split: sum.splits)
  obtain m w1' where m: "srvGetHousingOption upper_env (housingServer upper_env) (tokenMetadata ''tok'') (Some ([], ''h1'')) eval_world = (Inr m, w1')"
    using eval_replies(2) by (metis isl_def prod.collapse sum.exhaust_sel)
  have "uuid_in upper_env (trimSpace ''h1'') = Some (trimSpace ''h1'')" "distinct (map ho_ID (db_housing_options (wo_db eval_world)))" by code_simp+
  from evaluation_agrees_with_option [OF ev m refl this] ev m eval_replies(1) show ?thesis by (auto split: option.splits)
qed


end
