(* ===== verification/Core_Main.thy ===== *)
theory Core_Main
  imports Platform_Config Server_Rows Server_Reads
begin

text \<open>
  \<open>internal/platform/database/postgres.go\<close> and \<open>cmd/core/main.go\<close> up to the point where the server
  listens: the configuration, the connection pool, the listener, the limiter, the bootstrap of the
  first administrator and the servers. The database driver, the network and the TLS files are
  parameters. The lemmas show what the start leaves in the tables and that the servers it builds
  are the ones the properties of the API are about.
\<close>

section \<open>Start of the program\<close>

record ('c, 'p) driver =
  dr_parseConfig :: "string \<Rightarrow> string + 'c"
  dr_newPool :: "'c \<Rightarrow> string + 'p"
  dr_ping :: "'p \<Rightarrow> string option"

definition Open :: "('c, 'p) driver \<Rightarrow> string \<Rightarrow> string + 'p" where
  "Open dr databaseURL =
     (if databaseURL = [] then Inl ''DATABASE_URL is required''
      else case dr_parseConfig dr databaseURL of Inl err \<Rightarrow> Inl err
      | Inr config \<Rightarrow>
          (case dr_newPool dr config of Inl err \<Rightarrow> Inl err
           | Inr pool \<Rightarrow> (case dr_ping dr pool of Some err \<Rightarrow> Inl err | None \<Rightarrow> Inr pool)))"

record machine =
  ma_getenv :: getenv
  ma_listen :: "string \<Rightarrow> string option"
  ma_loadTLS :: "string \<Rightarrow> string \<Rightarrow> string option"

text \<open>The calls of \<open>os.Exit(1)\<close>.\<close>

datatype exit_reason = ExitDatabase string | ExitListen string | ExitTLS string | ExitBootstrapConfig | ExitBootstrap go_error

record core_servers =
  co_TLS :: bool
  co_auth :: AuthServer
  co_family :: FamilyServer
  co_person :: PersonServer
  co_housing :: HousingServer
  co_dashboard :: DashboardServer

definition argonParams :: "AppConfig \<Rightarrow> Argon2Params" where
  "argonParams cfg = \<lparr>ap_MemoryKB = ac_PasswordMemoryKB cfg, ap_Iterations = ac_PasswordIterations cfg,
     ap_Parallelism = ac_PasswordParallelism cfg, ap_SaltLength = 16, ap_KeyLength = 32\<rparr>"

definition bootstrap :: "env \<Rightarrow> AppConfig \<Rightarrow> (exit_reason, unit) io" where
  "bootstrap e cfg =
     (if (ac_BootstrapAdminEmail cfg = []) \<noteq> (ac_BootstrapAdminPassword cfg = []) then throwP ExitBootstrapConfig
      else if ac_BootstrapAdminEmail cfg \<noteq> []
      then bindP (mapErr ExitBootstrap (svcEnsureBootstrapAdmin e (argonParams cfg) (ac_BootstrapAdminEmail cfg)
                    (ac_BootstrapAdminDisplayName cfg) (ac_BootstrapAdminPassword cfg))) (\<lambda>_. retP ())
      else retP ())"

definition newServers :: "env \<Rightarrow> AppConfig \<Rightarrow> bool \<Rightarrow> core_servers" where
  "newServers e cfg tls =
     \<lparr>co_TLS = tls,
      co_auth = NewAuthServer (argonParams cfg) (ac_SessionTokenBytes cfg) (ac_SessionTTL cfg),
      co_family = NewFamilyServer (7 * 24 * 3600 * 10 ^ 9) [srvAuthenticate e],
      co_person = NewPersonServer [srvAuthenticate e],
      co_housing = NewHousingServer True True [srvAuthenticate e],
      co_dashboard = NewDashboardServer [srvAuthenticate e]\<rparr>"

definition startCore :: "env \<Rightarrow> ('c, 'p) driver \<Rightarrow> machine \<Rightarrow> (exit_reason, core_servers) io" where
  "startCore e dr os =
     (let cfg = Load (ma_getenv os);
          tls = (ac_GRPCTLSCertFile cfg \<noteq> [] \<and> ac_GRPCTLSKeyFile cfg \<noteq> []) in
      case Open dr (ac_DatabaseURL cfg) of Inl err \<Rightarrow> throwP (ExitDatabase err)
      | Inr pool \<Rightarrow>
          (case ma_listen os (ac_GRPCAddr cfg) of Some err \<Rightarrow> throwP (ExitListen err)
           | None \<Rightarrow> (\<lambda>w.
               (case (if tls then ma_loadTLS os (ac_GRPCTLSCertFile cfg) (ac_GRPCTLSKeyFile cfg) else None) of
                  Some err \<Rightarrow> throwP (ExitTLS err)
                | None \<Rightarrow> bindP (bootstrap e cfg) (\<lambda>_. retP (newServers e cfg tls)))
               (w\<lparr>wo_limits := New (ac_AuthLimits cfg)\<rparr>))))"

section \<open>The first administrator\<close>

text \<open>An enabled administrator who has to choose a new password.\<close>

definition freshAdmin :: "env \<Rightarrow> string \<Rightarrow> User \<Rightarrow> bool" where
  "freshAdmin e email u \<longleftrightarrow> us_Email u \<in> {normalEmail e email, normalEmail e (normalEmail e email)} \<and> us_Role u = UserRoleAdmin
     \<and> us_DisabledAt u = None \<and> us_MustChangePassword u"

definition activeAdmin :: "database \<Rightarrow> bool" where
  "activeAdmin d \<longleftrightarrow> list_ex (\<lambda>u. us_Role u = UserRoleAdmin \<and> us_DisabledAt u = None) (db_users d)"

definition onlyUsers :: "database \<Rightarrow> database \<Rightarrow> bool" where
  "onlyUsers d d' \<longleftrightarrow> d' = d\<lparr>db_users := db_users d'\<rparr>"

lemma onlyUsers_refl [simp]: "onlyUsers d d"
  by (simp add: onlyUsers_def)

lemma repoHasActiveAdmin_Inr: "repoHasActiveAdmin e w = (Inr b, w') \<Longrightarrow> wo_db w' = wo_db w \<and> (b \<longleftrightarrow> activeAdmin (wo_db w))"
  unfolding repoHasActiveAdmin_def activeAdmin_def by (erule query_Inr) simp

lemma repoPromote_Inr:
  assumes "repoPromoteToBootstrapAdmin e userID name hash w = (Inr u, w')" and "uuid_in e userID = Some userID"
    and "v \<in> set (db_users (wo_db w))" "us_ID v = userID" "us_Email v = normalEmail e (normalEmail e email)"
  shows "onlyUsers (wo_db w) (wo_db w') \<and> list_ex (freshAdmin e email) (db_users (wo_db w'))"
proof -
  define f where "f = (\<lambda>u. u\<lparr>us_Role := ''admin'', us_DisplayName := (if trimSpace name = [] then us_DisplayName u else trimSpace name),
      us_PasswordHash := hash, us_MustChangePassword := True, us_DisabledAt := None, us_UpdatedAt := dbNow e (wo_tick w)\<rparr> :: User)"
  have d: "wo_db w' = (wo_db w)\<lparr>db_users := updateRows (\<lambda>u. us_ID u = userID) f (db_users (wo_db w))\<rparr>"
    using query_InrD [OF assms(1) [unfolded repoPromoteToBootstrapAdmin_def]] assms(2)
    by (auto simp: bindS_Inr castUUID_Inr Let_def f_def)
  have "f v \<in> set (db_users (wo_db w'))" using assms(3,4) by (auto simp: d updateRows_def)
  moreover have "freshAdmin e email (f v)" using assms(5) by (simp add: freshAdmin_def f_def)
  ultimately show ?thesis using d by (auto simp: onlyUsers_def list_ex_iff)
qed

lemma repoCreateUser_Inr:
  assumes "repoCreateUser e user w = (Inr u, w')" and "us_Role user = UserRoleAdmin" "us_MustChangePassword user"
    "us_Email user = normalEmail e email"
  shows "onlyUsers (wo_db w) (wo_db w') \<and> list_ex (freshAdmin e email) (db_users (wo_db w'))"
proof -
  have "\<exists>row. wo_db w' = (wo_db w)\<lparr>db_users := db_users (wo_db w) @ [row]\<rparr> \<and> freshAdmin e email row"
    using query_InrD [OF assms(1) [unfolded repoCreateUser_def]] assms(2-4)
    by (auto simp: bindS_Inr Let_def freshAdmin_def intro: sym)
  then show ?thesis by (auto simp: onlyUsers_def)
qed

lemma bootstrap_tail_Inr:
  assumes "(case repoGetUserByEmail e (normalEmail e email) w of
        (Inr existing, w') \<Rightarrow> bindP (repoPromoteToBootstrapAdmin e (us_ID existing) name hash) (\<lambda>u. retP (Some u)) w'
      | (Inl err, w') \<Rightarrow>
          if err \<noteq> ErrNotFound then (Inl err, w')
          else bindP (repoCreateUser e \<lparr>us_ID = [], us_Email = normalEmail e email, us_DisplayName = name, us_Role = UserRoleAdmin,
                 us_PasswordHash = hash, us_MustChangePassword = True, us_DisabledAt = None,
                 us_CreatedAt = 0, us_UpdatedAt = 0\<rparr>) (\<lambda>u. retP (Some u)) w') = (Inr r, w')"
    and "\<forall>u\<in>set (db_users (wo_db w)). uuid_in e (us_ID u) = Some (us_ID u)"
  shows "onlyUsers (wo_db w) (wo_db w') \<and> list_ex (freshAdmin e email) (db_users (wo_db w'))"
proof -
  obtain q w1 where q: "repoGetUserByEmail e (normalEmail e email) w = (q, w1)" by fastforce
  have db: "wo_db w1 = wo_db w" using preservesD [OF db_kept_reads(2) q] .
  show ?thesis
  proof (cases q)
    case (Inr v)
    with assms(1) q obtain u where p: "repoPromoteToBootstrapAdmin e (us_ID v) name hash w1 = (Inr u, w')" by (auto elim!: bindP_InrE)
    from repoGetUserByEmail_Inr [OF q [unfolded Inr]] db have v: "v \<in> set (db_users (wo_db w1))" "us_Email v = normalEmail e (normalEmail e email)"
      by simp_all
    with assms(2) db have "uuid_in e (us_ID v) = Some (us_ID v)" by simp
    from repoPromote_Inr [OF p this v(1) _ v(2)] db show ?thesis by simp
  next
    case (Inl err)
    with assms(1) q obtain u where "repoCreateUser e \<lparr>us_ID = [], us_Email = normalEmail e email, us_DisplayName = name, us_Role = UserRoleAdmin,
                 us_PasswordHash = hash, us_MustChangePassword = True, us_DisabledAt = None, us_CreatedAt = 0, us_UpdatedAt = 0\<rparr> w1 = (Inr u, w')"
      by (auto split: if_splits elim!: bindP_InrE)
    from repoCreateUser_Inr [OF this] db show ?thesis by simp
  qed
qed

lemma svcEnsureBootstrapAdmin_Inr:
  assumes "svcEnsureBootstrapAdmin e params email name pw w = (Inr r, w')"
    and "\<forall>u\<in>set (db_users (wo_db w)). uuid_in e (us_ID u) = Some (us_ID u)"
  shows "onlyUsers (wo_db w) (wo_db w') \<and> (if activeAdmin (wo_db w) then wo_db w' = wo_db w else list_ex (freshAdmin e email) (db_users (wo_db w')))"
proof -
  let ?name = "if trimSpace name = [] then ''Bootstrap Admin'' else trimSpace name"
  let ?rest = "\<lambda>hash w. case repoGetUserByEmail e (normalEmail e email) w of
        (Inr existing, w') \<Rightarrow> bindP (repoPromoteToBootstrapAdmin e (us_ID existing) ?name hash) (\<lambda>u. retP (Some u)) w'
      | (Inl err, w') \<Rightarrow>
          if err \<noteq> ErrNotFound then (Inl err, w')
          else bindP (repoCreateUser e \<lparr>us_ID = [], us_Email = normalEmail e email, us_DisplayName = ?name, us_Role = UserRoleAdmin,
                 us_PasswordHash = hash, us_MustChangePassword = True, us_DisabledAt = None,
                 us_CreatedAt = 0, us_UpdatedAt = 0\<rparr>) (\<lambda>u. retP (Some u)) w'"
  have "\<not> (normalEmail e email = [] \<or> trimSpace pw = [])" using assms(1) by (auto simp: svcEnsureBootstrapAdmin_def Let_def)
  with assms(1) have run: "bindP (repoHasActiveAdmin e) (\<lambda>hasAdmin. if hasAdmin then retP None
      else bindP (acquireP e) (\<lambda>_. withSlot (bindP (hashP e params (trimSpace pw)) ?rest))) w = (Inr r, w')"
    by (simp add: svcEnsureBootstrapAdmin_def Let_def)
  then obtain b w1 where b: "repoHasActiveAdmin e w = (Inr b, w1)" and k: "(if b then retP None
      else bindP (acquireP e) (\<lambda>_. withSlot (bindP (hashP e params (trimSpace pw)) ?rest))) w1 = (Inr r, w')"
    by (rule bindP_InrE)
  note has = repoHasActiveAdmin_Inr [OF b]
  show ?thesis
  proof (cases b)
    case True
    with k have "w' = w1" by simp
    with has True show ?thesis by simp
  next
    case False
    with k have "bindP (acquireP e) (\<lambda>_. withSlot (bindP (hashP e params (trimSpace pw)) ?rest)) w1 = (Inr r, w')" by simp
    then obtain x w2 where a: "acquireP e w1 = (Inr x, w2)" "withSlot (bindP (hashP e params (trimSpace pw)) ?rest) w2 = (Inr r, w')"
      by (rule bindP_InrE)
    from a(2) obtain v where v: "bindP (hashP e params (trimSpace pw)) ?rest w2 = (Inr r, v)" "wo_db w' = wo_db v" by (rule withSlot_Inr)
    from v(1) obtain hash w3 where h: "hashP e params (trimSpace pw) w2 = (Inr hash, w3)" "?rest hash w3 = (Inr r, v)" by (rule bindP_InrE)
    have db: "wo_db w3 = wo_db w"
      using preservesD [OF db_kept_basic(3) h(1)] preservesD [OF db_kept_acquire a(1)] has by simp
    with bootstrap_tail_Inr [OF h(2)] assms(2) v(2) has False show ?thesis by simp
  qed
qed

lemma startCore_Inr:
  assumes "startCore e dr os w = (Inr servers, w')"
  obtains tls where "servers = newServers e (Load (ma_getenv os)) tls"
    and "bootstrap e (Load (ma_getenv os)) (w\<lparr>wo_limits := New (ac_AuthLimits (Load (ma_getenv os)))\<rparr>) = (Inr (), w')"
  using assms unfolding startCore_def Let_def
  by (auto split: sum.splits option.splits if_splits elim!: bindP_InrE intro: that)

section \<open>Properties\<close>

text \<open>
  Property C37: the start leaves an administrator behind. When the program has started on tables whose
  user ids are in normal form, email and password of the bootstrap were given together or not at
  all; nothing but the users table has changed; without a bootstrap account, or with an enabled
  administrator already there, nothing has changed at all; otherwise there is an enabled
  administrator with the configured email who has to change the password. The servers it runs
  authenticate by session.
\<close>

theorem start_bootstraps_admin:
  assumes "startCore e dr os w = (Inr servers, w')" and "\<forall>u\<in>set (db_users (wo_db w)). uuid_in e (us_ID u) = Some (us_ID u)"
    and "cfg = Load (ma_getenv os)"
  shows "(ac_BootstrapAdminEmail cfg = []) = (ac_BootstrapAdminPassword cfg = []) \<and> onlyUsers (wo_db w) (wo_db w')
    \<and> (if ac_BootstrapAdminEmail cfg = [] \<or> activeAdmin (wo_db w) then wo_db w' = wo_db w
       else list_ex (freshAdmin e (ac_BootstrapAdminEmail cfg)) (db_users (wo_db w')))
    \<and> fs_auth (co_family servers) = Some (srvAuthenticate e) \<and> co_person servers = personServer e \<and> co_housing servers = housingServer e
    \<and> co_dashboard servers = NewDashboardServer [srvAuthenticate e]"
proof -
  let ?w = "w\<lparr>wo_limits := New (ac_AuthLimits cfg)\<rparr>"
  from assms(1) obtain tls where s: "servers = newServers e cfg tls" and b: "bootstrap e cfg ?w = (Inr (), w')"
    unfolding assms(3) by (rule startCore_Inr)
  have both: "(ac_BootstrapAdminEmail cfg = []) = (ac_BootstrapAdminPassword cfg = [])"
    using b by (auto simp: bootstrap_def split: if_splits)
  have "onlyUsers (wo_db w) (wo_db w') \<and> (if ac_BootstrapAdminEmail cfg = [] \<or> activeAdmin (wo_db w) then wo_db w' = wo_db w
       else list_ex (freshAdmin e (ac_BootstrapAdminEmail cfg)) (db_users (wo_db w')))"
  proof (cases "ac_BootstrapAdminEmail cfg = []")
    case True
    with b both have "w' = ?w" by (simp add: bootstrap_def)
    with True show ?thesis by simp
  next
    case False
    with b both obtain r where "svcEnsureBootstrapAdmin e (argonParams cfg) (ac_BootstrapAdminEmail cfg)
        (ac_BootstrapAdminDisplayName cfg) (ac_BootstrapAdminPassword cfg) ?w = (Inr r, w')"
      by (auto simp: bootstrap_def mapErr_Inr elim!: bindP_InrE)
    from svcEnsureBootstrapAdmin_Inr [OF this] assms(2) False show ?thesis by simp
  qed
  with both s show ?thesis by (simp add: newServers_def NewFamilyServer_def NewPersonServer_def housingServer_def)
qed

definition first_machine :: machine where
  "first_machine = \<lparr>ma_getenv = (\<lambda>k. if k = ''DATABASE_URL'' then ''db'' else if k = ''BOOTSTRAP_ADMIN_EMAIL'' then ''Root@x.sg''
       else if k = ''BOOTSTRAP_ADMIN_PASSWORD'' then ''pw'' else []), ma_listen = (\<lambda>_. None), ma_loadTLS = (\<lambda>_ _. None)\<rparr>"

definition first_driver :: "(string, string) driver" where
  "first_driver = \<lparr>dr_parseConfig = Inr, dr_newPool = Inr, dr_ping = (\<lambda>_. None)\<rparr>"

definition first_world :: world where
  "first_world = example_world\<lparr>wo_db := emptyDB\<rparr>"

lemma first_config:
  "ac_DatabaseURL (Load (ma_getenv first_machine)) = ''db''" "ac_BootstrapAdminEmail (Load (ma_getenv first_machine)) = ''Root@x.sg''"
  "ac_BootstrapAdminPassword (Load (ma_getenv first_machine)) = ''pw''"
  "ac_GRPCTLSCertFile (Load (ma_getenv first_machine)) = []" "ac_PasswordMemoryKB (Load (ma_getenv first_machine)) = 65536"
  by (simp_all add: Load_def first_machine_def envText_def envInt_def trimSpace_code alnum_def toUint_def)

lemma first_limits:
  "0 < cf_MaxConcurrent (li_cfg (New (ac_AuthLimits (Load (ma_getenv first_machine)))))" "li_slots (New cfg) = 0"
  by (simp_all add: New_def applyDefaults_def Let_def)

lemma first_admin:
  assumes "wo_db w = emptyDB" "0 < cf_MaxConcurrent (li_cfg (wo_limits w))" "li_slots (wo_limits w) = 0" "ap_MemoryKB params \<noteq> 0"
  shows "\<exists>r w'. svcEnsureBootstrapAdmin example_env params ''Root@x.sg'' name ''pw'' w = (Inr r, w')"
proof -
  have texts: "normalEmail example_env ''Root@x.sg'' = ''root@x.sg''" "trimSpace ''pw'' = ''pw''" by code_simp+
  have env: "fault_at example_env n = None" "ctx_at example_env n = None" "rand_at example_env n k = Inr (replicate k (CHR ''r''))" for n k
    by (simp_all add: example_env_def)
  have users: "db_users emptyDB = []" by (simp add: emptyDB_def)
  show ?thesis
    by (simp add: svcEnsureBootstrapAdmin_def texts Let_def bindP_def repoHasActiveAdmin_def query_def mapErr_def sql_def env assms users
        acquireP_def ctxErr_def Acquire_def withSlot_def hashP_def HashPassword_def repoGetUserByEmail_def firstRow_def bindS_def
        normalizeError_def repoCreateUser_def checkS_def retP_def)
qed

lemma first_start: "\<exists>servers w'. startCore example_env first_driver first_machine first_world = (Inr servers, w')"
proof -
  let ?cfg = "Load (ma_getenv first_machine)"
  have "wo_db (first_world\<lparr>wo_limits := New (ac_AuthLimits ?cfg)\<rparr>) = emptyDB"
    "0 < cf_MaxConcurrent (li_cfg (wo_limits (first_world\<lparr>wo_limits := New (ac_AuthLimits ?cfg)\<rparr>)))"
    "li_slots (wo_limits (first_world\<lparr>wo_limits := New (ac_AuthLimits ?cfg)\<rparr>)) = 0" "ap_MemoryKB (argonParams ?cfg) \<noteq> 0"
    using first_limits by (simp_all add: first_world_def argonParams_def first_config)
  from first_admin [OF this] obtain r w' where "svcEnsureBootstrapAdmin example_env (argonParams ?cfg) ''Root@x.sg'' (ac_BootstrapAdminDisplayName ?cfg) ''pw''
      (first_world\<lparr>wo_limits := New (ac_AuthLimits ?cfg)\<rparr>) = (Inr r, w')" by blast
  then have "bootstrap example_env ?cfg (first_world\<lparr>wo_limits := New (ac_AuthLimits ?cfg)\<rparr>) = (Inr (), w')"
    by (simp add: bootstrap_def first_config bindP_def mapErr_def retP_def)
  moreover have "Open first_driver ''db'' = Inr ''db''" by (simp add: Open_def first_driver_def)
  moreover have "ma_listen first_machine a = None" for a by (simp add: first_machine_def)
  ultimately show ?thesis by (simp add: startCore_def first_config Let_def bindP_def retP_def)
qed

theorem start_bootstraps_admin_witness:
  "\<exists>servers w'. startCore example_env first_driver first_machine first_world = (Inr servers, w')
     \<and> list_ex (freshAdmin example_env ''Root@x.sg'') (db_users (wo_db w'))"
proof -
  obtain servers w' where s: "startCore example_env first_driver first_machine first_world = (Inr servers, w')" using first_start by blast
  have "\<not> activeAdmin (wo_db first_world)" "db_users (wo_db first_world) = []" by (simp_all add: activeAdmin_def first_world_def emptyDB_def)
  with start_bootstraps_admin [OF s _ refl] s show ?thesis by (simp add: first_config)
qed

end
