(* ===== verification/Server_Frames.thy ===== *)
theory Server_Frames
  imports Server_Rows
begin

text \<open>
  Requests for people and housing stay away from the tables of accounts and families: each
  repository method behind them keeps those six tables as they are, so by the contract
  \<open>household_law\<close> every handler does.
\<close>

section \<open>The tables of accounts and families\<close>

definition accountTables :: "database \<Rightarrow> User list \<times> session list \<times> admin_key list \<times> Family list \<times> family_member list \<times> family_invite list" where
  "accountTables d = (db_users d, db_sessions d, db_admin_access_keys d, db_families d, db_family_members d, db_family_invites d)"

abbreviation aside :: "User list \<times> session list \<times> admin_key list \<times> Family list \<times> family_member list \<times> family_invite list \<Rightarrow> ('e, 'a) io \<Rightarrow> bool" where
  "aside c m \<equiv> keeps (\<lambda>d. accountTables d = c) m"

lemma accountTables_update [simp]:
  "accountTables (d\<lparr>db_person_profiles := ps\<rparr>) = accountTables d" "accountTables (d\<lparr>db_person_income_history := hs\<rparr>) = accountTables d"
  "accountTables (d\<lparr>db_housing_groups := gs\<rparr>) = accountTables d" "accountTables (d\<lparr>db_housing_options := os\<rparr>) = accountTables d"
  "accountTables (d\<lparr>db_criteria := cs\<rparr>) = accountTables d" "accountTables (d\<lparr>db_answers := as\<rparr>) = accountTables d"
  by (simp_all add: accountTables_def)

lemma aside_query: "(\<And>n d x d'. st n d = Inr (x, d') \<Longrightarrow> accountTables d' = accountTables d) \<Longrightarrow> aside c (query e st)"
  by (rule keeps_query) simp

lemma aside_sql: "(\<And>n d x d'. st n d = Inr (x, d') \<Longrightarrow> accountTables d' = accountTables d) \<Longrightarrow> aside c (sql e st)"
  by (rule keeps_sql) simp

section \<open>Repositories\<close>

lemma people_statements:
  "insertPerson e history linked p n d = Inr (x, d') \<Longrightarrow> accountTables d' = accountTables d"
  "updatePerson e history linked' p actor n d = Inr (y, d') \<Longrightarrow> accountTables d' = accountTables d"
  "deletePerson e i actor n d = Inr (z, d') \<Longrightarrow> accountTables d' = accountTables d"
  by (auto simp: insertPerson_def updatePerson_def deletePerson_def Let_def bindS_Inr)

lemma people_aside:
  "aside c (repoCreatePersonProfile e p actor)" "aside c (repoUpdatePersonProfile e p actor)"
  "aside c (repoDeletePersonProfile e i actor)"
  unfolding repoCreatePersonProfile_def repoUpdatePersonProfile_def repoDeletePersonProfile_def Let_def
  by (intro row_rules preserves_if preserves_catch frame_rel_invariant aside_sql aside_query; erule people_statements)+

lemma updateOption_aside: "updateOption e i actor ok f n d = Inr (x, d') \<Longrightarrow> accountTables d' = accountTables d"
  by (auto simp: updateOption_def Let_def bindS_Inr)

lemma option_statements:
  "insertOption e h n d = Inr (x, d') \<Longrightarrow> accountTables d' = accountTables d"
  "deleteOption e i actor n d = Inr (z, d') \<Longrightarrow> accountTables d' = accountTables d"
  by (auto simp: insertOption_def deleteOption_def Let_def bindS_Inr)

lemma option_updates:
  "writeOption e h actor n d = Inr (x, d') \<Longrightarrow> accountTables d' = accountTables d"
  "assignGroup e i t gf actor n d = Inr (x, d') \<Longrightarrow> accountTables d' = accountTables d"
  by (auto simp: writeOption_def assignGroup_def bindS_Inr elim!: updateOption_aside)

lemma options_aside:
  "aside c (repoCreateHousingOption e h actor)" "aside c (repoUpdateHousingOption e h actor)"
  "aside c (repoDeleteHousingOption e i actor)" "aside c (repoUpdateHousingOptionVisibility e i v actor)"
  "aside c (repoAssignHousingOptionGroup e i t actor)" "aside c (repoUpdateHousingNotes e i notes actor)"
  unfolding repoCreateHousingOption_def repoUpdateHousingOption_def repoDeleteHousingOption_def repoUpdateHousingOptionVisibility_def
    repoAssignHousingOptionGroup_def repoUpdateHousingNotes_def Let_def
  by (intro row_rules preserves_if preserves_case_option aside_query; erule option_statements option_updates updateOption_aside)+

lemma group_statements:
  "insertGroup e g n d = Inr (x, d') \<Longrightarrow> accountTables d' = accountTables d"
  "updateGroup e g actor n d = Inr (x, d') \<Longrightarrow> accountTables d' = accountTables d"
  "deleteGroup e i n d = Inr (z, d') \<Longrightarrow> accountTables d' = accountTables d"
  "showGroup e i v n d = Inr (y, d') \<Longrightarrow> accountTables d' = accountTables d"
  by (auto simp: insertGroup_def updateGroup_def deleteGroup_def showGroup_def Let_def bindS_Inr)

lemma groups_aside:
  "aside c (repoCreateHousingGroup e g actor)" "aside c (repoUpdateHousingGroup e g actor)"
  "aside c (repoDeleteHousingGroup e i actor)" "aside c (repoBulkUpdateHousingGroupVisibility e i v actor)"
  unfolding repoCreateHousingGroup_def repoUpdateHousingGroup_def repoDeleteHousingGroup_def repoBulkUpdateHousingGroupVisibility_def
  by (intro row_rules preserves_if aside_query; erule group_statements)+

lemma checklist_statements_aside:
  "lockFamily e f n d = Inr (x, d') \<Longrightarrow> accountTables d' = accountTables d"
  "insertCriterion e k n d = Inr (x2, d') \<Longrightarrow> accountTables d' = accountTables d"
  "updateCriterion e k n d = Inr (x3, d') \<Longrightarrow> accountTables d' = accountTables d"
  "retireCriterion e i f t n d = Inr (x4, d') \<Longrightarrow> accountTables d' = accountTables d"
  "setOrder e i o' n d = Inr (x5, d') \<Longrightarrow> accountTables d' = accountTables d"
  "answerFamily e a actor n d = Inr (x6, d') \<Longrightarrow> accountTables d' = accountTables d"
  "upsertAnswer e a f n d = Inr (x7, d') \<Longrightarrow> accountTables d' = accountTables d"
  by (auto simp: lockFamily_def insertCriterion_def updateCriterion_def retireCriterion_def setOrder_def answerFamily_def upsertAnswer_def
      Let_def bindS_Inr split: if_splits)

lemma order_aside: "aside c (writeChecklistOrder e i ids)"
  by (induction ids arbitrary: i) (auto intro!: row_rules aside_query elim!: checklist_statements_aside)

lemma ids_aside: "aside c (checklistIDs e f)"
  unfolding checklistIDs_def by (rule aside_query) (auto simp: bindS_Inr)

lemma checklist_aside:
  "aside c (repoSaveHousingCriterion e k actor)" "aside c (repoDeleteHousingCriterion e f i actor)"
  "aside c (repoReorderHousingCriteria e f ids actor)" "aside c (repoSaveHousingAnswer e a actor)"
  unfolding repoSaveHousingCriterion_def repoDeleteHousingCriterion_def repoReorderHousingCriteria_def repoSaveHousingAnswer_def
    checklistTransaction_def Let_def
  by (intro row_rules preserves_if preserves_case_option order_aside ids_aside aside_query; erule checklist_statements_aside)+

interpretation aside: household_law e "\<lambda>d. accountTables d = c" for e c
  by unfold_locales (intro people_aside options_aside groups_aside checklist_aside)+

lemma household_aside: "accountTables (wo_db (runApi e md r w)) = accountTables (wo_db w)"
  by (rule aside.run_keeps) simp

end
