(* ===== verification/Core_Service.thy ===== *)
theory Core_Service
  imports Core_Main Server_Frames
begin

text \<open>
  The running program: the services that \<open>cmd/core/main.go\<close> registers, behind the interceptor, as one
  state machine whose steps are requests. A predicate on the tables that satisfies the contract
  \<open>service_law\<close> holds after every run; the interpretations discharge the contract for the
  integrity of the tables and for facts about single users, keys and memberships.
\<close>

section \<open>Requests\<close>

text \<open>The methods of the seven registered services, apart from the calculators, which have no state.
  The writes of the people and housing services are those of \<open>apiRequest\<close>.\<close>

datatype rpc =
    RpcLogin "(string \<times> string) option"
  | RpcCreateUser "(string \<times> string \<times> string \<times> string) option"
  | RpcChangePassword "(string \<times> string) option"
  | RpcValidateSession "string option"
  | RpcUpdateMyAccount "(string \<times> string) option"
  | RpcGenerateAdminAccessKey
  | RpcConsumeAdminAccessKey "string option"
  | RpcListUsers
  | RpcDisableUser "string option"
  | RpcCreateFamily "(string \<times> string \<times> string) option"
  | RpcGetFamily "(string \<times> string) option"
  | RpcListUserFamilies "string option"
  | RpcJoinFamilyByCode "(string \<times> string) option"
  | RpcGenerateFamilyJoinCode "(string \<times> string) option"
  | RpcListFamilyMembers "(string \<times> string) option"
  | RpcGetPersonProfile "(string \<times> string) option"
  | RpcListPersonProfiles "(string \<times> string) option"
  | RpcListIncomeHistory "(string \<times> string) option"
  | RpcGetHousingOption "(string \<times> string) option"
  | RpcListHousingOptions "(string \<times> string) option"
  | RpcListHousingGroups "(string \<times> string) option"
  | RpcEstimateHousingGrant "(string \<times> string \<times> string) option"
  | RpcListHousingCriteria "string option"
  | RpcGetHousingEvaluation "string option"
  | RpcGetHouseholdDashboard "(string \<times> string) option"
  | RpcHousehold apiRequest

text \<open>The world after a request; only the first three methods are limited by the interceptor.\<close>

fun serve :: "env \<Rightarrow> float_env \<Rightarrow> core_servers \<Rightarrow> string option \<Rightarrow> metadata \<Rightarrow> rpc \<Rightarrow> world \<Rightarrow> world" where
  "serve e fe sv peer md (RpcLogin q) w
     = snd (AuthRateLimitInterceptor e ''/ournezt.v1.AuthService/Login'' peer (srvLogin e (co_auth sv) q) w)"
| "serve e fe sv peer md (RpcCreateUser q) w
     = snd (AuthRateLimitInterceptor e ''/ournezt.v1.AuthService/CreateUser'' peer (srvCreateUser e (co_auth sv) md q) w)"
| "serve e fe sv peer md (RpcChangePassword q) w
     = snd (AuthRateLimitInterceptor e ''/ournezt.v1.AuthService/ChangePassword'' peer (srvChangePassword e (co_auth sv) md q) w)"
| "serve e fe sv peer md (RpcValidateSession q) w = snd (srvValidateSession e q w)"
| "serve e fe sv peer md (RpcUpdateMyAccount q) w = snd (srvUpdateMyAccount e md q w)"
| "serve e fe sv peer md RpcGenerateAdminAccessKey w = snd (srvGenerateAdminAccessKey e (co_auth sv) md w)"
| "serve e fe sv peer md (RpcConsumeAdminAccessKey q) w = snd (srvConsumeAdminAccessKey e md q w)"
| "serve e fe sv peer md RpcListUsers w = snd (srvListUsers e md w)"
| "serve e fe sv peer md (RpcDisableUser q) w = snd (srvDisableUser e md q w)"
| "serve e fe sv peer md (RpcCreateFamily q) w = snd (srvCreateFamily e (co_family sv) md q w)"
| "serve e fe sv peer md (RpcGetFamily q) w = snd (srvGetFamily e (co_family sv) md q w)"
| "serve e fe sv peer md (RpcListUserFamilies u) w = snd (srvListUserFamilies e (co_family sv) md u w)"
| "serve e fe sv peer md (RpcJoinFamilyByCode q) w = snd (srvJoinFamilyByCode e (co_family sv) md q w)"
| "serve e fe sv peer md (RpcGenerateFamilyJoinCode q) w = snd (srvGenerateFamilyJoinCode e (co_family sv) md q w)"
| "serve e fe sv peer md (RpcListFamilyMembers q) w = snd (srvListFamilyMembers e (co_family sv) md q w)"
| "serve e fe sv peer md (RpcGetPersonProfile q) w = snd (srvGetPersonProfile e (co_person sv) md q w)"
| "serve e fe sv peer md (RpcListPersonProfiles q) w = snd (srvListPersonProfilesByFamily e (co_person sv) md q w)"
| "serve e fe sv peer md (RpcListIncomeHistory q) w = snd (srvListIncomeHistoryByFamily e (co_person sv) md q w)"
| "serve e fe sv peer md (RpcGetHousingOption q) w = snd (srvGetHousingOption e (co_housing sv) md q w)"
| "serve e fe sv peer md (RpcListHousingOptions q) w = snd (srvListHousingOptions e (co_housing sv) md q w)"
| "serve e fe sv peer md (RpcListHousingGroups q) w = snd (srvListHousingGroups e (co_housing sv) md q w)"
| "serve e fe sv peer md (RpcEstimateHousingGrant g) w = snd (srvEstimateHousingGrant e (co_housing sv) md g w)"
| "serve e fe sv peer md (RpcListHousingCriteria c) w = snd (srvListHousingCriteria e (co_housing sv) md c w)"
| "serve e fe sv peer md (RpcGetHousingEvaluation c) w = snd (srvGetHousingEvaluation e (co_housing sv) md c w)"
| "serve e fe sv peer md (RpcGetHouseholdDashboard q) w = snd (srvGetHouseholdDashboard e fe (co_dashboard sv) md q w)"
| "serve e fe sv peer md (RpcHousehold r) w = runApi e md r w"

text \<open>A run: requests one after the other, and time in between.\<close>

inductive service_run :: "env \<Rightarrow> float_env \<Rightarrow> core_servers \<Rightarrow> world \<Rightarrow> world \<Rightarrow> bool" for e fe sv w where
  listening: "service_run e fe sv w w"
| request: "service_run e fe sv w v \<Longrightarrow> service_run e fe sv w (serve e fe sv peer md r v)"
| waiting: "service_run e fe sv w v \<Longrightarrow> wo_tick v \<le> n \<Longrightarrow> service_run e fe sv w (v\<lparr>wo_tick := n\<rparr>)"

inductive_cases service_runE: "service_run e fe sv w w'"

lemma new_servers [simp]:
  "fs_auth (co_family (newServers e cfg tls)) = Some (srvAuthenticate e)" "co_person (newServers e cfg tls) = personServer e"
  "co_housing (newServers e cfg tls) = housingServer e" "co_dashboard (newServers e cfg tls) = Some (srvAuthenticate e)"
  by (simp_all add: newServers_def NewPersonServer_def housingServer_def NewDashboardServer_def)

section \<open>Reads\<close>

lemma auth_kept [row_rules]:
  "keeps I (srvAuthenticate e md)" "keeps I (authenticatedAdmin (Some (srvAuthenticate e)) md)"
  unfolding authenticatedAdmin_def option.case by (intro keeps_kept preserve_rules frame_rel_eq srvAuthenticate_kept)+

lemma reads_kept:
  "db_kept (repoGetFamily e f u)" "db_kept (repoListFamilyMembers e u f)" "db_kept (repoGetPersonProfile e p u)"
  "db_kept (repoListPersonProfilesByFamily e f u)" "db_kept (repoListPersonIncomeHistoryByFamily e f u)" "db_kept (repoGetHousingOption e h u)"
  "db_kept (repoListHousingOptions e f u)" "db_kept (repoListHousingGroups e f u)" "db_kept (repoListUserFamilies e u)"
  "db_kept (repoListHousingCriteria e f u)" "db_kept (repoListHousingAnswers e f u)"
  by (rule gives_db_kept, rule read_family read_members read_person read_people read_history read_option read_options read_groups read_user_families
        read_criteria read_answers)+

lemmas keeps_read = reads_kept [THEN keeps_kept]

lemma user_reads_kept [row_rules]:
  "keeps I (repoGetUserByEmail e email)" "keeps I (repoGetUserByID e i)" "keeps I (repoListUsers e)" "keeps I (repoGetUserBySessionTokenHash e tok t)"
  by (rule keeps_kept, rule db_kept_reads)+

lemma work_kept [row_rules]:
  "keeps I (beginPasswordWork e account)" "keeps I (acquireP e)" "keeps I (hashP e params pw)" "keeps I (tokenP e n)" "keeps I (nowP e)"
  by (rule keeps_kept, rule db_kept_begin db_kept_acquire db_kept_basic)+

lemma code_kept [row_rules]: "keeps I (joinCodeP e n)"
  by (simp add: preserves_def joinCodeP_def)

lemma liftE_kept [row_rules]: "keeps I (liftE r)"
  by (rule keeps_kept) (rule preserves_lift, simp)

lemma slot_kept [row_rules]: "keeps I m \<Longrightarrow> keeps I (withSlot m)"
  by (simp add: preserves_def withSlot_def case_prod_beta Let_def)

lemma limited_kept: "keeps I h \<Longrightarrow> keeps I (AuthRateLimitInterceptor e m peer h)"
  unfolding preserves_def AuthRateLimitInterceptor_def bindP_def nowP_def by (auto simp: Let_def split: prod.split)

section \<open>Laws of the tables\<close>

text \<open>What a predicate on the tables has to satisfy to hold in every run: each method of the account
  and family repositories that a handler calls keeps it, and so do the requests for households.\<close>

locale service_law =
  fixes e :: env and I :: "database \<Rightarrow> bool"
  assumes account_law: "keeps I (repoCreateUser e u)" "keeps I (repoDisableUser e i)" "keeps I (repoCreateSession e i tok t)"
      "keeps I (repoUpdateUserPassword e i h b)" "keeps I (repoUpdateUserAccount e i em n)" "keeps I (repoCreateAdminAccessKey e i tok t)"
      "keeps I (repoConsumeAdminAccessKey e i tok t)" "keeps I (repoRevokeSessionsByUserID e i)"
    and family_law: "keeps I (repoCreateFamily e fam i)" "keeps I (repoJoinFamilyByCode e i tok)" "keeps I (repoGenerateFamilyJoinCode e i f tok x)"
    and household_law: "I (wo_db w) \<Longrightarrow> I (wo_db (runApi e md r w))"
begin

lemma services:
  "keeps I (svcCreateUser e params em n pw role)" "keeps I (svcLogin e em pw)" "keeps I (svcChangePassword e params i pw pw')"
  "keeps I (svcUpdateMyAccount e i em n)" "keeps I (svcGenerateAdminAccessKey e i k ttl now)" "keeps I (svcConsumeAdminAccessKey e i key now)"
  "keeps I (svcDisableUser e i)" "keeps I (svcListUsers e)"
  unfolding svcCreateUser_def svcLogin_def svcChangePassword_def svcUpdateMyAccount_def svcGenerateAdminAccessKey_def svcConsumeAdminAccessKey_def
    svcDisableUser_def svcListUsers_def Let_def
  by (intro account_law row_rules preserves_if)+

lemma account_handlers:
  "keeps I (srvCreateUser e s md q)" "keeps I (srvLogin e s q')" "keeps I (srvValidateSession e u)" "keeps I (srvChangePassword e s md q')"
  "keeps I (srvUpdateMyAccount e md q')" "keeps I (srvGenerateAdminAccessKey e s md)" "keeps I (srvConsumeAdminAccessKey e md u)"
  "keeps I (srvListUsers e md)" "keeps I (srvDisableUser e md u)"
  unfolding srvCreateUser_def srvLogin_def srvValidateSession_def srvChangePassword_def srvUpdateMyAccount_def srvGenerateAdminAccessKey_def
    srvConsumeAdminAccessKey_def srvListUsers_def srvDisableUser_def
  by (intro account_law services row_rules preserves_if preserves_case_option)+

lemma family_handlers:
  assumes "fs_auth s = Some (srvAuthenticate e)"
  shows "keeps I (srvCreateFamily e s md q)" "keeps I (srvGetFamily e s md q')" "keeps I (srvListUserFamilies e s md u)"
    "keeps I (srvJoinFamilyByCode e s md q')" "keeps I (srvGenerateFamilyJoinCode e s md q')" "keeps I (srvListFamilyMembers e s md q')"
  unfolding srvCreateFamily_def srvGetFamily_def srvListUserFamilies_def srvJoinFamilyByCode_def srvGenerateFamilyJoinCode_def
    srvListFamilyMembers_def assms Let_def
  by (intro family_law keeps_read row_rules preserves_if preserves_case_option)+

lemma household_reads:
  "keeps I (srvGetPersonProfile e (personServer e) md q)" "keeps I (srvListPersonProfilesByFamily e (personServer e) md q)"
  "keeps I (srvListIncomeHistoryByFamily e (personServer e) md q)" "keeps I (srvGetHousingOption e (housingServer e) md q)"
  "keeps I (srvListHousingOptions e (housingServer e) md q)" "keeps I (srvListHousingGroups e (housingServer e) md q)"
  "keeps I (srvEstimateHousingGrant e (housingServer e) md g)" "keeps I (srvGetHousingEvaluation e (housingServer e) md c)"
  "keeps I (srvGetHouseholdDashboard e fe (Some (srvAuthenticate e)) md q)"
  unfolding srvGetPersonProfile_def srvListPersonProfilesByFamily_def srvListIncomeHistoryByFamily_def srvGetHousingOption_def
    srvListHousingOptions_def srvListHousingGroups_def srvEstimateHousingGrant_def srvGetHousingEvaluation_def srvGetHouseholdDashboard_def
    server_auth Let_def
  by (intro keeps_read row_rules preserves_if preserves_case_option)+

lemmas handlers = account_handlers account_handlers [THEN limited_kept] family_handlers [OF new_servers(1)] household_reads criteria_listed [where I = I]

lemma serve_keeps: "I (wo_db w) \<Longrightarrow> I (wo_db (serve e fe (newServers e cfg tls) peer md r w))"
  using handlers household_law unfolding preserves_def by (cases r) simp_all

lemma run_keeps: "service_run e fe (newServers e cfg tls) w w' \<Longrightarrow> I (wo_db w) \<Longrightarrow> I (wo_db w')"
  by (induction rule: service_run.induct) (simp_all add: serve_keeps)

end


section \<open>Facts about accounts\<close>

definition userTables :: "database \<Rightarrow> User list \<times> session list \<times> admin_key list" where
  "userTables d = (db_users d, db_sessions d, db_admin_access_keys d)"

lemma insertMember_users: "insertMember e ov f u role t d = Inr (x, d') \<Longrightarrow> userTables d' = userTables d"
  by (auto simp: insertMember_def bindS_Inr userTables_def split: if_splits)

lemma insertFamily_users: "insertFamily e fam t n d = Inr (x, d') \<Longrightarrow> userTables d' = userTables d"
  by (auto simp: insertFamily_def Let_def bindS_Inr userTables_def)

lemma keeps_manager [row_rules]: "keeps I (assertFamilyManager e u f)"
  by (rule preserves_access) simp

lemma family_methods_aside:
  "keeps (\<lambda>d. userTables d = c) (repoCreateFamily e fam i)" "keeps (\<lambda>d. userTables d = c) (repoJoinFamilyByCode e i tok)"
  "keeps (\<lambda>d. userTables d = c) (repoGenerateFamilyJoinCode e i f tok x)"
  unfolding repoCreateFamily_def repoJoinFamilyByCode_def repoGenerateFamilyJoinCode_def
  by (intro row_rules preserves_if keeps_query; auto simp: insertMember_users insertFamily_users selectInvitedFamily_def Let_def bindS_Inr
        userTables_def [of "_\<lparr>db_family_invites := _\<rparr>"] split: prod.splits; simp add: userTables_def)+

lemma keeps_via: "(\<And>c. keeps (\<lambda>d. g d = c) m) \<Longrightarrow> (\<And>d d'. g d' = g d \<Longrightarrow> I d \<Longrightarrow> I d') \<Longrightarrow> keeps I m"
  unfolding preserves_def by metis

locale account_fact =
  fixes e :: env and I :: "database \<Rightarrow> bool"
  assumes accounts: "keeps I (repoCreateUser e u)" "keeps I (repoDisableUser e i)" "keeps I (repoCreateSession e i tok t)"
      "keeps I (repoUpdateUserPassword e i h b)" "keeps I (repoUpdateUserAccount e i em n)" "keeps I (repoCreateAdminAccessKey e i tok t)"
      "keeps I (repoConsumeAdminAccessKey e i tok t)" "keeps I (repoRevokeSessionsByUserID e i)"
    and only_users: "userTables d' = userTables d \<Longrightarrow> I d \<Longrightarrow> I d'"

sublocale account_fact \<subseteq> service_law e I
proof unfold_locales
  show "I (wo_db (runApi e md r w))" if "I (wo_db w)" for md r w
    using household_aside [of e md r w] that by (intro only_users [OF _ that]) (simp add: accountTables_def userTables_def)
qed ((rule accounts)+, (rule keeps_via, rule family_methods_aside, erule only_users, assumption)+)

interpretation integrity: account_fact e users_inv
  for e by (unfold_locales, (rule keeps_users_inv)+, simp add: users_inv_def userTables_def)

interpretation locked: account_fact e "lockedOut uid"
  for e uid by (unfold_locales, (rule keeps_lockedOut)+, simp add: lockedOut_def userTables_def)

interpretation spent: account_fact e "spentKey tok"
  for e tok by (unfold_locales, (rule keeps_spentKey)+, simp add: spentKey_def userTables_def)

text \<open>A user has the role \<open>r\<close>.\<close>

definition hasRole :: "ID \<Rightarrow> UserRole \<Rightarrow> database \<Rightarrow> bool" where
  "hasRole uid r d \<longleftrightarrow> uid \<in> us_ID ` set (db_users d) \<and> (\<forall>u\<in>set (db_users d). us_ID u = uid \<longrightarrow> us_Role u = r)"

lemma hasRole_update:
  assumes "hasRole uid r d" and "\<And>u. us_ID (f u) = us_ID u" and "\<And>u. us_Role (f u) = us_Role u"
  shows "hasRole uid r (d\<lparr>db_users := updateRows P f (db_users d)\<rparr>)"
proof -
  have "us_ID ` set (updateRows P f (db_users d)) = us_ID ` set (db_users d)" using assms(2) by (rule set_updateRows_image)
  moreover have "\<forall>u\<in>set (updateRows P f (db_users d)). us_ID u = uid \<longrightarrow> us_Role u = r"
    using assms unfolding hasRole_def by (metis in_updateRows)
  ultimately show ?thesis using assms(1) by (simp add: hasRole_def)
qed

lemma keeps_hasRole:
  "keeps (hasRole uid r) (repoCreateUser e u)" "keeps (hasRole uid r) (repoDisableUser e i)" "keeps (hasRole uid r) (repoCreateSession e i tok t)"
  "keeps (hasRole uid r) (repoUpdateUserPassword e i h b)" "keeps (hasRole uid r) (repoUpdateUserAccount e i em n)"
  "keeps (hasRole uid r) (repoCreateAdminAccessKey e i tok t)" "keeps (hasRole uid r) (repoConsumeAdminAccessKey e i tok t)"
  "keeps (hasRole uid r) (repoRevokeSessionsByUserID e i)"
proof -
  have q: "keeps (hasRole uid r) (query e st)" if "\<And>n d x d'. st n d = Inr (x, d') \<Longrightarrow> db_users d' = db_users d" for st :: "'x stmt"
    by (rule keeps_query) (simp add: hasRole_def that)
  show "keeps (hasRole uid r) (repoCreateUser e u)"
    unfolding repoCreateUser_def by (rule keeps_query) (auto simp: Let_def bindS_Inr hasRole_def)
  show "keeps (hasRole uid r) (repoDisableUser e i)" "keeps (hasRole uid r) (repoUpdateUserPassword e i h b)"
    unfolding repoDisableUser_def repoUpdateUserPassword_def
    by (intro row_rules preserves_if keeps_query; auto simp: bindS_Inr intro!: hasRole_update)+
  show "keeps (hasRole uid r) (repoUpdateUserAccount e i em n)"
    unfolding repoUpdateUserAccount_def by (rule keeps_query) (auto simp: Let_def bindS_Inr intro!: hasRole_update)
  show "keeps (hasRole uid r) (repoCreateSession e i tok t)" "keeps (hasRole uid r) (repoCreateAdminAccessKey e i tok t)"
    "keeps (hasRole uid r) (repoConsumeAdminAccessKey e i tok t)" "keeps (hasRole uid r) (repoRevokeSessionsByUserID e i)"
    unfolding repoCreateSession_def repoCreateAdminAccessKey_def repoConsumeAdminAccessKey_def repoRevokeSessionsByUserID_def
    by (rule q; auto simp: bindS_Inr)+
qed

interpretation role: account_fact e "hasRole uid r"
  for e uid r by (unfold_locales, (rule keeps_hasRole)+, simp add: hasRole_def userTables_def)


section \<open>Facts about families\<close>

text \<open>Families, members and invites refer to existing rows, keys are unique, roles and types are known,
  and every family has an owner.\<close>

definition families_wf :: "database \<Rightarrow> bool" where
  "families_wf d \<longleftrightarrow> distinct (map fa_ID (db_families d))
     \<and> (\<forall>f\<in>set (db_families d). fa_Type f \<in> {''single'', ''couple'', ''family'', ''shared_household''}
          \<and> (\<exists>m\<in>set (db_family_members d). fm_FamilyID m = fa_ID f \<and> fm_Role m = ''owner''))
     \<and> distinct (map (\<lambda>m. (fm_FamilyID m, fm_UserID m)) (db_family_members d))
     \<and> (\<forall>m\<in>set (db_family_members d). fm_FamilyID m \<in> fa_ID ` set (db_families d) \<and> fm_UserID m \<in> us_ID ` set (db_users d)
          \<and> fm_Role m \<in> {''owner'', ''admin'', ''member'', ''viewer''})
     \<and> distinct (map fi_CodeHash (db_family_invites d))
     \<and> (\<forall>i\<in>set (db_family_invites d). fi_FamilyID i \<in> fa_ID ` set (db_families d) \<and> fi_CreatedBy i \<in> us_ID ` set (db_users d))"

text \<open>Accounts come and never go.\<close>

definition grows :: "database \<Rightarrow> database \<Rightarrow> bool" where
  "grows d d' \<longleftrightarrow> db_families d' = db_families d \<and> db_family_members d' = db_family_members d \<and> db_family_invites d' = db_family_invites d
     \<and> us_ID ` set (db_users d) \<subseteq> us_ID ` set (db_users d')"

lemma grows_frame: "frame_rel grows"
  by (auto simp: frame_rel_def grows_def)

abbreviation growing :: "('e, 'a) io \<Rightarrow> bool" where
  "growing m \<equiv> preserves (\<lambda>w w'. grows (wo_db w) (wo_db w')) m"

lemma growing_query: "(\<And>n d x d'. st n d = Inr (x, d') \<Longrightarrow> grows d d') \<Longrightarrow> growing (query e st)"
  by (rule preserves_query) (simp add: grows_def)

lemma grows_update: "(\<And>u. us_ID (f u) = us_ID u) \<Longrightarrow> grows d (d\<lparr>db_users := updateRows P f (db_users d)\<rparr>)"
  by (simp add: grows_def set_updateRows_image)

lemma accounts_grow:
  "growing (repoCreateUser e u)" "growing (repoDisableUser e i)" "growing (repoCreateSession e i tok t)" "growing (repoUpdateUserPassword e i h b)"
  "growing (repoUpdateUserAccount e i em n)" "growing (repoCreateAdminAccessKey e i tok t)" "growing (repoConsumeAdminAccessKey e i tok t)"
  "growing (repoRevokeSessionsByUserID e i)" "growing (repoPromoteToBootstrapAdmin e i n h)"
proof -
  note fr = frame_rel_db [OF grows_frame]
  show "growing (repoCreateUser e u)" "growing (repoCreateSession e i tok t)" "growing (repoCreateAdminAccessKey e i tok t)"
    "growing (repoConsumeAdminAccessKey e i tok t)" "growing (repoRevokeSessionsByUserID e i)"
    unfolding repoCreateUser_def repoCreateSession_def repoCreateAdminAccessKey_def repoConsumeAdminAccessKey_def repoRevokeSessionsByUserID_def
    by (rule growing_query; auto simp: Let_def bindS_Inr grows_def)+
  show "growing (repoUpdateUserAccount e i em n)" "growing (repoPromoteToBootstrapAdmin e i n h)"
    unfolding repoUpdateUserAccount_def repoPromoteToBootstrapAdmin_def by (rule growing_query; auto simp: Let_def bindS_Inr intro!: grows_update)+
  show "growing (repoDisableUser e i)" "growing (repoUpdateUserPassword e i h b)"
    unfolding repoDisableUser_def repoUpdateUserPassword_def
    by (intro preserve_rules fr growing_query; auto simp: bindS_Inr intro!: grows_update)+
qed

lemma keeps_growing: "growing m \<Longrightarrow> (\<And>d d'. grows d d' \<Longrightarrow> I d \<Longrightarrow> I d') \<Longrightarrow> keeps I m"
  unfolding preserves_def by blast

locale family_fact =
  fixes e :: env and I :: "database \<Rightarrow> bool"
  assumes families: "keeps I (repoCreateFamily e fam i)" "keeps I (repoJoinFamilyByCode e i tok)" "keeps I (repoGenerateFamilyJoinCode e i f tok x)"
    and stable: "grows d d' \<Longrightarrow> I d \<Longrightarrow> I d'"

sublocale family_fact \<subseteq> service_law e I
proof unfold_locales
  show "I (wo_db (runApi e md r w))" if "I (wo_db w)" for md r w
    using household_aside [of e md r w] by (intro stable [OF _ that]) (simp add: accountTables_def grows_def)
qed ((rule keeps_growing, rule accounts_grow, erule stable, assumption)+, (rule families)+)

lemma insertMember_new:
  assumes "insertMember e ov familyID userID role t d = Inr (x, d')" "uuid_in e familyID = Some f" "uuid_in e userID = Some u" "\<not> isMember d f u"
  shows "f \<in> fa_ID ` set (db_families d) \<and> u \<in> us_ID ` set (db_users d) \<and> role \<in> {''owner'', ''admin'', ''member'', ''viewer''}
    \<and> d' = d\<lparr>db_family_members := db_family_members d @ [\<lparr>fm_FamilyID = f, fm_UserID = u, fm_Role = role, fm_JoinedAt = t\<rparr>]\<rparr>"
  using assms unfolding insertMember_def by (auto simp: bindS_Inr castUUID_Inr simp del: insert_iff)

lemma member_pairs: "isMember d f u \<longleftrightarrow> (f, u) \<in> (\<lambda>m. (fm_FamilyID m, fm_UserID m)) ` set (db_family_members d)"
  by (auto simp: isMember_def list_ex_iff)

lemma families_wf_member:
  assumes "families_wf d" "f \<in> fa_ID ` set (db_families d)" "u \<in> us_ID ` set (db_users d)" "\<not> isMember d f u"
    "role \<in> {''owner'', ''admin'', ''member'', ''viewer''}"
  shows "families_wf (d\<lparr>db_family_members := db_family_members d @ [\<lparr>fm_FamilyID = f, fm_UserID = u, fm_Role = role, fm_JoinedAt = t\<rparr>]\<rparr>)"
  using assms unfolding families_wf_def member_pairs by (auto simp del: insert_iff)

lemma families_wf_grows: "grows d d' \<Longrightarrow> families_wf d \<Longrightarrow> families_wf d'"
  unfolding grows_def families_wf_def by (auto simp del: insert_iff)


text \<open>What the methods of the family repository do to the tables: nothing, or one new family with its
  owner, one new member, one new invite.\<close>

inductive family_step :: "database \<Rightarrow> database \<Rightarrow> bool" where
  unchanged: "family_step d d"
| founded: "fa_ID fam \<notin> fa_ID ` set (db_families d) \<Longrightarrow> fa_Type fam \<in> {''single'', ''couple'', ''family'', ''shared_household''}
    \<Longrightarrow> u \<in> us_ID ` set (db_users d) \<Longrightarrow> family_step d (withFamily d fam u t)"
| joined: "f \<in> fa_ID ` set (db_families d) \<Longrightarrow> u \<in> us_ID ` set (db_users d) \<Longrightarrow> \<not> isMember d f u \<Longrightarrow> family_step d (withMember d f u t)"
| invited: "fi_CodeHash i \<notin> fi_CodeHash ` set (db_family_invites d) \<Longrightarrow> fi_FamilyID i \<in> fa_ID ` set (db_families d)
    \<Longrightarrow> fi_CreatedBy i \<in> us_ID ` set (db_users d) \<Longrightarrow> family_step d (d\<lparr>db_family_invites := db_family_invites d @ [i]\<rparr>)"

lemma step_wf:
  assumes "family_step d d'" "families_wf d"
  shows "families_wf d'"
  using assms
proof (cases rule: family_step.cases)
  case (founded fam u t)
  have "\<forall>m\<in>set (db_family_members d). fm_FamilyID m \<in> fa_ID ` set (db_families d)" using assms(2) by (simp add: families_wf_def)
  with founded(2) have "\<forall>m\<in>set (db_family_members d). fm_FamilyID m \<noteq> fa_ID fam" by metis
  then have "(fa_ID fam, u) \<notin> (\<lambda>m. (fm_FamilyID m, fm_UserID m)) ` set (db_family_members d)" by auto
  with assms(2) founded(2-4) show ?thesis unfolding founded(1) families_wf_def withFamily_def by (auto simp del: insert_iff)
next
  case (joined f u t)
  with families_wf_member [OF assms(2) joined(2-4), of "''member''" t] show ?thesis by (simp add: withMember_def)
qed (auto simp: families_wf_def)

lemma find_append: "find P xs = Some y \<Longrightarrow> find P (xs @ ys) = Some y"
  by (induction xs) auto

lemma step_role: "family_step d d' \<Longrightarrow> memberRole d f u = Some r \<Longrightarrow> memberRole d' f u = Some r"
  by (cases rule: family_step.cases) (auto simp: memberRole_def withFamily_def withMember_def find_append)

lemma kept_then:
  assumes "db_kept m" and "\<And>d. R d d" and "\<And>x. preserves (\<lambda>w w'. R (wo_db w) (wo_db w')) (k x)"
  shows "preserves (\<lambda>w w'. R (wo_db w) (wo_db w')) (bindP m k)"
  unfolding preserves_def
proof
  fix w
  obtain r v where r: "m w = (r, v)" by fastforce
  from preservesD [OF assms(1) r] have v: "wo_db v = wo_db w" .
  show "R (wo_db w) (wo_db (snd (bindP m k w)))"
    using assms(2,3) v by (cases r) (auto simp: bindP_def r preserves_def v [symmetric])
qed

lemma then_ret: "preserves R m \<Longrightarrow> preserves R (bindP m (\<lambda>x. retP (g x)))"
  unfolding preserves_def bindP_def retP_def by (simp split: prod.splits sum.splits) (metis snd_conv)

abbreviation stepping :: "('e, 'a) io \<Rightarrow> bool" where
  "stepping m \<equiv> preserves (\<lambda>w w'. family_step (wo_db w) (wo_db w')) m"

lemma join_steps: "stepping (repoJoinFamilyByCode e i tok)"
proof -
  have s: "db_kept (query e (selectInvitedFamily e tok))"
    by (rule db_kept_query_read) (auto simp: selectInvitedFamily_def Let_def bindS_Inr split: prod.splits)
  have "family_step d d'" if ins: "insertMember e False f i FamilyRoleMember t d = Inr (x, d')" for f t d x d'
  proof -
    from insertMember_join [OF ins] obtain f' u where fu: "uuid_in e f = Some f'" "uuid_in e i = Some u"
      "d' = d \<or> (\<not> isMember d f' u \<and> d' = withMember d f' u t)" by blast
    with insertMember_new [OF ins fu(1,2)] show ?thesis by (auto intro: family_step.intros)
  qed
  then have q: "stepping (query e (\<lambda>n d. insertMember e False f i FamilyRoleMember (dbNow e n) d))" for f
    by (intro preserves_query) (auto intro: family_step.unchanged)
  have "stepping (throwP err)" for err by (simp add: preserves_def throwP_def family_step.unchanged)
  then show ?thesis unfolding repoJoinFamilyByCode_def
    by (auto intro!: kept_then [OF s] then_ret q family_step.unchanged)
qed

lemma invite_steps: "stepping (repoGenerateFamilyJoinCode e i f tok x)"
proof -
  have a: "db_kept (assertFamilyManager e i f)" by (rule preserves_access) simp
  have "stepping (throwP err)" for err by (simp add: preserves_def throwP_def family_step.unchanged)
  then show ?thesis unfolding repoGenerateFamilyJoinCode_def
    by (auto intro!: kept_then [OF a] preserves_query family_step.unchanged family_step.invited simp: bindS_Inr)
qed


lemma founded_step:
  assumes "uuid_ok e" "families_wf (wo_db w)"
    and "bindP (query e (insertFamily e family (pgTime t))) (\<lambda>created.
        bindP (query e (\<lambda>n d. insertMember e True (fa_ID created) ownerID FamilyRoleOwner (pgTime t) d)) (\<lambda>_.
        retP created)) w = (Inr fam, w')"
  shows "family_step (wo_db w) (wo_db w')"
proof -
  have inv: "families_inv (wo_db w)" using assms(2) by (simp add: families_inv_def families_wf_def)
  from createFamily_body [OF inv assms(1,3)] obtain u where u: "uuid_in e ownerID = Some u" "fa_ID fam \<notin> fa_ID ` set (db_families (wo_db w))"
    "wo_db w' = withFamily (wo_db w) fam u (pgTime t)" by blast
  from assms(3) obtain v where q: "query e (insertFamily e family (pgTime t)) w = (Inr fam, v)"
    "query e (\<lambda>n d. insertMember e True (fa_ID fam) ownerID FamilyRoleOwner (pgTime t) d) v = (Inr (), w')" by (auto elim!: bindP_InrE)
  from query_InrD [OF q(1)] have fam: "fa_Type fam \<in> {''single'', ''couple'', ''family'', ''shared_household''}" "fa_ID fam = uuid_at e (wo_tick w)"
    "wo_db v = (wo_db w)\<lparr>db_families := db_families (wo_db w) @ [fam]\<rparr>"
    unfolding insertFamily_def Let_def bindS_Inr by auto
  have id: "uuid_in e (fa_ID fam) = Some (fa_ID fam)" using assms(1) fam(2) by (simp add: uuid_ok_def)
  have "db_family_members (wo_db v) = db_family_members (wo_db w)" by (simp add: fam(3))
  then have "\<not> isMember (wo_db v) (fa_ID fam) u" using inv u(2) unfolding isMember_def list_ex_iff families_inv_def by metis
  with insertMember_new [OF query_InrD [OF q(2)] id u(1)] have "u \<in> us_ID ` set (db_users (wo_db v))" by blast
  then show ?thesis unfolding u(3) by (intro family_step.founded u(2) fam(1)) (simp add: fam(3))
qed

lemma create_steps:
  assumes "uuid_ok e" "families_wf (wo_db w)"
  shows "family_step (wo_db w) (wo_db (snd (repoCreateFamily e family ownerID w)))"
proof (cases "blank (fa_Name family) \<or> blank (fa_Type family) \<or> blank ownerID")
  case False
  obtain r w' where r: "repoCreateFamily e family ownerID w = (r, w')" by fastforce
  with False have "transaction e (\<lambda>t.
        bindP (query e (insertFamily e family (pgTime t))) (\<lambda>created.
        bindP (query e (\<lambda>n d. insertMember e True (fa_ID created) ownerID FamilyRoleOwner (pgTime t) d)) (\<lambda>_.
        retP created))) w = (r, w')"
    unfolding repoCreateFamily_def by (simp only: if_False)
  then show ?thesis
  proof (cases rule: transaction_cases)
    case (failed err)
    then show ?thesis by (simp add: r family_step.unchanged)
  next
    case (committed t w1 w2 x)
    with founded_step [OF assms(1) _ committed(2)] assms(2) show ?thesis by (simp add: r)
  qed
qed (auto simp: repoCreateFamily_def throwP_def family_step.unchanged)

lemma keeps_steps:
  assumes "\<And>d d'. family_step d d' \<Longrightarrow> families_wf d \<Longrightarrow> I d \<Longrightarrow> I d'" and "\<And>d. I d \<Longrightarrow> families_wf d"
  shows "keeps (\<lambda>d. uuid_ok e \<longrightarrow> I d) (repoCreateFamily e fam i)" "keeps (\<lambda>d. uuid_ok e \<longrightarrow> I d) (repoJoinFamilyByCode e i tok)"
    "keeps (\<lambda>d. uuid_ok e \<longrightarrow> I d) (repoGenerateFamilyJoinCode e i f tok x)"
  using assms create_steps join_steps invite_steps unfolding preserves_def by metis+

lemma memberRole_grows: "grows d d' \<Longrightarrow> memberRole d' f u = memberRole d f u"
  by (simp add: grows_def memberRole_def)

interpretation families: family_fact e "\<lambda>d. uuid_ok e \<longrightarrow> families_wf d"
  for e by (unfold_locales, (rule keeps_steps, erule step_wf, assumption+)+, use families_wf_grows in blast)

interpretation membership: family_fact e "\<lambda>d. uuid_ok e \<longrightarrow> families_wf d \<and> memberRole d f u = Some r"
  for e f u r
  by (unfold_locales, (rule keeps_steps, use step_wf step_role in blast, blast)+, use families_wf_grows memberRole_grows in metis)

section \<open>Facts about rows\<close>

lemma rows_query:
  assumes "\<And>n d x d'. st n d = Inr (x, d') \<Longrightarrow> db_person_profiles d' = db_person_profiles d \<and> db_housing_options d' = db_housing_options d"
  shows "keeps (rows_wf e) (query e' st)"
  by (rule keeps_query) (use assms rows_wf_same in blast)

lemma accounts_keep_rows:
  "keeps (rows_wf e) (repoCreateUser e u)" "keeps (rows_wf e) (repoDisableUser e i)" "keeps (rows_wf e) (repoCreateSession e i tok t)"
  "keeps (rows_wf e) (repoUpdateUserPassword e i h b)" "keeps (rows_wf e) (repoUpdateUserAccount e i em n)"
  "keeps (rows_wf e) (repoCreateAdminAccessKey e i tok t)" "keeps (rows_wf e) (repoConsumeAdminAccessKey e i tok t)"
  "keeps (rows_wf e) (repoRevokeSessionsByUserID e i)" "keeps (rows_wf e) (repoPromoteToBootstrapAdmin e i n h)"
  unfolding repoCreateUser_def repoDisableUser_def repoCreateSession_def repoUpdateUserPassword_def repoUpdateUserAccount_def
    repoCreateAdminAccessKey_def repoConsumeAdminAccessKey_def repoRevokeSessionsByUserID_def repoPromoteToBootstrapAdmin_def
  by (intro row_rules preserves_if rows_query; auto simp: Let_def bindS_Inr)+

lemma families_keep_rows:
  "keeps (rows_wf e) (repoCreateFamily e fam i)" "keeps (rows_wf e) (repoJoinFamilyByCode e i tok)" "keeps (rows_wf e) (repoGenerateFamilyJoinCode e i f tok x)"
  unfolding repoCreateFamily_def repoJoinFamilyByCode_def repoGenerateFamilyJoinCode_def
  by (intro row_rules preserves_if rows_query;
      auto simp: insertMember_def insertFamily_def selectInvitedFamily_def Let_def bindS_Inr split: if_splits prod.splits)+

interpretation stored: service_law e "rows_wf e"
  for e by (unfold_locales, (rule accounts_keep_rows families_keep_rows)+, erule rows.run_keeps)


section \<open>The start\<close>

lemma keeps_lookup:
  assumes "keeps I m" and "\<And>x. keeps I (f x)" and "keeps I g"
  shows "keeps I (\<lambda>w. case m w of (Inr x, w') \<Rightarrow> f x w' | (Inl err, w') \<Rightarrow> if err \<noteq> err0 then (Inl err, w') else g w')"
  using assms unfolding preserves_def by (auto split: prod.splits sum.splits)

lemma bootstrap_keeps:
  assumes "\<And>u. keeps I (repoCreateUser e u)" and "\<And>i n h. keeps I (repoPromoteToBootstrapAdmin e i n h)"
  shows "keeps I (bootstrap e cfg)"
proof -
  have "keeps I (repoHasActiveAdmin e)" by (rule keeps_kept, rule db_kept_reads)
  then show ?thesis unfolding bootstrap_def svcEnsureBootstrapAdmin_def Let_def
    by (intro row_rules preserves_if keeps_lookup assms)
qed

lemma start_keeps:
  assumes "startCore e dr os w = (Inr sv, w')" and "\<And>cfg. keeps I (bootstrap e cfg)" and "I (wo_db w)"
  shows "I (wo_db w')"
proof (rule startCore_Inr [OF assms(1)])
  let ?cfg = "Load (ma_getenv os)"
  assume "bootstrap e ?cfg (w\<lparr>wo_limits := New (ac_AuthLimits ?cfg)\<rparr>) = (Inr (), w')"
  from preservesD [OF assms(2) this] assms(3) show ?thesis by simp
qed

definition database_ok :: "env \<Rightarrow> database \<Rightarrow> bool" where
  "database_ok e d \<longleftrightarrow> users_inv d \<and> families_wf d \<and> rows_wf e d"

lemma start_ok:
  assumes "startCore e dr os w = (Inr sv, w')" "database_ok e (wo_db w)"
  shows "database_ok e (wo_db w')"
proof -
  have "keeps families_wf (repoCreateUser e u)" "keeps families_wf (repoPromoteToBootstrapAdmin e i n h)" for u i n h
    by (rule keeps_growing, rule accounts_grow, erule families_wf_grows, assumption)+
  then have "keeps families_wf (bootstrap e cfg)" for cfg by (rule bootstrap_keeps)
  moreover have "keeps users_inv (bootstrap e cfg)" for cfg by (rule bootstrap_keeps [OF keeps_CreateUser keeps_Promote])
  moreover have "keeps (rows_wf e) (bootstrap e cfg)" for cfg by (rule bootstrap_keeps [OF accounts_keep_rows(1,9)])
  ultimately have b: "keeps families_wf (bootstrap e cfg)" "keeps users_inv (bootstrap e cfg)" "keeps (rows_wf e) (bootstrap e cfg)" for cfg by simp_all
  show ?thesis using assms(2) start_keeps [OF assms(1) b(1)] start_keeps [OF assms(1) b(2)] start_keeps [OF assms(1) b(3)]
    by (simp add: database_ok_def)
qed

lemma consume_Inr:
  assumes "srvConsumeAdminAccessKey e md (Some key) w = (Inr ok, w')"
  shows "\<exists>admin now v. repoConsumeAdminAccessKey e admin (HashToken (sha256 e) key) now v = (Inr True, w') \<and> wo_db v = wo_db w"
proof -
  from assms obtain u w1 w2 now where a: "authenticatedAdmin (Some (srvAuthenticate e)) md w = (Inr u, w1)" "nowP e w1 = (Inr now :: go_error + time, w2)"
    and c: "svcConsumeAdminAccessKey e (us_ID u) key now w2 = (Inr (), w')"
    unfolding srvConsumeAdminAccessKey_def by (auto elim!: bindP_InrE)
  have db: "wo_db w2 = wo_db w" using sessions.admin_genuine [OF a(1)] preservesD [OF db_kept_basic(1) a(2)] by simp
  from c obtain v v' where v: "repoGetUserByID e (us_ID u) w2 = (Inr v', v)"
    "repoConsumeAdminAccessKey e (us_ID u) (HashToken (sha256 e) key) now v = (Inr True, w')"
    unfolding svcConsumeAdminAccessKey_def by (auto split: if_splits elim!: bindP_InrE)
  with db preservesD [OF db_kept_reads(3) v(1)] show ?thesis by metis
qed

section \<open>Properties\<close>

text \<open>
  Property C12: the tables stay intact while the program runs. Started on intact tables, after any
  sequence of requests of any callers, with any contents, sessions and failures of the database:
  the ids and emails of users, the hashes of sessions, access keys and invites, the ids of families and the
  memberships are unique; sessions, keys, memberships and invites belong to existing users and
  families; roles and family types are known; every family has an owner; and all stored profiles
  and housing options are well formed.
\<close>

theorem service_keeps_database_intact:
  assumes "uuid_ok e" and "startCore e dr os w = (Inr sv, w1)" and "service_run e fe sv w1 w2" and "database_ok e (wo_db w)"
  shows "database_ok e (wo_db w2)"
proof -
  from assms(2) obtain cfg tls where sv: "sv = newServers e cfg tls" by (rule startCore_Inr)
  note run = assms(3) [unfolded sv]
  from start_ok [OF assms(2,4)] have "users_inv (wo_db w1)" "families_wf (wo_db w1)" "rows_wf e (wo_db w1)" by (simp_all add: database_ok_def)
  with integrity.run_keeps [OF run] families.run_keeps [OF run] stored.run_keeps [OF run] assms(1) show ?thesis by (simp add: database_ok_def)
qed

lemma one_request: "service_run e fe sv w (serve e fe sv peer md r w)"
  by (intro service_run.request service_run.listening)

theorem service_keeps_database_intact_witness:
  "\<exists>sv w1. startCore example_env first_driver first_machine first_world = (Inr sv, w1)
     \<and> database_ok example_env (wo_db (serve example_env example_floats sv (Some ''192.0.2.1:1000'') None (RpcLogin (Some (''root@x.sg'', ''pw''))) w1))"
proof -
  obtain sv w1 where s: "startCore example_env first_driver first_machine first_world = (Inr sv, w1)" using first_start by blast
  have "database_ok example_env (wo_db first_world)"
    by (simp add: database_ok_def users_inv_def families_wf_def rows_wf_def first_world_def emptyDB_def)
  with service_keeps_database_intact [OF example_env_ok s one_request] s show ?thesis by blast
qed

text \<open>
  Property C29: roles are for life. While the program runs, no sequence of requests changes the role of
  a user's account, and none changes the role of a member of a family or removes the member: an
  administrator is one by creation or by the bootstrap, an owner by founding the family.
\<close>

theorem roles_are_permanent:
  assumes "startCore e dr os w0 = (Inr sv, w00)" and "service_run e fe sv w w'" and "uuid_ok e" and "families_wf (wo_db w)"
  shows "(hasRole uid r (wo_db w) \<longrightarrow> hasRole uid r (wo_db w'))
    \<and> (memberRole (wo_db w) f u = Some fr \<longrightarrow> memberRole (wo_db w') f u = Some fr)"
proof -
  from assms(1) obtain cfg tls where sv: "sv = newServers e cfg tls" by (rule startCore_Inr)
  note run = assms(2) [unfolded sv]
  from role.run_keeps [OF run] membership.run_keeps [OF run] assms(3,4) show ?thesis by metis
qed

theorem roles_are_permanent_witness:
  "\<exists>sv. memberRole (wo_db invite_world) ''f1'' ''u1'' = Some ''owner''
     \<and> memberRole (wo_db (serve example_env example_floats sv None (tokenMetadata ''kot'') (RpcJoinFamilyByCode (Some ([], ''code''))) invite_world)) ''f1'' ''u1''
       = Some ''owner''"
proof -
  obtain sv w1 where s: "startCore example_env first_driver first_machine first_world = (Inr sv, w1)" using first_start by blast
  have "families_wf (wo_db invite_world) \<and> memberRole (wo_db invite_world) ''f1'' ''u1'' = Some ''owner''" by code_simp
  with roles_are_permanent [OF s one_request example_env_ok] show ?thesis by blast
qed

text \<open>
  Property C28: a disabled user is out. After an administrator has disabled a user, whatever requests
  follow, of whomever, with whatever failures, no session token authenticates as that user and no
  password logs in.
\<close>

theorem disabled_user_stays_out:
  assumes "startCore e dr os w0 = (Inr sv, w00)" and "srvDisableUser e md (Some user_id) w = (Inr (), w1)"
    and "uuid_in e (trimSpace user_id) = Some uid" and "service_run e fe sv w1 w2"
  shows "(fst (srvAuthenticate e md' w2) = Inr u \<longrightarrow> us_ID u \<noteq> uid) \<and> (fst (svcLogin e email pw w2) = Inr u \<longrightarrow> us_ID u \<noteq> uid)"
proof -
  from assms(1) obtain cfg tls where sv: "sv = newServers e cfg tls" by (rule startCore_Inr)
  from assms(2) obtain actor v w' where "repoDisableUser e (trimSpace user_id) v = (Inr (), w')"
    "repoRevokeSessionsByUserID e (trimSpace user_id) w' = (Inr (), w1)" by (rule srvDisableUser_Inr)
  with disabled_lockedOut [OF _ assms(3)] keeps_lockedOut_rest(4) have "lockedOut uid (wo_db w1)" by (metis preservesD)
  then have out: "lockedOut uid (wo_db w2)" by (rule locked.run_keeps [OF assms(4) [unfolded sv]])
  have "us_ID u \<noteq> uid" if "fst (srvAuthenticate e md' w2) = Inr u"
    using that out srvAuthenticate_Inr [of e md' w2 u] unfolding lockedOut_def by (metis prod.collapse)
  moreover have "us_ID u \<noteq> uid" if "fst (svcLogin e email pw w2) = Inr u"
    using that out svcLogin_Inr [of e email pw w2 u] unfolding lockedOut_def by (metis prod.collapse)
  ultimately show ?thesis by blast
qed

definition staff_world :: world where
  "staff_world = duty_world\<lparr>wo_db := (wo_db duty_world)\<lparr>db_users := [example_admin, example_admin\<lparr>us_ID := ''u2'', us_Email := ''b@x.sg''\<rparr>]\<rparr>\<rparr>"

theorem disabled_user_stays_out_witness:
  "\<exists>sv w1. srvDisableUser example_env (tokenMetadata ''tok'') (Some ''u2'') staff_world = (Inr (), w1)
     \<and> fst (svcLogin example_env ''b@x.sg'' ''pw'' (serve example_env example_floats sv None None RpcListUsers w1))
       \<noteq> Inr (example_admin\<lparr>us_ID := ''u2'', us_Email := ''b@x.sg''\<rparr>)"
proof -
  obtain sv v where s: "startCore example_env first_driver first_machine first_world = (Inr sv, v)" using first_start by blast
  have d: "fst (srvDisableUser example_env (tokenMetadata ''tok'') (Some ''u2'') staff_world) = Inr () \<and> uuid_in example_env (trimSpace ''u2'') = Some ''u2''"
    by code_simp
  then obtain w1 where w1: "srvDisableUser example_env (tokenMetadata ''tok'') (Some ''u2'') staff_world = (Inr (), w1)" by (metis prod.collapse)
  let ?u = "example_admin\<lparr>us_ID := ''u2'', us_Email := ''b@x.sg''\<rparr>"
  have "us_ID ?u = ''u2''" by simp
  with disabled_user_stays_out [OF s w1 d [THEN conjunct2] one_request, where u = ?u] w1 show ?thesis by metis
qed

text \<open>
  Property C14: an admin access key works once. After a key has been consumed, no sequence of further
  requests, with whatever failures, makes it consumable again by anyone.
\<close>

theorem access_key_works_once:
  assumes "startCore e dr os w0 = (Inr sv, w00)" and "users_inv (wo_db w)"
    and "srvConsumeAdminAccessKey e md (Some key) w = (Inr ok, w1)" and "service_run e fe sv w1 w2"
  shows "isl (fst (srvConsumeAdminAccessKey e md' (Some key) w2))"
proof -
  let ?tok = "HashToken (sha256 e) key"
  from assms(1) obtain cfg tls where sv: "sv = newServers e cfg tls" by (rule startCore_Inr)
  note run = assms(4) [unfolded sv]
  from consume_Inr [OF assms(3)] obtain admin now v where c: "repoConsumeAdminAccessKey e admin ?tok now v = (Inr True, w1)" "wo_db v = wo_db w" by blast
  have "users_inv (wo_db w1)" using preservesD [OF keeps_ConsumeKey c(1)] assms(2) c(2) by simp
  from integrity.run_keeps [OF run this] have inv: "users_inv (wo_db w2)" .
  from spent.run_keeps [OF run consumed_spent [OF c(1)]] have spent: "spentKey ?tok (wo_db w2)" .
  show ?thesis
  proof (rule ccontr)
    assume "\<not> isl (fst (srvConsumeAdminAccessKey e md' (Some key) w2))"
    then obtain b w3 where "srvConsumeAdminAccessKey e md' (Some key) w2 = (Inr b, w3)" by (metis isl_def obj_sumE prod.collapse)
    from consume_Inr [OF this] obtain admin' now' x where "repoConsumeAdminAccessKey e admin' ?tok now' x = (Inr True, w3)" "wo_db x = wo_db w2" by blast
    with inv spent spent_not_usable show False by (metis repoConsume_Inr)
  qed
qed


theorem access_key_works_once_witness:
  "\<exists>sv w1. srvConsumeAdminAccessKey example_env (tokenMetadata ''tok'') (Some ''key'') duty_world = (Inr True, w1)
     \<and> isl (fst (srvConsumeAdminAccessKey example_env (tokenMetadata ''tok'') (Some ''key'')
         (serve example_env example_floats sv None (tokenMetadata ''tok'') RpcGenerateAdminAccessKey w1)))"
proof -
  obtain sv v where s: "startCore example_env first_driver first_machine first_world = (Inr sv, v)" using first_start by blast
  have d: "fst (srvConsumeAdminAccessKey example_env (tokenMetadata ''tok'') (Some ''key'') duty_world) = Inr True \<and> users_inv (wo_db duty_world)" by code_simp
  then obtain w1 where w1: "srvConsumeAdminAccessKey example_env (tokenMetadata ''tok'') (Some ''key'') duty_world = (Inr True, w1)" by (metis prod.collapse)
  from access_key_works_once [OF s d [THEN conjunct2] w1 one_request] w1 show ?thesis by blast
qed

end
