(* ===== verification/Service_Limits.thy ===== *)
theory Service_Limits
  imports Core_Service
begin

text \<open>
  The limiter inside the running program. Requests without password work leave it alone; the others
  use it only through its steps. So in every state of the program the limiter is in a state
  its own step relation reaches, with no slot taken between two requests.
\<close>

section \<open>Requests without password work\<close>

definition quietly :: "world \<Rightarrow> world \<Rightarrow> bool" where
  "quietly w w' \<longleftrightarrow> wo_limits w' = wo_limits w \<and> wo_tick w \<le> wo_tick w'"

abbreviation quiet :: "('e, 'a) io \<Rightarrow> bool" where
  "quiet m \<equiv> preserves quietly m"

named_theorems quiet_rules \<open>routines that do not touch the limiter\<close>

lemma quietly_frame: "frame_rel quietly"
  by (auto simp: frame_rel_def quietly_def)

lemmas quiet_prog [quiet_rules] = preserves_ret [OF quietly_frame] preserves_throw [OF quietly_frame] preserves_lift [OF quietly_frame]
  preserves_bind [OF quietly_frame] preserves_catch [OF quietly_frame] preserves_mapErr preserves_if preserves_case_option

lemma quiet_sql [quiet_rules]: "quiet (sql e st)"
  unfolding preserves_def
proof
  fix w
  obtain r w' where r: "sql e st w = (r, w')" by fastforce
  from sql_tables(2,3) [OF r] show "quietly w (snd (sql e st w))" by (simp add: r quietly_def)
qed

lemma quiet_query [quiet_rules]: "quiet (query e st)"
  unfolding query_def by (intro quiet_rules)

lemma quiet_basic [quiet_rules]:
  "quiet (nowP e)" "quiet (ctxErr e)" "quiet (hashP e params pw)" "quiet (tokenP e n)" "quiet (joinCodeP e n)"
  by (simp_all add: preserves_def quietly_def nowP_def ctxErr_def hashP_def tokenP_def joinCodeP_def)

lemma quiet_check [quiet_rules]: "quiet (checkE r)"
  unfolding checkE_def by (intro quiet_rules)

lemma quiet_prod [quiet_rules]: "(\<And>a b. quiet (f a b)) \<Longrightarrow> quiet (case x of (a, b) \<Rightarrow> f a b)"
  by (cases x) simp

lemma quiet_transaction [quiet_rules]:
  assumes "\<And>t. quiet (body t)"
  shows "quiet (transaction e body)"
  unfolding preserves_def
proof
  fix w
  obtain r w1 where q: "query e (\<lambda>n d. Inr (clock_at e n, d)) w = (r, w1)" by fastforce
  from preservesD [OF quiet_query q] have 1: "quietly w w1" .
  show "quietly w (snd (transaction e body w))"
  proof (cases r)
    case (Inr t)
    obtain r2 w2 where b: "body t w1 = (r2, w2)" by fastforce
    from preservesD [OF assms b] 1 show ?thesis
      by (auto simp: transaction_def q Inr b Let_def quietly_def split: sum.split option.split fault.split)
  qed (use 1 in \<open>simp add: transaction_def q\<close>)
qed

lemma quiet_users [quiet_rules]:
  "quiet (repoCreateUser e u)" "quiet (repoDisableUser e i)" "quiet (repoCreateSession e i tok t)" "quiet (repoUpdateUserPassword e i h b)"
  "quiet (repoUpdateUserAccount e i em n)" "quiet (repoCreateAdminAccessKey e i tok t)" "quiet (repoConsumeAdminAccessKey e i tok t)"
  "quiet (repoRevokeSessionsByUserID e i)" "quiet (repoPromoteToBootstrapAdmin e i n h)" "quiet (repoHasActiveAdmin e)"
  "quiet (repoGetUserByEmail e em)" "quiet (repoGetUserByID e i)" "quiet (repoListUsers e)" "quiet (repoGetUserBySessionTokenHash e tok t)"
  unfolding repoCreateUser_def repoDisableUser_def repoCreateSession_def repoUpdateUserPassword_def repoUpdateUserAccount_def
    repoCreateAdminAccessKey_def repoConsumeAdminAccessKey_def repoRevokeSessionsByUserID_def repoPromoteToBootstrapAdmin_def repoHasActiveAdmin_def
    repoGetUserByEmail_def repoGetUserByID_def repoListUsers_def repoGetUserBySessionTokenHash_def
  by (intro quiet_rules)+

lemma quiet_access [quiet_rules]:
  "quiet (hasFamilyAccess e u f)" "quiet (assertFamilyWriter e u f)" "quiet (assertFamilyManager e u f)"
  "quiet (validateHousingGroupAssignment e f g)" "quiet (getHousingGroupFamilyID e g)"
  unfolding hasFamilyAccess_def assertFamilyWriter_def assertFamilyManager_def validateHousingGroupAssignment_def getHousingGroupFamilyID_def Let_def
  by (intro quiet_rules)+

lemma quiet_families [quiet_rules]:
  "quiet (repoCreateFamily e fam i)" "quiet (repoGetFamily e f u)" "quiet (repoListUserFamilies e u)" "quiet (repoJoinFamilyByCode e i tok)"
  "quiet (repoGenerateFamilyJoinCode e i f tok x)" "quiet (repoListFamilyMembers e u f)"
  unfolding repoCreateFamily_def repoGetFamily_def repoListUserFamilies_def repoJoinFamilyByCode_def repoGenerateFamilyJoinCode_def repoListFamilyMembers_def
  by (intro quiet_rules)+

lemma quiet_people [quiet_rules]:
  "quiet (repoCreatePersonProfile e p u)" "quiet (repoGetPersonProfile e i u)" "quiet (repoListPersonProfilesByFamily e f u)"
  "quiet (repoListPersonIncomeHistoryByFamily e f u)" "quiet (repoUpdatePersonProfile e p u)" "quiet (repoDeletePersonProfile e i u)"
  unfolding repoCreatePersonProfile_def repoGetPersonProfile_def repoListPersonProfilesByFamily_def repoListPersonIncomeHistoryByFamily_def
    repoUpdatePersonProfile_def repoDeletePersonProfile_def Let_def
  by (intro quiet_rules)+

lemma quiet_order [quiet_rules]: "quiet (writeChecklistOrder e i ids)"
  by (induction ids arbitrary: i) (auto intro: quiet_rules)

lemma quiet_checklist [quiet_rules]:
  "quiet (repoListHousingCriteria e f u)" "quiet (repoListHousingAnswers e f u)" "quiet (repoSaveHousingCriterion e c u)"
  "quiet (repoDeleteHousingCriterion e f i u)" "quiet (repoReorderHousingCriteria e f ids u)" "quiet (repoSaveHousingAnswer e a u)"
  unfolding repoListHousingCriteria_def repoListHousingAnswers_def repoSaveHousingCriterion_def repoDeleteHousingCriterion_def
    repoReorderHousingCriteria_def repoSaveHousingAnswer_def checklistTransaction_def checklistIDs_def Let_def
  by (intro quiet_rules)+

lemma quiet_attach [quiet_rules]: "quiet (attachHousingEvaluations e opts f u)"
  unfolding attachHousingEvaluations_def by (intro quiet_rules)

lemma quiet_options [quiet_rules]:
  "quiet (repoCreateHousingOption e h u)" "quiet (repoGetHousingOption e i u)" "quiet (repoListHousingOptions e f u)" "quiet (repoUpdateHousingOption e h u)"
  "quiet (repoDeleteHousingOption e i u)" "quiet (repoUpdateHousingOptionVisibility e i v u)" "quiet (repoAssignHousingOptionGroup e i t u)"
  "quiet (repoUpdateHousingNotes e i n u)"
  unfolding repoCreateHousingOption_def repoGetHousingOption_def repoListHousingOptions_def repoUpdateHousingOption_def repoDeleteHousingOption_def
    repoUpdateHousingOptionVisibility_def repoAssignHousingOptionGroup_def repoUpdateHousingNotes_def Let_def
  by (intro quiet_rules)+

lemma quiet_groups [quiet_rules]:
  "quiet (repoCreateHousingGroup e g u)" "quiet (repoListHousingGroups e f u)" "quiet (repoUpdateHousingGroup e g u)" "quiet (repoDeleteHousingGroup e i u)"
  "quiet (repoBulkUpdateHousingGroupVisibility e i v u)"
  unfolding repoCreateHousingGroup_def repoListHousingGroups_def repoUpdateHousingGroup_def repoDeleteHousingGroup_def repoBulkUpdateHousingGroupVisibility_def
  by (intro quiet_rules)+

lemma quiet_callers [quiet_rules]:
  "quiet (srvAuthenticate e md)" "quiet (authenticateUserID (Some (srvAuthenticate e)) md)" "quiet (authenticatedAdmin (Some (srvAuthenticate e)) md)"
  "quiet (requestActorID (Some (srvAuthenticate e)) md i)" "quiet (optionalAuthenticatedActorID (Some (srvAuthenticate e)) md)"
  unfolding requestActorID_def optionalAuthenticatedActorID_def authenticateUserID_def authenticatedAdmin_def srvAuthenticate_def Let_def option.case
  by (intro quiet_rules)+

lemma quiet_checklistActor [quiet_rules]: "quiet (checklistActor (housingServer e) md)"
  unfolding checklistActor_def server_auth by (intro quiet_rules)

lemma quiet_services [quiet_rules]:
  "quiet (svcUpdateMyAccount e i em n)" "quiet (svcGenerateAdminAccessKey e i k ttl now)" "quiet (svcConsumeAdminAccessKey e i key now)"
  "quiet (svcDisableUser e i)" "quiet (svcListUsers e)" "quiet (applyGrantEstimate e s h u)" "quiet (mergeExisting e req h u)"
  unfolding svcUpdateMyAccount_def svcGenerateAdminAccessKey_def svcConsumeAdminAccessKey_def svcDisableUser_def svcListUsers_def
    applyGrantEstimate_def mergeExisting_def Let_def
  by (intro quiet_rules)+


lemma quiet_accounts:
  "quiet (srvValidateSession e t)" "quiet (srvUpdateMyAccount e md q)" "quiet (srvGenerateAdminAccessKey e s md)" "quiet (srvConsumeAdminAccessKey e md t)"
  "quiet (srvListUsers e md)" "quiet (srvDisableUser e md t)"
  unfolding srvValidateSession_def srvUpdateMyAccount_def srvGenerateAdminAccessKey_def srvConsumeAdminAccessKey_def srvListUsers_def srvDisableUser_def
  by (intro quiet_rules)+

lemma quiet_family_handlers:
  assumes "fs_auth s = Some (srvAuthenticate e)"
  shows "quiet (srvCreateFamily e s md q)" "quiet (srvGetFamily e s md q')" "quiet (srvListUserFamilies e s md u)"
    "quiet (srvJoinFamilyByCode e s md q')" "quiet (srvGenerateFamilyJoinCode e s md q')" "quiet (srvListFamilyMembers e s md q')"
  unfolding srvCreateFamily_def srvGetFamily_def srvListUserFamilies_def srvJoinFamilyByCode_def srvGenerateFamilyJoinCode_def
    srvListFamilyMembers_def assms Let_def
  by (intro quiet_rules)+

lemma quiet_reads:
  "quiet (srvGetPersonProfile e (personServer e) md q)" "quiet (srvListPersonProfilesByFamily e (personServer e) md q)"
  "quiet (srvListIncomeHistoryByFamily e (personServer e) md q)" "quiet (srvGetHousingOption e (housingServer e) md q)"
  "quiet (srvListHousingOptions e (housingServer e) md q)" "quiet (srvListHousingGroups e (housingServer e) md q)"
  "quiet (srvEstimateHousingGrant e (housingServer e) md g)" "quiet (srvListHousingCriteria e (housingServer e) md c)"
  "quiet (srvGetHousingEvaluation e (housingServer e) md c)" "quiet (srvGetHouseholdDashboard e fe (Some (srvAuthenticate e)) md q)"
  unfolding srvGetPersonProfile_def srvListPersonProfilesByFamily_def srvListIncomeHistoryByFamily_def srvGetHousingOption_def
    srvListHousingOptions_def srvListHousingGroups_def srvEstimateHousingGrant_def srvListHousingCriteria_def srvGetHousingEvaluation_def
    srvGetHouseholdDashboard_def server_auth Let_def
  by (intro quiet_rules)+

lemma quiet_people_handlers:
  "quiet (srvCreatePersonProfile e (personServer e) md p)" "quiet (srvUpdatePersonProfile e (personServer e) md p)"
  "quiet (srvDeletePersonProfile e (personServer e) md q)"
  unfolding srvCreatePersonProfile_def srvUpdatePersonProfile_def srvDeletePersonProfile_def server_auth
  by (intro quiet_rules)+

lemma quiet_housing_handlers:
  "quiet (srvCreateHousingOption e (housingServer e) md h)" "quiet (srvUpdateHousingOption e (housingServer e) md h)"
  "quiet (srvCreateHousingGroup e (housingServer e) md g)" "quiet (srvUpdateHousingGroup e (housingServer e) md g)"
  "quiet (srvDeleteHousingGroup e (housingServer e) md q)" "quiet (srvAssignHousingOptionGroup e (housingServer e) md a)"
  "quiet (srvBulkUpdateHousingGroupVisibility e (housingServer e) md v)"
  "quiet (srvDeleteHousingOption e (housingServer e) md q)" "quiet (srvUpdateHousingOptionVisibility e (housingServer e) md v)"
  "quiet (srvUpdateHousingNotes e (housingServer e) md q)"
  unfolding srvCreateHousingOption_def srvUpdateHousingOption_def srvCreateHousingGroup_def srvUpdateHousingGroup_def srvDeleteHousingGroup_def
    srvAssignHousingOptionGroup_def srvBulkUpdateHousingGroupVisibility_def srvDeleteHousingOption_def srvUpdateHousingOptionVisibility_def
    srvUpdateHousingNotes_def server_auth
  by (intro quiet_rules)+

lemma quiet_checklist_handlers:
  "quiet (srvSaveHousingCriterion e (housingServer e) md c)" "quiet (srvDeleteHousingCriterion e (housingServer e) md q)"
  "quiet (srvReorderHousingCriteria e (housingServer e) md o')" "quiet (srvSaveHousingAnswer e (housingServer e) md a)"
  unfolding srvSaveHousingCriterion_def srvDeleteHousingCriterion_def srvReorderHousingCriteria_def srvSaveHousingAnswer_def Let_def
  by (intro quiet_rules quiet_reads)+

lemma quiet_household: "quietly w (runApi e md r w)"
  using quiet_people_handlers quiet_housing_handlers quiet_checklist_handlers unfolding preserves_def by (cases r) simp_all

section \<open>Password work\<close>

text \<open>\<open>limits_at e cfg jobs w\<close>: the limiter of \<open>w\<close> has been reached by its own steps up to a time that is
  not in the future, with \<open>jobs\<close> slots taken.\<close>

definition limits_at :: "env \<Rightarrow> Config \<Rightarrow> nat \<Rightarrow> world \<Rightarrow> bool" where
  "limits_at e cfg jobs w \<longleftrightarrow> (\<exists>t\<le>clock_at e (wo_tick w). reachable (sha256 e) (uni_lower e) cfg (wo_limits w, t, jobs))"

definition steady :: "env \<Rightarrow> bool" where
  "steady e \<longleftrightarrow> mono (clock_at e) \<and> 0 \<le> clock_at e 0"

lemma limits_quietly:
  assumes "steady e" "quietly w w'" "limits_at e cfg jobs w"
  shows "limits_at e cfg jobs w'"
proof -
  have "clock_at e (wo_tick w) \<le> clock_at e (wo_tick w')" using assms(1,2) by (simp add: steady_def quietly_def mono_def)
  with assms(2,3) show ?thesis unfolding limits_at_def quietly_def by (metis order.trans)
qed

lemma limits_attempt:
  assumes "limits_at e cfg jobs w" "steady e"
  shows "limits_at e cfg jobs (w\<lparr>wo_tick := Suc (wo_tick w), wo_limits := snd (admitAttempt (sha256 e) (uni_lower e) (wo_limits w) (clock_at e (wo_tick w)) a)\<rparr>)"
proof -
  from assms(1) obtain t where t: "t \<le> clock_at e (wo_tick w)" "reachable (sha256 e) (uni_lower e) cfg (wo_limits w, t, jobs)"
    unfolding limits_at_def by blast
  from reachable.step [OF t(2) limiter_step.attempt [OF t(1), of _ _ _ _ a]]
  have "reachable (sha256 e) (uni_lower e) cfg (snd (admitAttempt (sha256 e) (uni_lower e) (wo_limits w) (clock_at e (wo_tick w)) a), clock_at e (wo_tick w), jobs)" .
  moreover have "clock_at e (wo_tick w) \<le> clock_at e (Suc (wo_tick w))" using assms(2) by (simp add: steady_def mono_def)
  ultimately show ?thesis unfolding limits_at_def by auto
qed


definition lawfully :: "env \<Rightarrow> Config \<Rightarrow> world \<Rightarrow> world \<Rightarrow> bool" where
  "lawfully e cfg w w' \<longleftrightarrow> (\<forall>jobs. limits_at e cfg jobs w \<longrightarrow> limits_at e cfg jobs w')"

abbreviation lawful :: "env \<Rightarrow> Config \<Rightarrow> ('e, 'a) io \<Rightarrow> bool" where
  "lawful e cfg m \<equiv> preserves (lawfully e cfg) m"

lemma lawfully_frame: "frame_rel (lawfully e cfg)"
  by (simp add: frame_rel_def lawfully_def)

lemma quiet_lawfully: "steady e \<Longrightarrow> quietly w w' \<Longrightarrow> lawfully e cfg w w'"
  using limits_quietly unfolding lawfully_def by blast

lemma quiet_lawful: "steady e \<Longrightarrow> quiet m \<Longrightarrow> lawful e cfg m"
  unfolding preserves_def using quiet_lawfully by blast

text \<open>Password work begins by taking a slot, or fails without one.\<close>

definition begins :: "env \<Rightarrow> Config \<Rightarrow> (go_error, unit) io \<Rightarrow> bool" where
  "begins e cfg m \<longleftrightarrow> (\<forall>w r w' jobs. limits_at e cfg jobs w \<longrightarrow> m w = (r, w') \<longrightarrow> limits_at e cfg (if isl r then jobs else Suc jobs) w')"

lemma begins_bind:
  assumes "lawful e cfg m" and "\<And>x. begins e cfg (f x)"
  shows "begins e cfg (bindP m f)"
  unfolding begins_def
proof (intro allI impI)
  fix w r w' jobs
  assume l: "limits_at e cfg jobs w" and b: "bindP m f w = (r, w')"
  obtain q u where q: "m w = (q, u)" by fastforce
  with preservesD [OF assms(1) q] l have "limits_at e cfg jobs u" by (simp add: lawfully_def)
  with b q assms(2) show "limits_at e cfg (if isl r then jobs else Suc jobs) w'" by (cases q) (auto simp: bindP_def begins_def)
qed

lemma begins_throw: "begins e cfg (throwP err)"
  by (simp add: begins_def)

lemma begins_acquire:
  assumes "steady e"
  shows "begins e cfg (acquireP e)"
  unfolding begins_def
proof (intro allI impI)
  fix w r w' jobs
  assume l: "limits_at e cfg jobs w" and a: "acquireP e w = (r, w')"
  obtain q l' where q: "Acquire (wo_limits w) (ctx_at e (wo_tick w)) = (q, l')" by fastforce
  with a have r: "r = q" "w' = w\<lparr>wo_tick := Suc (wo_tick w), wo_limits := l'\<rparr>" by (simp_all add: acquireP_def bindP_def ctxErr_def)
  from l obtain t where t: "t \<le> clock_at e (wo_tick w)" "reachable (sha256 e) (uni_lower e) cfg (wo_limits w, t, jobs)"
    unfolding limits_at_def by blast
  have "reachable (sha256 e) (uni_lower e) cfg (l', t, if isl q then jobs else Suc jobs)"
    using reachable.step [OF t(2)] limiter_step.acquire limiter_step.refuse q by (cases q) auto
  moreover have "t \<le> clock_at e (Suc (wo_tick w))" using assms t(1) by (meson steady_def monoD le_SucI order.refl order.trans)
  ultimately show "limits_at e cfg (if isl r then jobs else Suc jobs) w'" unfolding limits_at_def r by auto
qed

text \<open>The clock is read and the attempt counted at once.\<close>

lemma lawful_attempt:
  assumes "steady e" and "\<And>retry. begins e cfg (k retry)"
  shows "begins e cfg (bindP (nowP e) (\<lambda>now. bindP (allowAccountP e account now) k))"
  unfolding begins_def
proof (intro allI impI)
  fix w r w' jobs
  assume l: "limits_at e cfg jobs w" and b: "bindP (nowP e) (\<lambda>now. bindP (allowAccountP e account now) k) w = (r, w')"
  obtain retry l' where a: "AllowAccount (sha256 e) (uni_lower e) (wo_limits w) account (clock_at e (wo_tick w)) = (retry, l')" by fastforce
  with limits_attempt [OF l assms(1), of "AccountAttempt account"] have "limits_at e cfg jobs (w\<lparr>wo_tick := Suc (wo_tick w), wo_limits := l'\<rparr>)" by simp
  with b a assms(2) show "limits_at e cfg (if isl r then jobs else Suc jobs) w'" by (simp add: bindP_def nowP_def allowAccountP_def begins_def)
qed

lemma begins_work: "steady e \<Longrightarrow> begins e cfg (beginPasswordWork e account)"
  unfolding beginPasswordWork_def
  by (rule begins_bind [OF quiet_lawful [OF _ quiet_basic(2)]])
     (auto split: option.splits intro!: lawful_attempt begins_throw begins_acquire)

lemma lawful_work:
  assumes "begins e cfg m" and "lawful e cfg f"
  shows "lawful e cfg (bindP m (\<lambda>_. withSlot f))"
  unfolding preserves_def lawfully_def
proof (intro allI impI)
  fix w jobs
  assume l: "limits_at e cfg jobs w"
  obtain r u where m: "m w = (r, u)" by fastforce
  obtain q v where f: "f u = (q, v)" by fastforce
  from assms(1) l m have u: "limits_at e cfg (if isl r then jobs else Suc jobs) u" by (simp add: begins_def)
  show "limits_at e cfg jobs (snd (bindP m (\<lambda>_. withSlot f) w))"
  proof (cases r)
    case (Inr x)
    with u preservesD [OF assms(2) f] have "limits_at e cfg (Suc jobs) v" by (simp add: lawfully_def)
    then obtain t where "t \<le> clock_at e (wo_tick v)" "reachable (sha256 e) (uni_lower e) cfg (wo_limits v, t, Suc jobs)"
      unfolding limits_at_def by blast
    then have "limits_at e cfg jobs (v\<lparr>wo_limits := releaseSlot (wo_limits v)\<rparr>)"
      using reachable.step [OF _ limiter_step.release] unfolding limits_at_def by auto
    then show ?thesis by (simp add: bindP_def m Inr withSlot_def f)
  qed (use u in \<open>simp add: bindP_def m\<close>)
qed

lemma lawful_services:
  assumes "steady e"
  shows "lawful e cfg (svcCreateUser e params em n pw role)" "lawful e cfg (svcLogin e em pw)" "lawful e cfg (svcChangePassword e params i pw pw')"
  unfolding svcCreateUser_def svcLogin_def svcChangePassword_def Let_def
  by (intro preserves_if lawful_work begins_work [OF assms] quiet_lawful [OF assms] quiet_rules)+

lemma lawful_bind: "lawful e cfg m \<Longrightarrow> (\<And>x. lawful e cfg (k x)) \<Longrightarrow> lawful e cfg (bindP m k)"
  by (rule preserves_bind [OF lawfully_frame])

lemma lawful_prod: "(\<And>a b. lawful e cfg (f a b)) \<Longrightarrow> lawful e cfg (case x of (a, b) \<Rightarrow> f a b)"
  by (cases x) simp

lemma lawful_handlers:
  assumes "steady e"
  shows "lawful e cfg (srvLogin e s q)" "lawful e cfg (srvCreateUser e s md q')" "lawful e cfg (srvChangePassword e s md q)"
  unfolding srvLogin_def srvCreateUser_def srvChangePassword_def
  by (intro preserves_case_option lawful_prod preserves_mapErr lawful_bind lawful_services [OF assms]; (intro quiet_lawful [OF assms] quiet_rules)?)+

lemma lawful_limited:
  assumes "steady e" "lawful e cfg h"
  shows "lawful e cfg (AuthRateLimitInterceptor e m peer h)"
  unfolding preserves_def lawfully_def
proof (intro allI impI)
  fix w jobs
  assume l: "limits_at e cfg jobs w"
  obtain retry l' where a: "AllowIP (sha256 e) (wo_limits w) (authPeerIP peer) (clock_at e (wo_tick w)) = (retry, l')" by fastforce
  with limits_attempt [OF l assms(1), of "IPAttempt (authPeerIP peer)"]
  have v: "limits_at e cfg jobs (w\<lparr>wo_tick := Suc (wo_tick w), wo_limits := l'\<rparr>)" by simp
  with l assms(2) a show "limits_at e cfg jobs (snd (AuthRateLimitInterceptor e m peer h w))"
    by (simp add: AuthRateLimitInterceptor_def bindP_def nowP_def preserves_def lawfully_def Let_def)
qed

section \<open>Runs\<close>

lemma serve_lawful:
  assumes "steady e"
  shows "lawfully e cfg w (serve e fe (newServers e c tls) peer md r w)"
proof -
  have q: "quiet m \<Longrightarrow> lawfully e cfg w (snd (m w))" for m :: "('e, 'a) io" using quiet_lawful [OF assms] unfolding preserves_def by blast
  have h: "lawful e cfg m \<Longrightarrow> lawfully e cfg w (snd (m w))" for m :: "('e, 'a) io" unfolding preserves_def by blast
  note limited = lawful_handlers [OF assms, THEN lawful_limited [OF assms]]
  show ?thesis
    by (cases r) (simp_all add: h limited q quiet_accounts quiet_family_handlers quiet_reads [unfolded server_auth] quiet_lawfully [OF assms quiet_household])
qed

lemma run_lawful:
  assumes "steady e" "service_run e fe (newServers e c tls) w w'"
  shows "lawfully e cfg w w'"
  using assms(2)
proof (induction rule: service_run.induct)
  case (request v peer md r)
  with serve_lawful [OF assms(1), of cfg v fe c tls peer md r] show ?case by (simp add: lawfully_def)
next
  case (waiting v n)
  then have "quietly v (v\<lparr>wo_tick := n\<rparr>)" by (simp add: quietly_def)
  from quiet_lawfully [OF assms(1) this, of cfg] waiting.IH show ?case by (simp add: lawfully_def)
qed (simp add: lawfully_def)


section \<open>The start\<close>

lemma limits_config_wf: "wf_config (applyDefaults (ac_AuthLimits (Load getenv)))"
proof -
  have i: "in64 fallback \<Longrightarrow> in64 (envInt getenv key fallback)" for key fallback
    by (auto simp: envInt_def Let_def atoi_def split: option.splits if_splits)
  have "parseDuration s = Some d \<Longrightarrow> in64 d" for s d
    by (auto simp: parseDuration_def Let_def in64_def split: option.splits if_splits) (simp_all add: i64_def)
  then have "in64 fallback \<Longrightarrow> in64 (envDuration getenv key fallback)" for key fallback
    by (auto simp: envDuration_def Let_def split: option.splits)
  with i show ?thesis by (intro applyDefaults_wf) (simp_all add: Load_def Let_def in64_def)
qed

lemma lawful_lookup:
  assumes "lawful e cfg m" and "\<And>x. lawful e cfg (f x)" and "lawful e cfg g"
  shows "lawful e cfg (\<lambda>w. case m w of (Inr x, w') \<Rightarrow> f x w' | (Inl err, w') \<Rightarrow> if err \<noteq> err0 then (Inl err, w') else g w')"
  unfolding preserves_def
proof
  fix w
  obtain r v where r: "m w = (r, v)" by fastforce
  from preservesD [OF assms(1) r] assms(2,3) show "lawfully e cfg w (snd (case m w of (Inr x, w') \<Rightarrow> f x w'
      | (Inl err, w') \<Rightarrow> if err \<noteq> err0 then (Inl err, w') else g w'))"
    unfolding preserves_def lawfully_def by (cases r) (auto simp: r)
qed

lemma bootstrap_lawful:
  assumes "steady e"
  shows "lawful e cfg (bootstrap e c)"
  unfolding bootstrap_def svcEnsureBootstrapAdmin_def Let_def
  by (intro preserves_if preserves_mapErr lawful_bind lawful_work begins_acquire [OF assms] lawful_lookup; (intro quiet_lawful [OF assms] quiet_rules)?)+

section \<open>Properties\<close>

text \<open>
  Property C30: the running program uses its limiter lawfully. On a clock that does not run backwards,
  after any sequence of requests the limiter of the started program is in a state that the steps of
  the limiter reach from its configured start, with every slot for password work free again; so it
  keeps at most the configured number of buckets, and no bucket counts beyond its limit.
\<close>

theorem service_uses_limiter_lawfully:
  assumes "steady e" and "startCore e dr os w = (Inr sv, w1)" and "service_run e fe sv w1 w2"
  shows "(\<exists>t\<le>clock_at e (wo_tick w2). reachable (sha256 e) (uni_lower e) (ac_AuthLimits (Load (ma_getenv os))) (wo_limits w2, t, 0))
    \<and> li_slots (wo_limits w2) = 0 \<and> int (length (li_buckets (wo_limits w2))) \<le> cf_MaxEntries (li_cfg (wo_limits w2))
    \<and> list_all (\<lambda>(k, b). bk_count b \<le> max (cf_IPLimit (li_cfg (wo_limits w2))) (cf_AccountLimit (li_cfg (wo_limits w2)))) (li_buckets (wo_limits w2))"
proof -
  let ?c = "Load (ma_getenv os)"
  let ?cfg = "ac_AuthLimits ?c"
  from assms(2) obtain tls where sv: "sv = newServers e ?c tls" and b: "bootstrap e ?c (w\<lparr>wo_limits := New ?cfg\<rparr>) = (Inr (), w1)"
    by (rule startCore_Inr)
  have "0 \<le> clock_at e (wo_tick w)" using assms(1) unfolding steady_def by (metis monoD order.trans zero_le)
  then have "limits_at e ?cfg 0 (w\<lparr>wo_limits := New ?cfg\<rparr>)" unfolding limits_at_def using reachable.start [of 0] by auto
  with preservesD [OF bootstrap_lawful [OF assms(1), of ?cfg] b] have "limits_at e ?cfg 0 w1" by (simp add: lawfully_def)
  with run_lawful [OF assms(1) assms(3) [unfolded sv], of ?cfg] have "limits_at e ?cfg 0 w2" by (simp add: lawfully_def)
  then obtain t where t: "t \<le> clock_at e (wo_tick w2)" "reachable (sha256 e) (uni_lower e) ?cfg (wo_limits w2, t, 0)"
    unfolding limits_at_def by blast
  from reachable_inv [OF t(2) limits_config_wf] t show ?thesis
    by (auto simp: limiter_ok_def limiter_inv_def maxLimit_def list_all_iff)
qed

theorem service_uses_limiter_lawfully_witness:
  "\<exists>sv w1. startCore example_env first_driver first_machine first_world = (Inr sv, w1)
     \<and> li_slots (wo_limits (serve example_env example_floats sv (Some ''192.0.2.1:1000'') None (RpcLogin (Some (''root@x.sg'', ''pw''))) w1)) = 0"
proof -
  obtain sv w1 where s: "startCore example_env first_driver first_machine first_world = (Inr sv, w1)" using first_start by blast
  have "steady example_env" by (simp add: steady_def example_env_def mono_def)
  from service_uses_limiter_lawfully [OF this s one_request] s show ?thesis by blast
qed

end
