(* ===== verification/Spec2Isabelle.thy ===== *)
theory Spec2Isabelle
  imports Round_Trips Service_Limits
begin

text \<open>
  OurNeZt Core: a verification library for the household finance and housing backend.

  \<^bold>\<open>The program.\<close> A gRPC server in Go. A request enters at a handler of \<open>internal/server\<close>,
  behind the interceptor that limits login attempts per address. The handler finds the user of the
  call by the session token in the metadata, translates the message to domain values, validates
  them and calls the authentication service (\<open>internal/service\<close>), a pure calculation
  (\<open>internal/calculation\<close>) or a repository (\<open>internal/repository/postgres\<close>), which runs SQL
  statements, some of them in a transaction; the answer or the error is translated back. The
  repositories check in SQL whether the acting user is a member, a writer or a manager of the
  family that owns the rows.

  \<^bold>\<open>The model.\<close> Integers of 64 and 32 bits are \<open>int\<close> with the wrap-around written out
  (\<open>Core_Prelude\<close>); floats are an exact model of binary64 (\<open>Float64\<close>); texts are the bytes of Go
  strings (\<open>Go_Strings\<close>); dates and timestamps are \<open>Go_Dates\<close>. A handler is a function from the
  world to a result and a new world. The world (\<open>Store\<close>) holds the tables, the state of the limiter
  and a counter of the effects so far; the environment answers the n-th effect: the clock, random
  bytes, new uuids, the failure of a statement (before or after it took effect, so that a lost
  connection leaves the outcome unknown), the state of the request context. SHA-256, Argon2id,
  the Unicode part of lower-casing, the collation of the database and its reading of uuids are
  parameters. One statement, or one transaction where the code opens one, is one step; requests
  run one after the other. Errors are values of \<open>go_error\<close> and \<open>status\<close>.

  \<^bold>\<open>The theories.\<close>
  \<^item> \<open>Core_Prelude\<close>, \<open>Float64\<close>, \<open>Go_Strings\<close>, \<open>Go_Dates\<close>: machine integers, the error monad and its
    preservation rules, binary64, trimming, UTF-8, number texts, calendar dates.
  \<^item> \<open>Domain_Model\<close>: \<open>internal/domain/models.go\<close>, \<open>housing_notes.go\<close>, \<open>apperror\<close>.
  \<^item> \<open>Calc_CPF\<close>, \<open>Calc_Income\<close>, \<open>Calc_Grant\<close>, \<open>Calc_Housing\<close>: \<open>internal/calculation\<close>. Shares and
    accounts add up, the 64-bit code agrees with the calculation over unbounded integers and is
    monotone; the summary of a household satisfies its identities and ignores the order of the
    people; grants decrease with income; the funding of a purchase balances and ratings are
    monotone.
  \<^item> \<open>Checklist_Domain\<close>: \<open>internal/domain/housing_checklist.go\<close>. The score is the correctly rounded
    weighted mean of the applicable ratings.
  \<^item> \<open>Auth_Limit\<close>: \<open>internal/authlimit\<close> as a step relation. Invariants of all reachable states, the
    bound on admitted attempts in any interval, the end of a blockade.
  \<^item> \<open>Security\<close>: \<open>internal/platform/security\<close>. Stored password texts parse back and verify exactly
    the passwords with the same key; tokens carry their random bytes.
  \<^item> \<open>Store\<close>: tables, statements, transactions, the access checks of \<open>common.go\<close>.
  \<^item> \<open>Repo_Users\<close>, \<open>Repo_Families\<close>, \<open>Repo_People\<close>, \<open>Repo_Housing\<close>, \<open>Repo_Checklist\<close>:
    \<open>internal/repository/postgres\<close>. Every method keeps keys and references intact, families are created
    atomically, invites admit safely, the checklist refines a list per family.
  \<^item> \<open>Service_Auth\<close>: \<open>internal/service/auth.go\<close>. Logins are sound, the slots for password work are
    always given back.
  \<^item> \<open>Family_Isolation\<close>, \<open>Family_Reads\<close>, \<open>Round_Trips\<close>: properties across the repositories. Only
    writers change the data of a family, only members read it, entered data read back.
  \<^item> \<open>Server_Mapping\<close>: \<open>mapping.go\<close>. Messages are read and sent without loss.
  \<^item> \<open>Peer_Address\<close>: the address of the peer in \<open>auth_limit.go\<close>, with \<open>net.SplitHostPort\<close> and the texts of
    \<open>net/netip\<close>. Printed addresses read back, and the key of a peer is its host.
  \<^item> \<open>Server_Auth\<close>: \<open>errors.go\<close>, \<open>auth_context.go\<close>, \<open>auth_limit.go\<close>, \<open>auth.go\<close>. The interface
    \<open>Authenticator\<close> is the locale \<open>caller\<close>, interpreted by the sessions of the auth server. Errors
    hide internals, administration needs an administrator, a login opens a session.
  \<^item> \<open>Server_Family\<close>: \<open>family.go\<close>, \<open>person.go\<close>. Join codes are unbiased and admit their bearer.
  \<^item> \<open>Server_Housing\<close>: \<open>housing.go\<close>, \<open>housing_notes.go\<close>, \<open>housing_checklist.go\<close>.
  \<^item> \<open>Service_Dashboard\<close>: \<open>internal/service/dashboard.go\<close>, \<open>dashboard.go\<close>, \<open>finance.go\<close>. A dashboard
    shows a member exactly the household.
  \<^item> \<open>Server_Isolation\<close>, \<open>Server_Rows\<close>: the people and housing services as one API. Requests of a
    caller who may not write for a family leave its data as they are, and every stored profile and
    option stays well formed. The second states the latter for any predicate the repositories keep
    (locale \<open>household_law\<close>).
  \<^item> \<open>Server_Reads\<close>: the reading handlers of all services as clients of one contract. They answer
    members only, and the two ways to read an evaluation agree.
  \<^item> \<open>Platform_Config\<close>: \<open>internal/platform/config\<close>, with \<open>strconv.Atoi\<close> and \<open>time.ParseDuration\<close>. Numbers
    and durations are read exactly or replaced by their default.
  \<^item> \<open>Core_Main\<close>: \<open>internal/platform/database\<close> and \<open>cmd/core\<close> up to the running servers. The start leaves
    an administrator behind, and the servers are those of the properties above.
  \<^item> \<open>Server_Frames\<close>, \<open>Core_Service\<close>: the registered services as one state machine (\<open>rpc\<close>, \<open>serve\<close>,
    \<open>service_run\<close>), with requests in any order. The locale \<open>service_law\<close> and its two extensions say what
    a predicate needs to hold in every run; interpretations give the integrity of all tables, that
    roles are permanent, that disabled users stay out and that access keys work once.
  \<^item> \<open>Service_Limits\<close>: every run drives the limiter of \<open>Auth_Limit\<close> only through its own steps.

  \<^bold>\<open>Choices.\<close> No definition runs on fuel: all loops are over finite lists or texts that get
  shorter, so every function is total. Columns that no query reads are left out of the tables. \<open>ORDER BY\<close> is a stable sort, so
  ties keep the order of the table, where the database may return any order; no property depends
  on it. A property that needs a stored id to be in the normal form of the database, or fresh uuids,
  says so (\<open>uuid_in\<close>, \<open>uuid_ok\<close>, \<open>family_ok\<close>). Log lines are left out, but for
  the counters of the interceptor (\<open>recordAttempt\<close>), a state of their own. The handlers are used with
  all repositories present, as the program starts them; \<open>applyGrantEstimate\<close> also has the case of a
  server without people.

  \<^bold>\<open>Findings.\<close> An update can put an option into a group of another
  family (\<open>Family_Isolation\<close>). The check against disabling the own account compares texts where the
  database compares uuids (\<open>Server_Auth\<close>). The graduated band of the CPF shares uses one factor for
  all ages (\<open>Calc_CPF\<close>). A configured number of password threads is cut to eight bits
  (\<open>Platform_Config\<close>). \<open>GetHousingEvaluation\<close> compares the text of the requested id with stored ids, so
  another spelling of the id loses the answers (\<open>Server_Reads\<close>).

  \<^bold>\<open>Not modelled.\<close> \<open>internal/gen\<close> (generated messages; the records of \<open>Server_Mapping\<close> have the fields
  the code reads), \<open>internal/repository/db\<close> (generated queries no package uses),
  the end of \<open>main\<close> (the gRPC server, the health service, the shutdown), concurrent requests between
  two statements of one handler.
\<close>

end
